(* ===== verification/Prelude.thy ===== *)
theory Prelude
  imports Main "HOL-Library.Char_ord" "HOL-Library.List_Lexorder"
begin

text \<open>
  Shared vocabulary of the development: the exception classes the modelled
  modules raise, a result monad for code that may raise, and the generic list
  lemmas several components use.  A Python exception is a value \<open>Inl e\<close>; the
  text of its message is not modelled, its class is, because handlers and
  callers dispatch on the class.
\<close>

section \<open>Exceptions and the result monad\<close>

text \<open>
  \<open>SchemaError\<close>, \<open>FutureSchemaError\<close> and \<open>RedContentError\<close> come from
  \<open>implementation_store/schema.py\<close> (the last two are subclasses of the
  first), \<open>StorePathError\<close> from \<open>paths.py\<close>, \<open>StoreIOError\<close> and its subclass
  \<open>CorruptRecordError\<close> from \<open>io.py\<close>, \<open>StoreError\<close> and its subclasses
  \<open>IdempotencyError\<close> and \<open>IntegrityError\<close> from \<open>store.py\<close>; the others are
  built-in classes.  \<open>Killed\<close> is no exception: the process ends there, so no
  handler and no cleanup of the code runs.
\<close>

datatype exn =
    SchemaError | FutureSchemaError | RedContentError
  | StorePathError
  | StoreIOError | CorruptRecordError
  | StoreError | IdempotencyError | IntegrityError
  | ValueError | TypeError | KeyError | RuntimeError | OSError | UnboundLocalError
  | OverflowError | IndexError | AttributeError
  | Killed

type_synonym 'a res = "exn + 'a"

definition bindE :: "'a res \<Rightarrow> ('a \<Rightarrow> 'b res) \<Rightarrow> 'b res" where
  "bindE m f = (case m of Inl e \<Rightarrow> Inl e | Inr x \<Rightarrow> f x)"

text \<open>\<open>guardE c e\<close> is \<open>if c: raise e\<close>.\<close>

definition guardE :: "bool \<Rightarrow> exn \<Rightarrow> unit res" where
  "guardE c e = (if c then Inl e else Inr ())"

fun mapE :: "('a \<Rightarrow> 'b res) \<Rightarrow> 'a list \<Rightarrow> 'b list res" where
  "mapE f [] = Inr []"
| "mapE f (x # xs) = bindE (f x) (\<lambda>y. bindE (mapE f xs) (\<lambda>ys. Inr (y # ys)))"

named_theorems resE \<open>inversion of successful runs of the result monad\<close>
named_theorems stable \<open>a validator accepts what it returned, unchanged\<close>

lemma bindE_Inr [simp]: "bindE (Inr x) f = f x"
  by (simp add: bindE_def)

lemma bindE_Inl [simp]: "bindE (Inl e) f = Inl e"
  by (simp add: bindE_def)

lemma bindE_eq_Inr [resE]: "bindE m f = Inr y \<longleftrightarrow> (\<exists>x. m = Inr x \<and> f x = Inr y)"
  by (auto simp: bindE_def split: sum.splits)

lemma bindE_assoc: "bindE (bindE m f) g = bindE m (\<lambda>x. bindE (f x) g)"
  by (auto simp: bindE_def split: sum.splits)

lemma guardE_eq_Inr [resE]: "guardE c e = Inr u \<longleftrightarrow> \<not> c"
  by (auto simp: guardE_def)

lemma guardE_False [simp]: "guardE False e = Inr ()"
  by (simp add: guardE_def)

lemma guardE_True [simp]: "guardE True e = Inl e"
  by (simp add: guardE_def)

lemma mapE_length: "mapE f xs = Inr ys \<Longrightarrow> length ys = length xs"
  by (induction xs arbitrary: ys) (auto simp: resE)

lemma mapE_id:
  assumes "\<And>x y. x \<in> set xs \<Longrightarrow> f x = Inr y \<Longrightarrow> y = x" and "mapE f xs = Inr ys"
  shows "ys = xs"
  using assms by (induction xs arbitrary: ys) (auto simp: resE)

lemma mapE_elem: "mapE f xs = Inr ys \<Longrightarrow> y \<in> set ys \<Longrightarrow> \<exists>x\<in>set xs. f x = Inr y"
  by (induction xs arbitrary: ys) (auto simp: resE)

lemma mapE_append:
  "mapE f (xs @ ys) = bindE (mapE f xs) (\<lambda>us. bindE (mapE f ys) (\<lambda>vs. Inr (us @ vs)))"
  by (induction xs) (auto simp: bindE_assoc bindE_def split: sum.splits)

section \<open>Lists\<close>

text \<open>Python's \<open>xs[-n:]\<close> for a positive \<open>n\<close>.\<close>

definition last_n :: "nat \<Rightarrow> 'a list \<Rightarrow> 'a list" where
  "last_n n xs = drop (length xs - n) xs"

lemma length_last_n [simp]: "length (last_n n xs) = min n (length xs)"
  by (auto simp: last_n_def)

lemma last_n_id [simp]: "length xs \<le> n \<Longrightarrow> last_n n xs = xs"
  by (simp add: last_n_def)

lemma set_last_n: "set (last_n n xs) \<subseteq> set xs"
  by (auto simp: last_n_def dest: in_set_dropD)

text \<open>\<open>list(dict.fromkeys(xs))\<close>: duplicates removed, first occurrences kept.\<close>

definition dedup :: "'a list \<Rightarrow> 'a list" where
  "dedup xs = rev (remdups (rev xs))"

lemma set_dedup [simp]: "set (dedup xs) = set xs"
  by (simp add: dedup_def)

lemma distinct_dedup [simp]: "distinct (dedup xs)"
  by (simp add: dedup_def)

lemma dedup_Nil [simp]: "dedup [] = []"
  by (simp add: dedup_def)

lemma remdups_remdups_append: "remdups (remdups xs @ ys) = remdups (xs @ ys)"
  by (induction xs) auto

lemma dedup_dedup_left [simp]: "dedup (dedup xs @ ys) = dedup (xs @ ys)"
  by (simp add: dedup_def remdups_append2)

lemma dedup_dedup_right [simp]: "dedup (xs @ dedup ys) = dedup (xs @ ys)"
  by (simp add: dedup_def remdups_remdups_append)

text \<open>The first element that satisfies \<open>p\<close>, as \<open>next((x for x in xs if p(x)), None)\<close>.\<close>

fun first_match :: "('a \<Rightarrow> bool) \<Rightarrow> 'a list \<Rightarrow> 'a option" where
  "first_match p [] = None"
| "first_match p (x # xs) = (if p x then Some x else first_match p xs)"

lemma first_match_Some: "first_match p xs = Some x \<Longrightarrow> x \<in> set xs \<and> p x"
  by (induction xs) (auto split: if_splits)

lemma first_match_None: "first_match p xs = None \<longleftrightarrow> (\<forall>x\<in>set xs. \<not> p x)"
  by (induction xs) auto

lemma first_match_append:
  "first_match p (xs @ ys) = (case first_match p xs of None \<Rightarrow> first_match p ys | Some x \<Rightarrow> Some x)"
  by (induction xs) auto

end
