(* ===== verification/PyStr.thy ===== *)
theory PyStr
  imports Prelude
begin

text \<open>
  Python strings.  A \<open>str\<close> is an Isabelle \<open>string\<close>: a list of code points
  below 256 (the Latin-1 range); a text with larger code points is outside the
  model.  The character classes are the ones CPython uses on that range.
  \<open>bytes\<close> values are \<open>string\<close>s as well, one \<open>char\<close> per byte, and the
  UTF-8 codec between the two is written out, because size limits are stated in
  encoded bytes.
\<close>

section \<open>Character classes\<close>

abbreviation ordc :: "char \<Rightarrow> nat" where
  "ordc c \<equiv> of_char c"

definition in_range :: "nat \<Rightarrow> nat \<Rightarrow> char \<Rightarrow> bool" where
  "in_range lo hi c = (lo \<le> ordc c \<and> ordc c \<le> hi)"

definition ascii_lower :: "char \<Rightarrow> bool" where "ascii_lower c = in_range 97 122 c"
definition ascii_upper :: "char \<Rightarrow> bool" where "ascii_upper c = in_range 65 90 c"
definition ascii_digit :: "char \<Rightarrow> bool" where "ascii_digit c = in_range 48 57 c"
definition ascii_alnum :: "char \<Rightarrow> bool" where
  "ascii_alnum c = (ascii_lower c \<or> ascii_upper c \<or> ascii_digit c)"
definition hex_lower :: "char \<Rightarrow> bool" where
  "hex_lower c = (ascii_digit c \<or> in_range 97 102 c)"

text \<open>\<open>str.isspace\<close> and the regular expression class \<open>\s\<close> on code points below 256.\<close>

definition is_space :: "char \<Rightarrow> bool" where
  "is_space c = (let n = ordc c in (9 \<le> n \<and> n \<le> 13) \<or> (28 \<le> n \<and> n \<le> 32) \<or> n = 133 \<or> n = 160)"

text \<open>\<open>str.isdigit\<close>: the decimal digits and the three Latin-1 superscripts.\<close>

definition is_digit :: "char \<Rightarrow> bool" where
  "is_digit c = (let n = ordc c in (48 \<le> n \<and> n \<le> 57) \<or> n = 178 \<or> n = 179 \<or> n = 185)"

text \<open>The regular expression class \<open>\w\<close>: \<open>str.isalnum\<close> or underscore.\<close>

definition is_word :: "char \<Rightarrow> bool" where
  "is_word c = (let n = ordc c in
     (48 \<le> n \<and> n \<le> 57) \<or> (65 \<le> n \<and> n \<le> 90) \<or> n = 95 \<or> (97 \<le> n \<and> n \<le> 122)
     \<or> n = 170 \<or> n = 178 \<or> n = 179 \<or> n = 181 \<or> n = 185 \<or> n = 186 \<or> (188 \<le> n \<and> n \<le> 190)
     \<or> (192 \<le> n \<and> n \<le> 255 \<and> n \<noteq> 215 \<and> n \<noteq> 247))"

definition lower_char :: "char \<Rightarrow> char" where
  "lower_char c = (let n = ordc c in
     if (65 \<le> n \<and> n \<le> 90) \<or> (192 \<le> n \<and> n \<le> 222 \<and> n \<noteq> 215) then char_of (n + 32) else c)"

definition str_lower :: "string \<Rightarrow> string" where
  "str_lower s = map lower_char s"

text \<open>
  \<open>str.upper\<close>.  Two Latin-1 letters have their capital beyond Latin-1 (181, 255);
  they stay as they are here, which no comparison with an ASCII word can tell.
\<close>

definition upper_char :: "char \<Rightarrow> string" where
  "upper_char c = (let n = ordc c in
     if (97 \<le> n \<and> n \<le> 122) \<or> (224 \<le> n \<and> n \<le> 254 \<and> n \<noteq> 247) then [char_of (n - 32)]
     else if n = 223 then ''SS'' else [c])"

definition str_upper :: "string \<Rightarrow> string" where
  "str_upper s = concat (map upper_char s)"

section \<open>String methods\<close>

definition starts_with :: "string \<Rightarrow> string \<Rightarrow> bool" where
  "starts_with s p = (take (length p) s = p)"

definition ends_with :: "string \<Rightarrow> string \<Rightarrow> bool" where
  "ends_with s p = (length p \<le> length s \<and> drop (length s - length p) s = p)"

text \<open>\<open>p in s\<close> for strings.\<close>

fun contains :: "string \<Rightarrow> string \<Rightarrow> bool" where
  "contains [] p = (p = [])"
| "contains (c # s) p = (starts_with (c # s) p \<or> contains s p)"

definition lstrip :: "string \<Rightarrow> string" where
  "lstrip s = dropWhile is_space s"

definition rstrip :: "string \<Rightarrow> string" where
  "rstrip s = rev (dropWhile is_space (rev s))"

definition strip :: "string \<Rightarrow> string" where
  "strip s = rstrip (lstrip s)"

text \<open>\<open>s.split(c)\<close> for a one-character separator.\<close>

fun split_on :: "char \<Rightarrow> string \<Rightarrow> string list" where
  "split_on c [] = [[]]"
| "split_on c (x # xs) =
     (if x = c then [] # split_on c xs
      else (case split_on c xs of [] \<Rightarrow> [[x]] | p # ps \<Rightarrow> (x # p) # ps))"

fun join :: "string \<Rightarrow> string list \<Rightarrow> string" where
  "join sep [] = []"
| "join sep [p] = p"
| "join sep (p # q # ps) = p @ sep @ join sep (q # ps)"

lemma lstrip_hd: "lstrip s = c # t \<Longrightarrow> \<not> is_space c"
  unfolding lstrip_def using hd_dropWhile [of is_space s] by (metis list.distinct(1) list.sel(1))

lemma length_lstrip: "length (lstrip s) \<le> length s"
  by (simp add: lstrip_def length_dropWhile_le)

lemma dropWhile_nonspace_shorter:
  assumes "lstrip s \<noteq> []"
  shows "length (dropWhile (\<lambda>c. \<not> is_space c) (lstrip s)) < length s"
proof -
  from assms obtain c t where ct: "lstrip s = c # t" by (cases "lstrip s") auto
  then have "dropWhile (\<lambda>c. \<not> is_space c) (lstrip s) = dropWhile (\<lambda>c. \<not> is_space c) t"
    using lstrip_hd by simp
  then have "length (dropWhile (\<lambda>c. \<not> is_space c) (lstrip s)) \<le> length t"
    by (simp add: length_dropWhile_le)
  with ct length_lstrip [of s] show ?thesis by simp
qed

text \<open>\<open>s.split()\<close>: the maximal runs of non-space characters.\<close>

function split_ws :: "string \<Rightarrow> string list" where
  "split_ws s = (let t = lstrip s in
     if t = [] then []
     else takeWhile (\<lambda>c. \<not> is_space c) t # split_ws (dropWhile (\<lambda>c. \<not> is_space c) t))"
  by pat_completeness auto
termination
  by (relation "measure length") (auto simp: dropWhile_nonspace_shorter)

declare split_ws.simps [simp del]

text \<open>\<open>s.find(c)\<close> and \<open>s.rfind(c)\<close> for one character; \<open>None\<close> is Python's \<open>-1\<close>.\<close>

fun find_char :: "char \<Rightarrow> string \<Rightarrow> nat option" where
  "find_char c [] = None"
| "find_char c (x # xs) = (if x = c then Some 0 else map_option Suc (find_char c xs))"

fun rfind_char :: "char \<Rightarrow> string \<Rightarrow> nat option" where
  "rfind_char c [] = None"
| "rfind_char c (x # xs) =
     (case rfind_char c xs of Some i \<Rightarrow> Some (Suc i) | None \<Rightarrow> if x = c then Some 0 else None)"

definition replace_char :: "char \<Rightarrow> char \<Rightarrow> string \<Rightarrow> string" where
  "replace_char a b s = map (\<lambda>c. if c = a then b else c) s"

lemma split_on_nonempty [simp]: "split_on c s \<noteq> []"
  by (induction s) (auto split: list.splits)

lemma split_on_no_sep: "p \<in> set (split_on c s) \<Longrightarrow> c \<notin> set p"
proof (induction s arbitrary: p)
  case Nil
  then show ?case by simp
next
  case (Cons x xs)
  then show ?case by (auto split: if_splits list.splits)
qed

lemma join_split_on: "join [c] (split_on c s) = s"
proof (induction s)
  case Nil
  show ?case by simp
next
  case (Cons x xs)
  then show ?case
    by (cases "split_on c xs"; cases "tl (split_on c xs)") (auto split: list.splits)
qed

lemma contains_iff: "contains s p \<longleftrightarrow> (\<exists>u v. s = u @ p @ v)"
proof (induction s)
  case Nil
  then show ?case by auto
next
  case (Cons c s)
  show ?case
  proof
    assume "contains (c # s) p"
    then consider "starts_with (c # s) p" | "contains s p" by auto
    then show "\<exists>u v. c # s = u @ p @ v"
    proof cases
      case 1
      then have "c # s = [] @ p @ drop (length p) (c # s)"
        by (metis append_Nil append_take_drop_id starts_with_def)
      then show ?thesis by blast
    next
      case 2
      with Cons obtain u v where "s = u @ p @ v" by blast
      then have "c # s = (c # u) @ p @ v" by simp
      then show ?thesis by blast
    qed
  next
    assume "\<exists>u v. c # s = u @ p @ v"
    then obtain u v where uv: "c # s = u @ p @ v" by blast
    then show "contains (c # s) p"
    proof (cases u)
      case Nil
      with uv have "starts_with (c # s) p" by (simp add: starts_with_def)
      then show ?thesis by simp
    next
      case (Cons a u')
      with uv have "s = u' @ p @ v" by simp
      with \<open>contains s p \<longleftrightarrow> _\<close> show ?thesis by auto
    qed
  qed
qed

section \<open>Decimal numbers\<close>

definition digit_char :: "nat \<Rightarrow> char" where
  "digit_char d = char_of (48 + d)"

function nat_str :: "nat \<Rightarrow> string" where
  "nat_str n = (if n < 10 then [digit_char n] else nat_str (n div 10) @ [digit_char (n mod 10)])"
  by pat_completeness auto
termination
  by (relation "measure id") auto

declare nat_str.simps [simp del]

definition int_str :: "int \<Rightarrow> string" where
  "int_str i = (if i < 0 then CHR ''-'' # nat_str (nat (- i)) else nat_str (nat i))"

definition digit_val :: "char \<Rightarrow> nat" where
  "digit_val c = ordc c - 48"

definition digits_val :: "string \<Rightarrow> nat" where
  "digits_val s = foldl (\<lambda>n c. 10 * n + digit_val c) 0 s"

lemma digit_char_props:
  "d < 10 \<Longrightarrow> ascii_digit (digit_char d) \<and> digit_val (digit_char d) = d"
  by (simp add: digit_char_def ascii_digit_def in_range_def digit_val_def)

lemma nat_str_digits: "list_all ascii_digit (nat_str n) \<and> nat_str n \<noteq> []"
proof (induction n rule: nat_str.induct)
  case (1 n)
  then show ?case
    by (subst (1 2) nat_str.simps) (auto simp: digit_char_props)
qed

lemma digits_val_nat_str [simp]: "digits_val (nat_str n) = n"
proof (induction n rule: nat_str.induct)
  case (1 n)
  show ?case
  proof (cases "n < 10")
    case True
    then show ?thesis by (subst nat_str.simps) (simp add: digits_val_def digit_char_props)
  next
    case False
    then have "digits_val (nat_str n) = 10 * (n div 10) + n mod 10"
      using 1 by (subst nat_str.simps) (simp add: digits_val_def digit_char_props)
    then show ?thesis by simp
  qed
qed

lemma nat_str_hd: "n > 0 \<Longrightarrow> hd (nat_str n) \<noteq> CHR ''0''"
proof (induction n rule: nat_str.induct)
  case (1 n)
  show ?case
  proof (cases "n < 10")
    case True
    have "digit_char n \<noteq> CHR ''0''"
    proof
      assume "digit_char n = CHR ''0''"
      then have "digit_val (digit_char n) = 0" by (simp add: digit_val_def)
      with True 1(2) show False by (simp add: digit_char_props)
    qed
    with True show ?thesis by (subst nat_str.simps) simp
  next
    case False
    with 1 have "hd (nat_str (n div 10)) \<noteq> CHR ''0''" by simp
    with False nat_str_digits [of "n div 10"] show ?thesis
      by (subst nat_str.simps) (simp add: hd_append)
  qed
qed

lemma nat_str_0 [simp]: "nat_str 0 = ''0''"
  by (subst nat_str.simps) (simp add: digit_char_def char_of_def bit_Suc bit_0)

section \<open>UTF-8\<close>

definition utf8_char :: "char \<Rightarrow> string" where
  "utf8_char c = (if ordc c < (128::nat) then [c]
     else [char_of (192 + ordc c div (64::nat)), char_of (128 + ordc c mod (64::nat))])"

definition utf8_encode :: "string \<Rightarrow> string" where
  "utf8_encode s = concat (map utf8_char s)"

text \<open>
  \<open>bytes.decode("utf-8")\<close>.  \<open>None\<close> is a \<open>UnicodeDecodeError\<close>; it also
  stands for well-formed sequences that denote code points above 255.
\<close>

fun utf8_decode :: "string \<Rightarrow> string option" where
  "utf8_decode [] = Some []"
| "utf8_decode (b # bs) =
     (if ordc b < (128::nat) then map_option (Cons b) (utf8_decode bs)
      else (case bs of
              [] \<Rightarrow> None
            | b2 # bs2 \<Rightarrow>
                if (ordc b = (194::nat) \<or> ordc b = (195::nat)) \<and> 128 \<le> (ordc b2 :: nat) \<and> (ordc b2 :: nat) < 192
                then map_option (Cons (char_of ((ordc b - 192) * 64 + (ordc b2 - 128) :: nat))) (utf8_decode bs2)
                else None))"

lemma utf8_encode_simps [simp]:
  "utf8_encode [] = []"
  "utf8_encode (c # s) = utf8_char c @ utf8_encode s"
  "utf8_encode (s @ t) = utf8_encode s @ utf8_encode t"
  by (simp_all add: utf8_encode_def)

lemma ordc_bound: "(ordc c :: nat) < 256"
  by simp

lemma utf8_decode_char: "utf8_decode (utf8_char c @ bs) = map_option (Cons c) (utf8_decode bs)"
proof (cases "(ordc c :: nat) < 128")
  case True
  then show ?thesis by (simp add: utf8_char_def)
next
  case False
  let ?n = "ordc c :: nat"
  have b: "?n < 256" by (rule ordc_bound)
  with False have d: "?n div 64 = 2 \<or> ?n div 64 = 3" by linarith
  have n: "?n = 64 * (?n div 64) + ?n mod 64" by simp
  define m where "m = ?n mod 64"
  have nm: "?n = 64 * (?n div 64) + m" using n by (simp add: m_def)
  have "char_of (128 + m) = c" if "?n div 64 = 2"
  proof -
    from nm that have "128 + m = ?n" by linarith
    then show ?thesis by (simp only: char_of_char)
  qed
  moreover have "char_of (192 + m) = c" if "?n div 64 = 3"
  proof -
    from nm that have "192 + m = ?n" by linarith
    then show ?thesis by (simp only: char_of_char)
  qed
  ultimately show ?thesis
    using False d b by (auto simp: utf8_char_def m_def)
qed

lemma utf8_decode_encode [simp]: "utf8_decode (utf8_encode s) = Some s"
  by (induction s) (simp_all add: utf8_decode_char)

lemma utf8_encode_inj: "utf8_encode s = utf8_encode t \<Longrightarrow> s = t"
  by (metis utf8_decode_encode option.inject)

lemma utf8_encode_ascii: "list_all (\<lambda>c. ordc c < (128::nat)) s \<Longrightarrow> utf8_encode s = s"
  by (induction s) (auto simp: utf8_char_def)

end
