(* ===== verification/PyValue.thy ===== *)
theory PyValue
  imports PyStr
begin

text \<open>
  The dynamically typed values the store handles: what \<open>json.loads\<close> returns
  and what callers pass in.  A \<open>dict\<close> with string keys is an association list
  in ascending key order without duplicates: Python's \<open>==\<close> on dictionaries
  ignores insertion order and the store serialises with \<open>sort_keys=True\<close>, so
  the order of insertion is never observed.  \<open>PFloat\<close> carries the \<open>repr\<close> of a
  float; no modelled operation computes with one.
\<close>

datatype py =
    PNone
  | PBool bool
  | PInt int
  | PFloat string
  | PStr string
  | PList "py list"
  | PDict "(string \<times> py) list"

type_synonym pdict = "(string \<times> py) list"

section \<open>Dictionaries\<close>

text \<open>\<open>d[k] = v\<close>\<close>

fun dset :: "string \<Rightarrow> py \<Rightarrow> pdict \<Rightarrow> pdict" where
  "dset k v [] = [(k, v)]"
| "dset k v ((k', v') # d) =
     (if k = k' then (k, v) # d
      else if k < k' then (k, v) # (k', v') # d
      else (k', v') # dset k v d)"

text \<open>\<open>d.pop(k, None)\<close> and \<open>d.get(k, default)\<close>\<close>

definition ddel :: "string \<Rightarrow> pdict \<Rightarrow> pdict" where
  "ddel k d = filter (\<lambda>(k', _). k' \<noteq> k) d"

definition dget :: "pdict \<Rightarrow> string \<Rightarrow> py \<Rightarrow> py" where
  "dget d k dflt = (case map_of d k of Some v \<Rightarrow> v | None \<Rightarrow> dflt)"

definition dhas :: "string \<Rightarrow> pdict \<Rightarrow> bool" where
  "dhas k d = (map_of d k \<noteq> None)"

text \<open>\<open>d.update(e)\<close> and a dictionary display \<open>{k1: v1, ...}\<close>\<close>

fun dupdate :: "pdict \<Rightarrow> pdict \<Rightarrow> pdict" where
  "dupdate d [] = d"
| "dupdate d ((k, v) # e) = dupdate (dset k v d) e"

definition mk_dict :: "pdict \<Rightarrow> pdict" where
  "mk_dict e = dupdate [] e"

definition ddels :: "string list \<Rightarrow> pdict \<Rightarrow> pdict" where
  "ddels ks d = filter (\<lambda>(k, _). k \<notin> set ks) d"

abbreviation keys :: "pdict \<Rightarrow> string set" where
  "keys d \<equiv> fst ` set d"

definition dict_ok :: "pdict \<Rightarrow> bool" where
  "dict_ok d = (sorted (map fst d) \<and> distinct (map fst d))"

lemma map_of_dset [simp]: "map_of (dset k v d) = (map_of d)(k \<mapsto> v)"
  by (induction d) (auto simp: fun_eq_iff)

lemma keys_dset [simp]: "keys (dset k v d) = insert k (keys d)"
  by (induction k v d rule: dset.induct) auto

lemma dict_ok_Nil [simp]: "dict_ok []"
  by (simp add: dict_ok_def)

lemma dict_ok_Cons:
  "dict_ok ((k, v) # d) \<longleftrightarrow> (\<forall>k'\<in>keys d. k < k') \<and> dict_ok d"
  by (auto simp: dict_ok_def less_le)

lemma dict_ok_dset: "dict_ok d \<Longrightarrow> dict_ok (dset k v d)"
proof (induction k v d rule: dset.induct)
  case (1 k v)
  then show ?case by (simp add: dict_ok_Cons)
next
  case (2 k v k' v' d)
  then show ?case
    by (auto simp: dict_ok_Cons)
qed

lemma map_of_dupdate: "map_of (dupdate d e) = map_of d ++ map_of (rev e)"
proof (induction d e rule: dupdate.induct)
  case (1 d)
  then show ?case by simp
next
  case (2 d k v e)
  then show ?case by (auto simp: fun_eq_iff map_add_def split: option.splits)
qed

lemma dict_ok_dupdate: "dict_ok d \<Longrightarrow> dict_ok (dupdate d e)"
  by (induction d e rule: dupdate.induct) (auto simp: dict_ok_dset)

lemma keys_dupdate [simp]: "keys (dupdate d e) = keys d \<union> keys e"
  by (induction d e rule: dupdate.induct) auto

lemma dict_ok_mk_dict [simp]: "dict_ok (mk_dict e)"
  by (simp add: mk_dict_def dict_ok_dupdate)

lemma keys_mk_dict [simp]: "keys (mk_dict e) = keys e"
  by (simp add: mk_dict_def)

lemma mk_dict_keyD: "(k, v) \<in> set (mk_dict e) \<Longrightarrow> k \<in> keys e"
  using keys_mk_dict [of e] by (metis fst_conv image_eqI)

lemma set_dset: "set (dset k v d) \<subseteq> insert (k, v) (set d)"
  by (induction k v d rule: dset.induct) auto

lemma set_dupdate: "set (dupdate d e) \<subseteq> set d \<union> set e"
proof (induction d e rule: dupdate.induct)
  case (2 d k v e)
  then show ?case using set_dset [of k v d] by auto
qed simp

lemma set_mk_dict: "set (mk_dict e) \<subseteq> set e"
  using set_dupdate [of "[]" e] by (simp add: mk_dict_def)

lemma dict_ok_length: "dict_ok d \<Longrightarrow> length d = card (keys d)"
  by (metis dict_ok_def distinct_card length_map set_map)

lemma dict_ok_length_le: "dict_ok d \<Longrightarrow> keys d \<subseteq> set ks \<Longrightarrow> length d \<le> length ks"
  by (metis dict_ok_length List.finite_set card_length card_mono order_trans)

lemma length_mk_dict: "length (mk_dict e) \<le> length e"
  using dict_ok_length_le [of "mk_dict e" "map fst e"] by simp

lemma map_of_rev_distinct: "distinct (map fst e) \<Longrightarrow> map_of (rev e) = map_of e"
  by (metis distinct_rev map_of_eqI map_of_inject_set rev_map set_rev)

lemma map_of_mk_dict: "distinct (map fst e) \<Longrightarrow> map_of (mk_dict e) k = map_of e k"
  by (simp add: mk_dict_def map_of_dupdate map_of_rev_distinct)

lemma dget_mk_dict: "distinct (map fst e) \<Longrightarrow> dget (mk_dict e) k x = dget e k x"
  by (simp add: dget_def map_of_mk_dict)

lemma map_of_ddel [simp]: "map_of (ddel k d) = (map_of d)(k := None)"
  by (induction d) (auto simp: ddel_def fun_eq_iff)

lemma map_of_ddels: "map_of (ddels ks d) k = (if k \<in> set ks then None else map_of d k)"
  by (induction d) (auto simp: ddels_def)

lemma dict_ok_filter: "dict_ok d \<Longrightarrow> dict_ok (filter P d)"
  by (auto simp: dict_ok_def distinct_map_filter sorted_filter)

lemma dict_ok_ddel: "dict_ok d \<Longrightarrow> dict_ok (ddel k d)"
  by (simp add: ddel_def dict_ok_filter)

lemma dict_ok_ddels: "dict_ok d \<Longrightarrow> dict_ok (ddels ks d)"
  by (simp add: ddels_def dict_ok_filter)

text \<open>Dictionaries with the same lookups are the same association list.\<close>

lemma dict_ext:
  assumes "dict_ok d" "dict_ok e" "\<And>k. map_of d k = map_of e k"
  shows "d = e"
proof -
  have "distinct (map fst d)" "distinct (map fst e)" using assms by (auto simp: dict_ok_def)
  then have "set d = set e" using assms(3) by (metis ext map_of_inject_set)
  moreover have "inj_on fst (set d)"
    using \<open>distinct (map fst d)\<close> by (simp add: distinct_map)
  ultimately show "d = e"
    using assms(1,2) map_sorted_distinct_set_unique [of fst d e] by (simp add: dict_ok_def)
qed

lemma dset_same: "dict_ok d \<Longrightarrow> map_of d k = Some v \<Longrightarrow> dset k v d = d"
  by (rule dict_ext) (auto simp: dict_ok_dset)

lemma mk_dict_id: "dict_ok d \<Longrightarrow> mk_dict d = d"
  by (rule dict_ext) (simp_all add: map_of_mk_dict dict_ok_def [of d])

lemma dget_dset: "dget (dset k v d) k' x = (if k' = k then v else dget d k' x)"
  by (simp add: dget_def)

lemma dget_Cons [simp]: "dget ((k', v) # d) k x = (if k = k' then v else dget d k x)"
  by (simp add: dget_def)

lemma dget_Nil [simp]: "dget [] k x = x"
  by (simp add: dget_def)

lemma keys_map_of: "k \<in> keys d \<longleftrightarrow> map_of d k \<noteq> None"
  by (metis map_of_eq_None_iff)

lemma dget_present: "k \<in> keys d \<Longrightarrow> dget d k x = dget d k y"
  unfolding keys_map_of by (auto simp: dget_def)

lemma map_of_present: "k \<in> keys d \<Longrightarrow> map_of d k = Some (dget d k x)"
  unfolding keys_map_of by (auto simp: dget_def)

lemma dset_dset: "dict_ok d \<Longrightarrow> dset k v (dset k w d) = dset k v d"
  by (rule dict_ext) (auto simp: dict_ok_dset)

lemma ddels_dset: "dict_ok d \<Longrightarrow> k \<in> set ks \<Longrightarrow> ddels ks (dset k v d) = ddels ks d"
  by (rule dict_ext) (auto simp: dict_ok_dset dict_ok_ddels map_of_ddels)

lemma ddel_dset: "dict_ok d \<Longrightarrow> ddel k (dset k v d) = ddel k d"
  by (rule dict_ext) (auto simp: dict_ok_dset dict_ok_ddel)

text \<open>A dictionary is rebuilt from its lookups at its keys.\<close>

lemma mk_dict_rebuild:
  assumes "dict_ok d" "keys d = set ks" "distinct ks"
  shows "mk_dict (map (\<lambda>k. (k, dget d k x)) ks) = d"
proof (rule dict_ext)
  show "dict_ok (mk_dict (map (\<lambda>k. (k, dget d k x)) ks))" by simp
  show "dict_ok d" by fact
  fix k
  have "map_of (map (\<lambda>k. (k, dget d k x)) ks) k = (if k \<in> set ks then Some (dget d k x) else None)"
    by (induction ks) auto
  moreover have "map_of d k = (if k \<in> set ks then Some (dget d k x) else None)"
    using assms(2) map_of_present [of k d x] keys_map_of [of k d] by auto
  ultimately show "map_of (mk_dict (map (\<lambda>k. (k, dget d k x)) ks)) k = map_of d k"
    using assms(3) by (simp add: map_of_mk_dict comp_def)
qed

lemma mk_dict_eqI:
  assumes "dict_ok d" "distinct (map fst e)" "set (map fst e) = keys d"
    and "list_all (\<lambda>(k, v). dget d k PNone = v) e"
  shows "mk_dict e = d"
proof (rule dict_ext)
  show "dict_ok (mk_dict e)" by simp
  show "dict_ok d" by fact
  fix k
  show "map_of (mk_dict e) k = map_of d k"
  proof (cases "map_of e k")
    case None
    then have "k \<notin> keys d" using assms(3) by (simp add: map_of_eq_None_iff)
    then have "map_of d k = None" by (simp add: map_of_eq_None_iff)
    with None assms(2) show ?thesis by (simp add: map_of_mk_dict)
  next
    case (Some v)
    then have "(k, v) \<in> set e" by (rule map_of_SomeD)
    with assms(4) have "dget d k PNone = v" by (auto simp: list_all_iff)
    moreover have "k \<in> keys d" using \<open>(k, v) \<in> set e\<close> assms(3) by force
    ultimately have "map_of d k = Some v" using map_of_present [of k d PNone] by simp
    with Some assms(2) show ?thesis by (simp add: map_of_mk_dict)
  qed
qed

section \<open>Truth value, equality with a string\<close>

definition truthy :: "py \<Rightarrow> bool" where
  "truthy v = (case v of
     PNone \<Rightarrow> False | PBool b \<Rightarrow> b | PInt i \<Rightarrow> i \<noteq> 0 | PFloat s \<Rightarrow> s \<noteq> ''0.0'' \<and> s \<noteq> ''-0.0''
   | PStr s \<Rightarrow> s \<noteq> [] | PList xs \<Rightarrow> xs \<noteq> [] | PDict d \<Rightarrow> d \<noteq> [])"

definition py_or :: "py \<Rightarrow> py \<Rightarrow> py" where
  "py_or a b = (if truthy a then a else b)"

definition str_of :: "py \<Rightarrow> string" where
  "str_of v = (case v of PStr s \<Rightarrow> s | _ \<Rightarrow> [])"

definition int_of_py :: "py \<Rightarrow> int" where
  "int_of_py v = (case v of PInt i \<Rightarrow> i | _ \<Rightarrow> 0)"

definition dict_of :: "py \<Rightarrow> pdict" where
  "dict_of v = (case v of PDict d \<Rightarrow> d | _ \<Rightarrow> [])"

lemma of_simps [simp]:
  "str_of (PStr s) = s" "int_of_py (PInt i) = i" "dict_of (PDict d) = d"
  "truthy (PStr s) = (s \<noteq> [])" "truthy (PDict d) = (d \<noteq> [])" "truthy PNone = False"
  "truthy (PBool b) = b"
  by (simp_all add: str_of_def int_of_py_def dict_of_def truthy_def)

text \<open>
  Well-formed values: every dictionary inside is a proper dictionary, and no
  float occurs (JSON text of a float is not modelled).
\<close>

fun wf_py :: "py \<Rightarrow> bool" where
  "wf_py (PList xs) = list_all wf_py xs"
| "wf_py (PDict d) = (dict_ok d \<and> list_all (\<lambda>kv. wf_py (snd kv)) d)"
| "wf_py (PFloat s) = False"
| "wf_py _ = True"

lemma wf_dset: "list_all (\<lambda>kv. wf_py (snd kv)) d \<Longrightarrow> wf_py v \<Longrightarrow> list_all (\<lambda>kv. wf_py (snd kv)) (dset k v d)"
  by (induction k v d rule: dset.induct) auto

lemma wf_dupdate:
  "list_all (\<lambda>kv. wf_py (snd kv)) d \<Longrightarrow> list_all (\<lambda>kv. wf_py (snd kv)) e
   \<Longrightarrow> list_all (\<lambda>kv. wf_py (snd kv)) (dupdate d e)"
  by (induction d e rule: dupdate.induct) (auto simp: wf_dset)

lemma wf_mk_dict: "list_all (\<lambda>kv. wf_py (snd kv)) e \<Longrightarrow> wf_py (PDict (mk_dict e))"
  by (simp add: mk_dict_def wf_dupdate dict_ok_dupdate)

end
