(* ===== verification/PyJson.thy ===== *)
theory PyJson
  imports PyValue
begin

text \<open>
  The two JSON routines of the Python standard library the store is built on:
  \<open>json.dumps(value, ensure_ascii=False, sort_keys=True, separators=(",", ":"))\<close>,
  which \<open>schema.py\<close> calls \<open>canonical_json\<close>, and \<open>json.loads\<close> on text.  The parser
  takes fuel; \<open>2 * length s + 2\<close> units are enough for any text, because every
  nested call is preceded by a consumed character at least every second step.
  The main fact is the round trip: a well-formed value is read back from its
  canonical text.
\<close>

section \<open>Printing\<close>

abbreviation quote :: char where "quote \<equiv> CHR 0x22"
abbreviation bslash :: char where "bslash \<equiv> CHR 0x5C"

definition hex_digit :: "nat \<Rightarrow> char" where
  "hex_digit d = (if d < 10 then char_of (48 + d) else char_of (87 + d))"

definition esc_char :: "char \<Rightarrow> string" where
  "esc_char c =
     (if c = quote then [bslash, quote]
      else if c = bslash then [bslash, bslash]
      else if c = CHR 0x0A then [bslash, CHR ''n'']
      else if c = CHR 0x0D then [bslash, CHR ''r'']
      else if c = CHR 0x09 then [bslash, CHR ''t'']
      else if c = CHR 0x0C then [bslash, CHR ''f'']
      else if c = CHR 0x08 then [bslash, CHR ''b'']
      else if ordc c < (32::nat)
        then [bslash, CHR ''u'', CHR ''0'', CHR ''0'', hex_digit (ordc c div 16), hex_digit (ordc c mod 16)]
      else [c])"

definition dump_str :: "string \<Rightarrow> string" where
  "dump_str s = quote # concat (map esc_char s) @ [quote]"

fun canonical_json :: "py \<Rightarrow> string" where
  "canonical_json PNone = ''null''"
| "canonical_json (PBool b) = (if b then ''true'' else ''false'')"
| "canonical_json (PInt i) = int_str i"
| "canonical_json (PFloat s) = s"
| "canonical_json (PStr s) = dump_str s"
| "canonical_json (PList xs) = ''['' @ join '','' (map canonical_json xs) @ '']''"
| "canonical_json (PDict d) =
     ''{'' @ join '','' (map (\<lambda>(k, v). dump_str k @ '':'' @ canonical_json v) d) @ ''}''"

section \<open>Parsing\<close>

definition json_ws :: "char \<Rightarrow> bool" where
  "json_ws c = (c = CHR '' '' \<or> c = CHR 0x09 \<or> c = CHR 0x0A \<or> c = CHR 0x0D)"

definition skip_ws :: "string \<Rightarrow> string" where
  "skip_ws s = dropWhile json_ws s"

definition hex_val :: "char \<Rightarrow> nat option" where
  "hex_val c = (let n = ordc c in
     if 48 \<le> n \<and> n \<le> 57 then Some (n - 48)
     else if 97 \<le> n \<and> n \<le> 102 then Some (n - 87)
     else if 65 \<le> n \<and> n \<le> 70 then Some (n - 55)
     else None)"

definition unescape :: "char \<Rightarrow> char option" where
  "unescape c =
     (if c = quote \<or> c = bslash \<or> c = CHR ''/'' then Some c
      else if c = CHR ''n'' then Some (CHR 0x0A)
      else if c = CHR ''r'' then Some (CHR 0x0D)
      else if c = CHR ''t'' then Some (CHR 0x09)
      else if c = CHR ''f'' then Some (CHR 0x0C)
      else if c = CHR ''b'' then Some (CHR 0x08)
      else None)"

definition hex4 :: "char \<Rightarrow> char \<Rightarrow> char \<Rightarrow> char \<Rightarrow> nat option" where
  "hex4 a b c d = (case (hex_val a, hex_val b, hex_val c, hex_val d) of
     (Some w, Some x, Some y, Some z) \<Rightarrow> Some (((w * 16 + x) * 16 + y) * 16 + z)
   | _ \<Rightarrow> None)"

definition cons_fst :: "'a \<Rightarrow> ('a list \<times> 'b) option \<Rightarrow> ('a list \<times> 'b) option" where
  "cons_fst c r = map_option (\<lambda>(s, t). (c # s, t)) r"

text \<open>The rest of a string literal, after its opening quote.\<close>

fun p_string :: "string \<Rightarrow> (string \<times> string) option" where
  "p_string [] = None"
| "p_string (c # s) =
     (if c = quote then Some ([], s)
      else if c = bslash then
        (case s of
           [] \<Rightarrow> None
         | e # s1 \<Rightarrow>
             if e = CHR ''u'' then
               (case s1 of
                  h1 # h2 # h3 # h4 # s2 \<Rightarrow>
                    (case hex4 h1 h2 h3 h4 of
                       Some n \<Rightarrow> if n < 256 then cons_fst (char_of n) (p_string s2) else None
                     | None \<Rightarrow> None)
                | _ \<Rightarrow> None)
             else (case unescape e of Some x \<Rightarrow> cons_fst x (p_string s1) | None \<Rightarrow> None))
      else if ordc c < (32::nat) then None
      else cons_fst c (p_string s))"

definition starts_digit :: "string \<Rightarrow> bool" where
  "starts_digit s = (case s of c # _ \<Rightarrow> ascii_digit c | [] \<Rightarrow> False)"

definition p_frac :: "string \<Rightarrow> string \<times> string" where
  "p_frac s = (case s of
     c # t \<Rightarrow> if c = CHR ''.'' \<and> starts_digit t
              then (c # takeWhile ascii_digit t, dropWhile ascii_digit t) else ([], s)
   | [] \<Rightarrow> ([], s))"

definition p_exp :: "string \<Rightarrow> string \<times> string" where
  "p_exp s = (case s of
     c # t \<Rightarrow>
       if c = CHR ''e'' \<or> c = CHR ''E'' then
         (if starts_digit t then (c # takeWhile ascii_digit t, dropWhile ascii_digit t)
          else (case t of
                  g # u \<Rightarrow> if (g = CHR ''+'' \<or> g = CHR ''-'') \<and> starts_digit u
                           then (c # g # takeWhile ascii_digit u, dropWhile ascii_digit u) else ([], s)
                | [] \<Rightarrow> ([], s)))
       else ([], s)
   | [] \<Rightarrow> ([], s))"

definition p_digits :: "string \<Rightarrow> (string \<times> string) option" where
  "p_digits s = (case s of
     c # t \<Rightarrow> if c = CHR ''0'' then Some ([c], t)
              else if ascii_digit c then Some (takeWhile ascii_digit s, dropWhile ascii_digit s)
              else None
   | [] \<Rightarrow> None)"

definition p_number :: "string \<Rightarrow> (py \<times> string) option" where
  "p_number s =
     (let neg = starts_with s ''-''; s1 = (if neg then tl s else s) in
      case p_digits s1 of
        None \<Rightarrow> None
      | Some (ds, s2) \<Rightarrow>
          let (fr, s3) = p_frac s2; (ex, s4) = p_exp s3 in
          if fr = [] \<and> ex = [] then Some (PInt (if neg then - int (digits_val ds) else int (digits_val ds)), s2)
          else Some (PFloat ((if neg then ''-'' else []) @ ds @ fr @ ex), s4))"

definition p_literal :: "string \<Rightarrow> (py \<times> string) option" where
  "p_literal s =
     (if starts_with s ''null'' then Some (PNone, drop 4 s)
      else if starts_with s ''true'' then Some (PBool True, drop 4 s)
      else if starts_with s ''false'' then Some (PBool False, drop 5 s)
      else if starts_with s ''NaN'' then Some (PFloat ''NaN'', drop 3 s)
      else if starts_with s ''Infinity'' then Some (PFloat ''Infinity'', drop 8 s)
      else if starts_with s ''-Infinity'' then Some (PFloat ''-Infinity'', drop 9 s)
      else None)"

text \<open>
  \<open>p_value\<close>, \<open>p_elems\<close> and \<open>p_pairs\<close> start at the first character of a value,
  of an array element and of an object key.
\<close>

fun p_value :: "nat \<Rightarrow> string \<Rightarrow> (py \<times> string) option"
and p_elems :: "nat \<Rightarrow> string \<Rightarrow> (py list \<times> string) option"
and p_pairs :: "nat \<Rightarrow> string \<Rightarrow> (pdict \<times> string) option" where
  "p_value 0 s = None"
| "p_value (Suc n) s =
     (case s of
        [] \<Rightarrow> None
      | c # t \<Rightarrow>
          if c = quote then map_option (\<lambda>(k, r). (PStr k, r)) (p_string t)
          else if c = CHR ''['' then
            (let u = skip_ws t in
             if starts_with u '']'' then Some (PList [], tl u)
             else map_option (\<lambda>(xs, r). (PList xs, r)) (p_elems n u))
          else if c = CHR ''{'' then
            (let u = skip_ws t in
             if starts_with u ''}'' then Some (PDict [], tl u)
             else map_option (\<lambda>(d, r). (PDict (mk_dict d), r)) (p_pairs n u))
          else (case p_literal s of Some r \<Rightarrow> Some r | None \<Rightarrow> p_number s))"
| "p_elems 0 s = None"
| "p_elems (Suc n) s =
     (case p_value n s of
        None \<Rightarrow> None
      | Some (v, r) \<Rightarrow>
          (case skip_ws r of
             [] \<Rightarrow> None
           | c # r1 \<Rightarrow>
               if c = CHR '']'' then Some ([v], r1)
               else if c = CHR '','' then cons_fst v (p_elems n (skip_ws r1))
               else None))"
| "p_pairs 0 s = None"
| "p_pairs (Suc n) s =
     (case s of
        [] \<Rightarrow> None
      | q # t \<Rightarrow>
          if q \<noteq> quote then None
          else (case p_string t of
             None \<Rightarrow> None
           | Some (k, r) \<Rightarrow>
               (case skip_ws r of
                  [] \<Rightarrow> None
                | c # r1 \<Rightarrow>
                    if c \<noteq> CHR '':'' then None
                    else (case p_value n (skip_ws r1) of
                       None \<Rightarrow> None
                     | Some (v, r2) \<Rightarrow>
                         (case skip_ws r2 of
                            [] \<Rightarrow> None
                          | c2 # r3 \<Rightarrow>
                              if c2 = CHR ''}'' then Some ([(k, v)], r3)
                              else if c2 = CHR '','' then cons_fst (k, v) (p_pairs n (skip_ws r3))
                              else None)))))"

definition json_loads :: "string \<Rightarrow> py option" where
  "json_loads s = (case p_value (2 * length s + 2) (skip_ws s) of
     Some (v, r) \<Rightarrow> if skip_ws r = [] then Some v else None
   | None \<Rightarrow> None)"

section \<open>Round trip\<close>

lemma cons_fst_Some [simp]: "cons_fst c (Some (s, t)) = Some (c # s, t)"
  by (simp add: cons_fst_def)

lemma hex_digit_val: "d < 16 \<Longrightarrow> hex_val (hex_digit d) = Some d"
  by (auto simp: hex_digit_def hex_val_def Let_def)

lemma p_string_esc: "p_string (esc_char c @ r) = cons_fst c (p_string r)"
proof (cases "c \<in> {quote, bslash, CHR 0x0A, CHR 0x0D, CHR 0x09, CHR 0x0C, CHR 0x08}")
  case True
  then show ?thesis by (auto simp: esc_char_def unescape_def)
next
  case False
  show ?thesis
  proof (cases "ordc c < (32::nat)")
    case True
    have "hex4 (CHR ''0'') (CHR ''0'') (hex_digit (ordc c div 16)) (hex_digit (ordc c mod 16))
        = Some (ordc c div 16 * 16 + ordc c mod 16)"
      using True by (simp add: hex4_def hex_digit_val) (simp add: hex_val_def)
    with False True show ?thesis by (simp add: esc_char_def)
  next
    case f: False
    with False show ?thesis by (simp add: esc_char_def)
  qed
qed

lemma p_string_dump: "p_string (concat (map esc_char s) @ quote # r) = Some (s, r)"
  by (induction s) (simp_all add: p_string_esc)

lemma p_string_dump_str: "dump_str s = quote # t \<Longrightarrow> p_string (t @ r) = Some (s, r)"
  by (auto simp: dump_str_def p_string_dump)

text \<open>What may follow a number without being read as part of it.\<close>

definition num_end :: "string \<Rightarrow> bool" where
  "num_end r = (case r of [] \<Rightarrow> True
     | c # _ \<Rightarrow> \<not> ascii_digit c \<and> c \<noteq> CHR ''.'' \<and> c \<noteq> CHR ''e'' \<and> c \<noteq> CHR ''E'')"

lemma p_digits_nat_str: "num_end r \<Longrightarrow> p_digits (nat_str n @ r) = Some (nat_str n, r)"
proof (cases "n = 0")
  case True
  then show ?thesis by (simp add: p_digits_def)
next
  case False
  assume r: "num_end r"
  obtain c t where ct: "nat_str n = c # t" using nat_str_digits [of n] by (cases "nat_str n") auto
  with False have "c \<noteq> CHR ''0''" using nat_str_hd [of n] by simp
  moreover have d: "list_all ascii_digit (nat_str n)" using nat_str_digits by blast
  moreover have "takeWhile ascii_digit (nat_str n @ r) = nat_str n"
    using d r by (cases r) (auto simp: num_end_def takeWhile_append list_all_iff)
  moreover have "dropWhile ascii_digit (nat_str n @ r) = r"
    using d r by (cases r) (auto simp: num_end_def dropWhile_append list_all_iff)
  ultimately show ?thesis using ct by (simp add: p_digits_def)
qed

lemma p_frac_num_end: "num_end r \<Longrightarrow> p_frac r = ([], r)"
  by (cases r) (auto simp: num_end_def p_frac_def)

lemma p_exp_num_end: "num_end r \<Longrightarrow> p_exp r = ([], r)"
  by (cases r) (auto simp: num_end_def p_exp_def)

lemma p_number_int_str:
  assumes "num_end r"
  shows "p_number (int_str i @ r) = Some (PInt i, r)"
proof (cases "i < 0")
  case True
  then show ?thesis using assms
    by (simp add: p_number_def int_str_def starts_with_def p_digits_nat_str p_frac_num_end p_exp_num_end)
next
  case False
  obtain c t where ct: "nat_str (nat i) = c # t"
    using nat_str_digits [of "nat i"] by (cases "nat_str (nat i)") auto
  moreover have "ascii_digit c" using nat_str_digits [of "nat i"] ct by simp
  then have "c \<noteq> CHR ''-''" by (auto simp: ascii_digit_def in_range_def)
  ultimately have "\<not> starts_with (nat_str (nat i) @ r) ''-''" by (simp add: starts_with_def)
  then show ?thesis using assms False
    by (simp add: p_number_def int_str_def p_digits_nat_str p_frac_num_end p_exp_num_end)
qed

lemma not_ascii_digit [simp]:
  "\<not> ascii_digit (CHR ''n'')" "\<not> ascii_digit (CHR ''t'')" "\<not> ascii_digit (CHR ''f'')"
  "\<not> ascii_digit (CHR ''N'')" "\<not> ascii_digit (CHR ''I'')" "\<not> ascii_digit (CHR ''-'')"
  "\<not> ascii_digit quote" "\<not> ascii_digit (CHR ''['')" "\<not> ascii_digit (CHR ''{'')"
  "\<not> ascii_digit (CHR '']'')" "\<not> ascii_digit (CHR ''}'')" "\<not> ascii_digit (CHR '','')"
  "\<not> ascii_digit (CHR '' '')" "\<not> ascii_digit (CHR 0x09)" "\<not> ascii_digit (CHR 0x0A)"
  "\<not> ascii_digit (CHR 0x0D)"
  by (simp_all add: ascii_digit_def in_range_def)

lemma int_str_hd: "\<exists>c t. int_str i = c # t \<and> (ascii_digit c \<or> (c = CHR ''-'' \<and> (\<exists>d u. t = d # u \<and> ascii_digit d)))"
proof -
  have "\<exists>c t. nat_str n = c # t \<and> ascii_digit c" for n
    using nat_str_digits [of n] by (cases "nat_str n") auto
  from this [of "nat i"] this [of "nat (- i)"] show ?thesis by (auto simp: int_str_def)
qed

lemma p_literal_int_str: "p_literal (int_str i @ r) = None"
proof -
  obtain c t where ct: "int_str i = c # t"
    and c: "ascii_digit c \<or> (c = CHR ''-'' \<and> (\<exists>d u. t = d # u \<and> ascii_digit d))"
    using int_str_hd [of i] by (elim exE conjE) (rule that)
  have nd: "x \<notin> {CHR ''n'', CHR ''t'', CHR ''f'', CHR ''N'', CHR ''I'', CHR ''-''}" if "ascii_digit x" for x
    using that by (intro notI) (elim insertE emptyE; simp)
  from c show ?thesis
  proof
    assume "ascii_digit c"
    with nd [of c] ct show ?thesis by (simp add: p_literal_def starts_with_def)
  next
    assume "c = CHR ''-'' \<and> (\<exists>d u. t = d # u \<and> ascii_digit d)"
    then obtain d u where "c = CHR ''-''" "t = d # u" "ascii_digit d" by blast
    with nd [of d] ct show ?thesis by (simp add: p_literal_def starts_with_def)
  qed
qed

lemma p_value_int_str:
  assumes "num_end r"
  shows "p_value (Suc n) (int_str i @ r) = Some (PInt i, r)"
proof -
  obtain c t where ct: "int_str i = c # t"
    and c: "ascii_digit c \<or> (c = CHR ''-'' \<and> (\<exists>d u. t = d # u \<and> ascii_digit d))"
    using int_str_hd [of i] by (elim exE conjE) (rule that)
  from c have "c \<noteq> quote" "c \<noteq> CHR ''[''" "c \<noteq> CHR ''{''"
    by (elim disjE; auto)+
  then have "p_value (Suc n) (c # t @ r)
      = (case p_literal (c # t @ r) of Some r \<Rightarrow> Some r | None \<Rightarrow> p_number (c # t @ r))"
    by simp
  also have "\<dots> = Some (PInt i, r)"
    using p_literal_int_str [of i r] p_number_int_str [OF assms, of i] ct by simp
  finally show ?thesis using ct by simp
qed

text \<open>The first character of a canonical text is neither white space nor a closing bracket.\<close>

lemma canonical_json_hd:
  assumes "wf_py v"
  shows "\<exists>c t. canonical_json v = c # t \<and> \<not> json_ws c \<and> c \<noteq> CHR '']'' \<and> c \<noteq> CHR ''}''"
proof (cases v)
  case (PInt i)
  obtain c t where ct: "int_str i = c # t"
    and c: "ascii_digit c \<or> (c = CHR ''-'' \<and> (\<exists>d u. t = d # u \<and> ascii_digit d))"
    using int_str_hd [of i] by (elim exE conjE) (rule that)
  from c have "\<not> json_ws c \<and> c \<noteq> CHR '']'' \<and> c \<noteq> CHR ''}''"
    by (elim disjE) (auto simp: json_ws_def)
  with ct PInt show ?thesis by simp
qed (use assms in \<open>auto simp: json_ws_def dump_str_def\<close>)

lemma skip_ws_canonical: "wf_py v \<Longrightarrow> skip_ws (canonical_json v @ r) = canonical_json v @ r"
  using canonical_json_hd [of v] by (auto simp: skip_ws_def)

lemma join_Cons: "join sep (x # xs) = x @ concat (map (\<lambda>y. sep @ y) xs)"
  by (induction xs arbitrary: x) auto

definition reads_back :: "py \<Rightarrow> bool" where
  "reads_back v = (\<forall>n r. 2 * length (canonical_json v) \<le> n \<longrightarrow> num_end r
      \<longrightarrow> p_value n (canonical_json v @ r) = Some (v, r))"

lemma reads_backD:
  "reads_back v \<Longrightarrow> 2 * length (canonical_json v) \<le> n \<Longrightarrow> num_end r
   \<Longrightarrow> p_value n (canonical_json v @ r) = Some (v, r)"
  by (simp add: reads_back_def)

lemma num_end_punct [simp]: "num_end (CHR '','' # r)" "num_end (CHR '']'' # r)" "num_end (CHR ''}'' # r)"
  by (simp_all add: num_end_def ascii_digit_def in_range_def)

lemma skip_ws_punct [simp]:
  "skip_ws (CHR '','' # r) = CHR '','' # r" "skip_ws (CHR '']'' # r) = CHR '']'' # r"
  "skip_ws (CHR ''}'' # r) = CHR ''}'' # r" "skip_ws (CHR '':'' # r) = CHR '':'' # r"
  "skip_ws (quote # r) = quote # r" "skip_ws [] = []"
  by (simp_all add: skip_ws_def json_ws_def)

lemma p_elems_back:
  assumes "list_all wf_py xs" "\<And>x. x \<in> set xs \<Longrightarrow> reads_back x" "xs \<noteq> []"
    and "2 * length (join '','' (map canonical_json xs) @ '']'') \<le> n"
  shows "p_elems n (join '','' (map canonical_json xs) @ CHR '']'' # r) = Some (xs, r)"
  using assms
proof (induction xs arbitrary: n)
  case Nil
  then show ?case by simp
next
  case (Cons x xs)
  from Cons.prems(4) obtain m where n: "n = Suc m" by (cases n) auto
  have x: "reads_back x" using Cons.prems(2) by simp
  show ?case
  proof (cases xs)
    case Nil
    with Cons.prems(4) n have "2 * length (canonical_json x) \<le> m" by simp
    then have "p_value m (canonical_json x @ CHR '']'' # r) = Some (x, CHR '']'' # r)"
      by (intro reads_backD x) auto
    with Nil n show ?thesis by simp
  next
    case (Cons y ys)
    have wf: "wf_py y" using \<open>list_all wf_py (x # xs)\<close> Cons by simp
    let ?tl = "join '','' (map canonical_json xs) @ CHR '']'' # r"
    have len: "2 * length (canonical_json x) \<le> m" "2 * length (join '','' (map canonical_json xs) @ '']'') \<le> m"
      using \<open>2 * length (join '','' (map canonical_json (x # xs)) @ '']'') \<le> n\<close> n Cons by auto
    have "p_value m (canonical_json x @ CHR '','' # ?tl) = Some (x, CHR '','' # ?tl)"
      using len(1) by (intro reads_backD x) auto
    moreover have "p_elems m ?tl = Some (xs, r)"
      using Cons.IH \<open>list_all wf_py (x # xs)\<close> \<open>\<And>x'. x' \<in> set (x # xs) \<Longrightarrow> reads_back x'\<close> Cons len(2) by auto
    moreover have "skip_ws ?tl = ?tl"
      using Cons wf skip_ws_canonical [of y] by (simp add: join_Cons)
    ultimately show ?thesis using n Cons by simp
  qed
qed

abbreviation dump_pair :: "string \<times> py \<Rightarrow> string" where
  "dump_pair kv \<equiv> dump_str (fst kv) @ '':'' @ canonical_json (snd kv)"

lemma p_pairs_back:
  assumes "list_all (\<lambda>kv. wf_py (snd kv)) d" "\<And>kv. kv \<in> set d \<Longrightarrow> reads_back (snd kv)" "d \<noteq> []"
    and "2 * length (join '','' (map dump_pair d) @ ''}'') \<le> n"
  shows "p_pairs n (join '','' (map dump_pair d) @ CHR ''}'' # r) = Some (d, r)"
  using assms
proof (induction d arbitrary: n)
  case Nil
  then show ?case by simp
next
  case (Cons kv d)
  obtain k v where kv: "kv = (k, v)" by (cases kv)
  from Cons.prems(4) obtain m where n: "n = Suc m" by (cases n) auto
  have v: "reads_back v" "wf_py v" using Cons.prems(1) Cons.prems(2) [of kv] kv by auto
  have ps: "p_string (concat (map esc_char k) @ quote # u) = Some (k, u)" for u
    by (rule p_string_dump)
  show ?case
  proof (cases d)
    case Nil
    with Cons.prems(4) n kv have "2 * length (canonical_json v) \<le> m" by simp
    then have "p_value m (canonical_json v @ CHR ''}'' # r) = Some (v, CHR ''}'' # r)"
      by (intro reads_backD v(1)) auto
    with Nil n kv ps v(2) show ?thesis by (simp add: dump_str_def skip_ws_canonical)
  next
    case (Cons e es)
    let ?tl = "join '','' (map dump_pair d) @ CHR ''}'' # r"
    have len: "2 * length (canonical_json v) \<le> m" "2 * length (join '','' (map dump_pair d) @ ''}'') \<le> m"
      using \<open>2 * length (join '','' (map dump_pair (kv # d)) @ ''}'') \<le> n\<close> n kv Cons by auto
    have "p_value m (canonical_json v @ CHR '','' # ?tl) = Some (v, CHR '','' # ?tl)"
      using len(1) by (intro reads_backD v(1)) auto
    moreover have "p_pairs m ?tl = Some (d, r)"
      using Cons.IH \<open>list_all _ (kv # d)\<close> \<open>\<And>e. e \<in> set (kv # d) \<Longrightarrow> reads_back (snd e)\<close> Cons len(2) by auto
    moreover have "skip_ws ?tl = ?tl"
      using Cons by (simp add: join_Cons dump_str_def)
    ultimately show ?thesis using n Cons kv ps v(2)
      by (simp add: dump_str_def skip_ws_canonical)
  qed
qed

lemma canonical_json_dict:
  "canonical_json (PDict d) = ''{'' @ join '','' (map dump_pair d) @ ''}''"
  by (simp add: case_prod_beta')

lemma reads_back_Suc:
  assumes "\<And>m r. num_end r \<Longrightarrow> p_value (Suc m) (canonical_json v @ r) = Some (v, r)" "canonical_json v \<noteq> []"
  shows "reads_back v"
  unfolding reads_back_def
proof (intro allI impI)
  fix n r assume n: "2 * length (canonical_json v) \<le> n" and r: "num_end r"
  from n assms(2) obtain m where "n = Suc m" by (cases n) auto
  with assms(1) [OF r] show "p_value n (canonical_json v @ r) = Some (v, r)" by simp
qed

lemma p_value_canonical: "wf_py v \<Longrightarrow> reads_back v"
proof (induction v)
  case (PInt i)
  show ?case using p_value_int_str int_str_hd [of i] by (intro reads_back_Suc) auto
next
  case (PStr s)
  show ?case by (intro reads_back_Suc) (simp_all add: dump_str_def p_string_dump)
next
  case (PList xs)
  show ?case unfolding reads_back_def
  proof (intro allI impI)
    fix n r assume n: "2 * length (canonical_json (PList xs)) \<le> n"
    then obtain m where m: "n = Suc m" by (cases n) auto
    show "p_value n (canonical_json (PList xs) @ r) = Some (PList xs, r)"
    proof (cases xs)
      case Nil
      then show ?thesis using m by (simp add: starts_with_def)
    next
      case (Cons y ys)
      have wf: "list_all wf_py xs" "wf_py y" using PList.prems Cons by auto
      let ?u = "join '','' (map canonical_json xs) @ CHR '']'' # r"
      have "p_elems m ?u = Some (xs, r)"
        using wf(1) PList.IH n m Cons by (intro p_elems_back) (auto simp: list_all_iff)
      moreover have "skip_ws ?u = ?u" "\<not> starts_with ?u '']''"
        using Cons canonical_json_hd [OF wf(2)] by (auto simp: join_Cons skip_ws_def starts_with_def)
      ultimately show ?thesis using m by simp
    qed
  qed
next
  case (PDict d)
  show ?case unfolding reads_back_def
  proof (intro allI impI)
    fix n r assume n: "2 * length (canonical_json (PDict d)) \<le> n"
    then obtain m where m: "n = Suc m" by (cases n) auto
    show "p_value n (canonical_json (PDict d) @ r) = Some (PDict d, r)"
    proof (cases d)
      case Nil
      then show ?thesis using m by (simp add: starts_with_def)
    next
      case (Cons kv ds)
      have wf: "list_all (\<lambda>kv. wf_py (snd kv)) d" "dict_ok d" using PDict.prems by auto
      have rb: "reads_back (snd kv)" if "kv \<in> set d" for kv
        using PDict.IH [OF that, of "snd kv"] wf(1) that by (cases kv) (auto simp: list_all_iff)
      let ?u = "join '','' (map dump_pair d) @ CHR ''}'' # r"
      have "p_pairs m ?u = Some (d, r)"
        using wf(1) rb n m Cons unfolding canonical_json_dict by (intro p_pairs_back) auto
      moreover have "skip_ws ?u = ?u" "\<not> starts_with ?u ''}''"
        using Cons by (auto simp: join_Cons dump_str_def starts_with_def)
      ultimately show ?thesis using m wf(2) unfolding canonical_json_dict by (simp add: mk_dict_id)
    qed
  qed
next
  case PNone
  have "p_value (Suc m) (''null'' @ r) = Some (PNone, r)" for m r
    by (simp add: p_literal_def starts_with_def)
  then show ?case using reads_back_Suc [of PNone] by simp
next
  case (PBool b)
  have "p_value (Suc m) ((if b then ''true'' else ''false'') @ r) = Some (PBool b, r)" for m r
    by (simp add: p_literal_def starts_with_def)
  then show ?case using reads_back_Suc [of "PBool b"] by simp
qed simp

lemma json_roundtrip:
  assumes "wf_py v"
  shows "json_loads (canonical_json v) = Some v"
proof -
  have "p_value (2 * length (canonical_json v) + 2) (canonical_json v @ []) = Some (v, [])"
    using p_value_canonical [OF assms] by (intro reads_backD) (auto simp: num_end_def)
  then show ?thesis
    using skip_ws_canonical [OF assms, of "[]"] by (simp add: json_loads_def)
qed

lemma canonical_json_inj: "wf_py v \<Longrightarrow> wf_py w \<Longrightarrow> canonical_json v = canonical_json w \<Longrightarrow> v = w"
  by (metis json_roundtrip option.inject)

text \<open>Canonical texts stay on one line: no raw newline or carriage return occurs in them.\<close>

definition one_line :: "string \<Rightarrow> bool" where
  "one_line s = list_all (\<lambda>c. c \<noteq> CHR 0x0A \<and> c \<noteq> CHR 0x0D) s"

lemma one_line_simps [simp]:
  "one_line []" "one_line (c # s) \<longleftrightarrow> c \<noteq> CHR 0x0A \<and> c \<noteq> CHR 0x0D \<and> one_line s"
  "one_line (s @ t) \<longleftrightarrow> one_line s \<and> one_line t"
  by (simp_all add: one_line_def)

lemma hex_digit_line: "d < 16 \<Longrightarrow> hex_digit d \<noteq> CHR 0x0A \<and> hex_digit d \<noteq> CHR 0x0D"
  using hex_digit_val [of d] by (auto simp: hex_val_def)

lemma one_line_esc: "one_line (esc_char c)"
  by (auto simp: esc_char_def hex_digit_line)

lemma one_line_dump_str: "one_line (dump_str s)"
  by (induction s) (auto simp: dump_str_def one_line_esc)

lemma one_line_join: "one_line sep \<Longrightarrow> (\<And>x. x \<in> set xs \<Longrightarrow> one_line x) \<Longrightarrow> one_line (join sep xs)"
  by (induction sep xs rule: join.induct) auto

lemma ascii_digit_line: "list_all ascii_digit s \<Longrightarrow> one_line s"
  by (induction s) auto

lemma one_line_json: "wf_py v \<Longrightarrow> one_line (canonical_json v)"
proof (induction v)
  case (PInt i)
  then show ?case using nat_str_digits ascii_digit_line by (auto simp: int_str_def)
next
  case (PList xs)
  then show ?case by (auto intro!: one_line_join simp: list_all_iff)
next
  case (PDict d)
  then show ?case by (fastforce intro!: one_line_join simp: list_all_iff one_line_dump_str)
qed (auto simp: one_line_dump_str)

end
