(* ===== verification/World.thy ===== *)
theory World
  imports PyJson "HOL-Library.Sublist"
begin

text \<open>
  The part of the operating system the implementation store runs on: a file
  tree with modes and link counts, the system calls \<open>paths.py\<close> and \<open>io.py\<close>
  make, and the monad of code that may raise and has effects.

  A world maps every absolute path (its list of components) to what \<open>lstat\<close>
  reports there.  Reading system calls are functions of the world; a path of
  \<open>w_bad\<close> makes \<open>lstat\<close> raise an \<open>OSError\<close> other than \<open>FileNotFoundError\<close>, a path
  of \<open>w_noread\<close> cannot be opened for reading.  Every writing system call takes
  the next outcome from \<open>w_faults\<close>: it proceeds, fails with an \<open>OSError\<close>, stores
  only some bytes (a \<open>write\<close>), or never returns because the process dies there;
  when the list is used up all calls proceed.  So a statement about every world
  covers a failure and a crash at every point of an operation.  Clock, random names, the working directory and the \<open>git\<close> program
  are components of the world too.
\<close>

type_synonym path = "string list"

datatype node =
    RegFile (file_bytes: string) (node_mode: nat) (node_nlink: nat)
  | Dir (node_mode: nat)
  | Symlink path
  | Special (node_mode: nat)

datatype fault = Proceed | Fail | Short nat | Crash

record world =
  w_node :: "path \<Rightarrow> node option"
  w_bad :: "path \<Rightarrow> bool"
  w_noread :: "path \<Rightarrow> bool"
  w_faults :: "fault list"
  w_clock :: "nat \<Rightarrow> string"
  w_random :: "nat \<Rightarrow> string"
  w_tick :: nat
  w_cwd :: path
  w_git :: "path \<Rightarrow> string list \<Rightarrow> string option"

section \<open>The monad\<close>

type_synonym 'a io = "world \<Rightarrow> 'a res \<times> world"

definition ret :: "'a \<Rightarrow> 'a io" where
  "ret x = (\<lambda>w. (Inr x, w))"

definition raise :: "exn \<Rightarrow> 'a io" where
  "raise e = (\<lambda>w. (Inl e, w))"

definition bind :: "'a io \<Rightarrow> ('a \<Rightarrow> 'b io) \<Rightarrow> 'b io" where
  "bind m f = (\<lambda>w. case m w of (Inl e, w') \<Rightarrow> (Inl e, w') | (Inr x, w') \<Rightarrow> f x w')"

text \<open>A computation that only reads the world, and one that does not even read it.\<close>

definition reading :: "(world \<Rightarrow> 'a res) \<Rightarrow> 'a io" where
  "reading f = (\<lambda>w. (f w, w))"

definition lift :: "'a res \<Rightarrow> 'a io" where
  "lift r = (\<lambda>w. (r, w))"

definition guard :: "bool \<Rightarrow> exn \<Rightarrow> unit io" where
  "guard c e = (\<lambda>w. (guardE c e, w))"

text \<open>\<open>try: m except e: h(e)\<close> and \<open>try: m finally: c\<close>.\<close>

definition handle :: "'a io \<Rightarrow> (exn \<Rightarrow> 'a io) \<Rightarrow> 'a io" where
  "handle m h = (\<lambda>w. case m w of
     (Inl e, w') \<Rightarrow> if e = Killed then (Inl e, w') else h e w'
   | (Inr x, w') \<Rightarrow> (Inr x, w'))"

definition finally_do :: "'a io \<Rightarrow> unit io \<Rightarrow> 'a io" where
  "finally_do m c = (\<lambda>w. case m w of (r, w') \<Rightarrow>
     if r = Inl Killed then (r, w')
     else (case c w' of (Inl e, w'') \<Rightarrow> (Inl e, w'') | (Inr _, w'') \<Rightarrow> (r, w'')))"

named_theorems ioE \<open>inversion of runs of the effectful monad\<close>

lemma ret_run [simp]: "ret x w = (Inr x, w)" by (simp add: ret_def)
lemma raise_run [simp]: "raise e w = (Inl e, w)" by (simp add: raise_def)
lemma reading_run [simp]: "reading f w = (f w, w)" by (simp add: reading_def)
lemma lift_run [simp]: "lift r w = (r, w)" by (simp add: lift_def)
lemma guard_run [simp]: "guard c e w = (guardE c e, w)" by (simp add: guard_def)

lemma bind_Inr [ioE]:
  "bind m f w = (Inr y, w'') \<longleftrightarrow> (\<exists>x w'. m w = (Inr x, w') \<and> f x w' = (Inr y, w''))"
  by (auto simp: bind_def split: prod.splits sum.splits)

lemma bind_Inl:
  "bind m f w = (Inl e, w'') \<longleftrightarrow>
     m w = (Inl e, w'') \<or> (\<exists>x w'. m w = (Inr x, w') \<and> f x w' = (Inl e, w''))"
  by (auto simp: bind_def split: prod.splits sum.splits)

lemma bind_step: "m w = (Inr x, w') \<Longrightarrow> bind m f w = f x w'"
  by (simp add: bind_def)

lemma bind_stop: "m w = (Inl e, w') \<Longrightarrow> bind m f w = (Inl e, w')"
  by (simp add: bind_def)

lemma bind_assoc: "bind (bind m f) g = bind m (\<lambda>x. bind (f x) g)"
  by (auto simp: bind_def fun_eq_iff split: prod.splits sum.splits)

text \<open>
  \<open>keeps P m\<close>: whatever happens in \<open>m\<close>, success or exception, the world it
  leaves is related to the one it found.  For a preorder \<open>P\<close> this composes.
\<close>

definition keeps :: "(world \<Rightarrow> world \<Rightarrow> bool) \<Rightarrow> 'a io \<Rightarrow> bool" where
  "keeps P m = (\<forall>w. P w (snd (m w)))"

lemma keepsD: "keeps P m \<Longrightarrow> m w = (r, w') \<Longrightarrow> P w w'"
  unfolding keeps_def by (metis snd_conv)

lemma keeps_pure:
  assumes "reflp P"
  shows "keeps P (ret x)" "keeps P (raise e)" "keeps P (reading f)" "keeps P (lift r)" "keeps P (guard c e)"
  using assms by (simp_all add: keeps_def reflp_def)

lemma keeps_bind:
  assumes "transp P" "keeps P m" "\<And>x. keeps P (f x)"
  shows "keeps P (bind m f)"
proof -
  have "P w (snd (bind m f w))" for w
  proof -
    obtain r w' where m: "m w = (r, w')" by fastforce
    have 1: "P w w'" using assms(2) m by (rule keepsD)
    show ?thesis
    proof (cases r)
      case (Inl e)
      with m 1 show ?thesis by (simp add: bind_def)
    next
      case (Inr x)
      obtain r' w'' where f: "f x w' = (r', w'')" by fastforce
      have "P w' w''" using assms(3) f by (rule keepsD)
      with 1 assms(1) m Inr f show ?thesis by (simp add: bind_def) (blast dest: transpD)
    qed
  qed
  then show ?thesis by (simp add: keeps_def)
qed

lemma keeps_handle:
  assumes "transp P" "keeps P m" "\<And>e. keeps P (h e)"
  shows "keeps P (handle m h)"
proof -
  have "P w (snd (handle m h w))" for w
  proof -
    obtain r w' where m: "m w = (r, w')" by fastforce
    have 1: "P w w'" using assms(2) m by (rule keepsD)
    show ?thesis
    proof (cases r)
      case (Inl e)
      obtain r' w'' where f: "h e w' = (r', w'')" by fastforce
      have "P w' w''" using assms(3) f by (rule keepsD)
      with 1 assms(1) m Inl f show ?thesis by (simp add: handle_def) (blast dest: transpD)
    next
      case (Inr x)
      with m 1 show ?thesis by (simp add: handle_def)
    qed
  qed
  then show ?thesis by (simp add: keeps_def)
qed

section \<open>System calls\<close>

definition next_fault :: "world \<Rightarrow> fault \<times> world" where
  "next_fault w = (case w_faults w of [] \<Rightarrow> (Proceed, w) | f # fs \<Rightarrow> (f, w\<lparr>w_faults := fs\<rparr>))"

text \<open>A writing system call with effect \<open>act\<close>.\<close>

definition syscall :: "(world \<Rightarrow> world) \<Rightarrow> unit io" where
  "syscall act = (\<lambda>w. case next_fault w of (f, w') \<Rightarrow>
     if f = Fail then (Inl OSError, w') else if f = Crash then (Inl Killed, w') else (Inr (), act w'))"

definition put_node :: "path \<Rightarrow> node option \<Rightarrow> world \<Rightarrow> world" where
  "put_node p n w = w\<lparr>w_node := (w_node w)(p := n)\<rparr>"

definition parent :: "path \<Rightarrow> path" where
  "parent p = butlast p"

definition name_of :: "path \<Rightarrow> string" where
  "name_of p = (if p = [] then [] else last p)"

datatype lstat_result = LMissing | LError | LNode node

definition lstat :: "world \<Rightarrow> path \<Rightarrow> lstat_result" where
  "lstat w p = (if w_bad w p then LError
     else if p = [] then LNode (Dir 493)
     else case w_node w p of None \<Rightarrow> LMissing | Some n \<Rightarrow> LNode n)"

text \<open>\<open>Path.exists\<close> and \<open>Path.is_dir\<close> follow a final symbolic link, at most 40 times.\<close>

fun follow :: "nat \<Rightarrow> world \<Rightarrow> path \<Rightarrow> node option" where
  "follow 0 w p = None"
| "follow (Suc n) w p = (case lstat w p of
     LNode (Symlink q) \<Rightarrow> follow n w q
   | LNode x \<Rightarrow> Some x
   | _ \<Rightarrow> None)"

definition path_exists :: "world \<Rightarrow> path \<Rightarrow> bool" where
  "path_exists w p = (follow 41 w p \<noteq> None)"

definition is_dir :: "world \<Rightarrow> path \<Rightarrow> bool" where
  "is_dir w p = (case follow 41 w p of Some (Dir _) \<Rightarrow> True | _ \<Rightarrow> False)"

text \<open>\<open>os.mkdir\<close>, \<open>os.chmod\<close>, \<open>os.replace\<close>, \<open>Path.unlink(missing_ok)\<close>.\<close>

definition os_mkdir :: "path \<Rightarrow> nat \<Rightarrow> unit io" where
  "os_mkdir p mode = (\<lambda>w.
     if w_node w p \<noteq> None \<or> p = [] then (Inl OSError, w)
     else if \<not> is_dir w (parent p) then (Inl OSError, w)
     else syscall (put_node p (Some (Dir mode))) w)"

fun with_mode :: "nat \<Rightarrow> node \<Rightarrow> node" where
  "with_mode m (RegFile b _ l) = RegFile b m l"
| "with_mode m (Dir _) = Dir m"
| "with_mode m (Special _) = Special m"
| "with_mode m (Symlink p) = Symlink p"

definition os_chmod :: "path \<Rightarrow> nat \<Rightarrow> unit io" where
  "os_chmod p mode = (\<lambda>w. if p = [] then (Inr (), w) else case w_node w p of
     None \<Rightarrow> (Inl OSError, w)
   | Some n \<Rightarrow> syscall (put_node p (Some (with_mode mode n))) w)"

definition os_replace :: "path \<Rightarrow> path \<Rightarrow> unit io" where
  "os_replace src dst = (\<lambda>w. case w_node w src of
     None \<Rightarrow> (Inl OSError, w)
   | Some n \<Rightarrow>
       if (case w_node w dst of Some (Dir _) \<Rightarrow> True | _ \<Rightarrow> False) then (Inl OSError, w)
       else syscall (\<lambda>w. put_node src None (put_node dst (Some n) w)) w)"

definition unlink_if_present :: "path \<Rightarrow> unit io" where
  "unlink_if_present p = (\<lambda>w. (Inr (), put_node p None w))"

text \<open>One \<open>os.write\<close> on a descriptor of the file at \<open>p\<close>: the number of bytes stored.\<close>

definition append_bytes :: "path \<Rightarrow> string \<Rightarrow> world \<Rightarrow> world" where
  "append_bytes p data w = (case w_node w p of
     Some (RegFile b m l) \<Rightarrow> put_node p (Some (RegFile (b @ data) m l)) w
   | _ \<Rightarrow> w)"

definition os_write :: "path \<Rightarrow> string \<Rightarrow> nat io" where
  "os_write p data = (\<lambda>w. case next_fault w of
     (Fail, w') \<Rightarrow> (Inl OSError, w')
   | (Crash, w') \<Rightarrow> (Inl Killed, w')
   | (Short n, w') \<Rightarrow> (Inr (min n (length data)), append_bytes p (take n data) w')
   | (Proceed, w') \<Rightarrow> (Inr (length data), append_bytes p data w'))"

text \<open>\<open>os.open\<close> with \<open>O_CREAT | O_NOFOLLOW\<close>: creates an empty file of mode 600.\<close>

definition os_open_create :: "path \<Rightarrow> unit io" where
  "os_open_create p = (\<lambda>w. case w_node w p of
     None \<Rightarrow> if p \<noteq> [] \<and> is_dir w (parent p) then syscall (put_node p (Some (RegFile [] 384 1))) w else (Inl OSError, w)
   | Some (RegFile b m l) \<Rightarrow> syscall id w
   | Some (Special m) \<Rightarrow> syscall id w
   | Some _ \<Rightarrow> (Inl OSError, w))"

definition os_fsync :: "unit io" where
  "os_fsync = syscall id"

text \<open>
  The sources of time and of random names.  \<open>mkstemp\<close> retries until a name is
  free; \<open>w_random\<close> supplies the suffix of its last attempt, and a clash is the
  \<open>FileExistsError\<close> it ends with.
\<close>

definition now_text :: "string io" where
  "now_text = (\<lambda>w. (Inr (w_clock w (w_tick w)), w\<lparr>w_tick := w_tick w + 1\<rparr>))"

definition random_hex :: "string io" where
  "random_hex = (\<lambda>w. (Inr (w_random w (w_tick w)), w\<lparr>w_tick := w_tick w + 1\<rparr>))"

definition os_mkstemp :: "string \<Rightarrow> path \<Rightarrow> path io" where
  "os_mkstemp start dir = bind random_hex (\<lambda>suffix w.
     let p = dir @ [start @ suffix] in
     if w_node w p \<noteq> None \<or> \<not> is_dir w dir then (Inl OSError, w)
     else bind (syscall (put_node p (Some (RegFile [] 384 1)))) (\<lambda>_. ret p) w)"

lemma w_node_put [simp]: "w_node (put_node p n w) = (w_node w)(p := n)"
  by (simp add: put_node_def)

lemma next_fault_node: "next_fault w = (f, w') \<Longrightarrow> w_node w' = w_node w"
  by (auto simp: next_fault_def split: list.splits)

lemma snd_next_fault_node [simp]: "w_node (snd (next_fault w)) = w_node w"
  by (auto simp: next_fault_def split: list.splits)

lemma is_dir_lexical: "w_node w p = Some n \<Longrightarrow> \<not> w_bad w p \<Longrightarrow> p \<noteq> [] \<Longrightarrow> (\<forall>q. n \<noteq> Symlink q) \<Longrightarrow> path_exists w p"
  by (cases n) (auto simp: path_exists_def eval_nat_numeral lstat_def)

end
