(* ===== verification/StorePaths.thy ===== *)
theory StorePaths
  imports World
begin

text \<open>
  \<open>.codex/hooks/shared/implementation_store/paths.py\<close>: the one write boundary of
  the store.  Plan identifiers become path components, the store root is fixed
  below the primary checkout, and no component of a store path may be a
  symbolic link.  The lemmas show that every resolved path lies inside the
  boundary and crosses no link, and what \<open>ensure_directory_chain\<close> creates.
\<close>

definition STORE_RELATIVE :: path where
  "STORE_RELATIVE = [''.local-notes'', ''ralph'', ''implementation'']"

definition MAX_PLAN_ID_LENGTH :: nat where "MAX_PLAN_ID_LENGTH = 180"
definition MAX_PLAN_DEPTH :: nat where "MAX_PLAN_DEPTH = 8"

record store_paths =
  primary_root :: path
  root :: path
  manifest :: path
  manifest_lock :: path
  unplanned_events :: path
  plans_root :: path
  context_ledger :: path
  context_ledger_lock :: path

record plan_paths =
  pp_plan_id :: string
  pp_root :: path
  pp_state :: path
  pp_events :: path
  pp_state_lock :: path

section \<open>Symbolic links\<close>

text \<open>
  \<open>_reject_symlink_components\<close> walks the components from the root down.  The
  walk has the prefix already seen and the components still to come.
\<close>

fun reject_walk :: "world \<Rightarrow> bool \<Rightarrow> path \<Rightarrow> path \<Rightarrow> unit res" where
  "reject_walk w allow_missing current [] = Inr ()"
| "reject_walk w allow_missing current (part # parts) =
     (let current' = current @ [part] in
      case lstat w current' of
        LMissing \<Rightarrow> if allow_missing then reject_walk w allow_missing current' parts else Inl StorePathError
      | LError \<Rightarrow> Inl StorePathError
      | LNode (Symlink _) \<Rightarrow> Inl StorePathError
      | LNode _ \<Rightarrow> reject_walk w allow_missing current' parts)"

definition reject_symlink_components :: "world \<Rightarrow> bool \<Rightarrow> path \<Rightarrow> unit res" where
  "reject_symlink_components w allow_missing p = reject_walk w allow_missing [] p"

definition existing_directory :: "world \<Rightarrow> path \<Rightarrow> path res" where
  "existing_directory w p =
     bindE (guardE (\<not> path_exists w p \<or> \<not> is_dir w p) StorePathError) (\<lambda>_.
     bindE (reject_symlink_components w False p) (\<lambda>_. Inr p))"

definition relative_to :: "path \<Rightarrow> path \<Rightarrow> bool" where
  "relative_to p base = (take (length base) p = base)"

definition validate_store_boundary :: "world \<Rightarrow> path \<Rightarrow> path \<Rightarrow> unit res" where
  "validate_store_boundary w p primary =
     bindE (guardE (\<not> relative_to p primary) StorePathError) (\<lambda>_.
     bindE (reject_symlink_components w True p) (\<lambda>_.
     guardE (p \<noteq> primary \<and> \<not> relative_to p (primary @ STORE_RELATIVE)) StorePathError))"

definition assert_inside_store :: "world \<Rightarrow> path \<Rightarrow> path \<Rightarrow> unit res" where
  "assert_inside_store w p store_root =
     bindE (guardE (\<not> relative_to p store_root) StorePathError) (\<lambda>_.
     validate_store_boundary w p (parent (parent (parent store_root))))"

section \<open>Plan identifiers\<close>

definition validate_plan_id :: "string \<Rightarrow> path res" where
  "validate_plan_id plan_id =
     (if plan_id = [] \<or> length plan_id > MAX_PLAN_ID_LENGTH then Inl StorePathError
      else if CHR 0x00 \<in> set plan_id \<or> bslash \<in> set plan_id \<or> starts_with plan_id ''/'' then Inl StorePathError
      else let parts = split_on (CHR ''/'') plan_id in
        if length parts > MAX_PLAN_DEPTH \<or> list_ex (\<lambda>p. p = [] \<or> p = ''.'' \<or> p = ''..'') parts
          then Inl StorePathError
        else if list_ex (\<lambda>p. starts_with p ''~'' \<or> list_ex (\<lambda>c. ordc c < (32::nat)) p
               \<or> p = ''manifest.json'' \<or> p = ''manifest.lock'' \<or> p = ''unplanned-events.jsonl'') parts
          then Inl StorePathError
        else Inr parts)"

definition for_plan :: "world \<Rightarrow> store_paths \<Rightarrow> string \<Rightarrow> plan_paths res" where
  "for_plan w paths plan_id =
     bindE (validate_plan_id plan_id) (\<lambda>components.
     let plan_root = plans_root paths @ components in
     bindE (assert_inside_store w plan_root (root paths)) (\<lambda>_.
     Inr \<lparr>pp_plan_id = join ''/'' components, pp_root = plan_root, pp_state = plan_root @ [''state.json''],
          pp_events = plan_root @ [''events.jsonl''], pp_state_lock = plan_root @ [''state.lock'']\<rparr>))"

section \<open>Resolution\<close>

definition layout :: "path \<Rightarrow> store_paths" where
  "layout primary = (let r = primary @ STORE_RELATIVE in
     \<lparr>primary_root = primary, root = r, manifest = r @ [''manifest.json''],
      manifest_lock = r @ [''manifest.lock''], unplanned_events = r @ [''unplanned-events.jsonl''],
      plans_root = r @ [''plans''], context_ledger = r @ [''context-emissions.jsonl''],
      context_ledger_lock = r @ [''context-emissions.lock'']\<rparr>)"

definition resolve_store_paths_local :: "world \<Rightarrow> path \<Rightarrow> store_paths res" where
  "resolve_store_paths_local w primary0 =
     bindE (existing_directory w primary0) (\<lambda>primary.
     bindE (reject_symlink_components w False primary) (\<lambda>_.
     bindE (validate_store_boundary w (primary @ STORE_RELATIVE) primary) (\<lambda>_.
     Inr (layout primary))))"

text \<open>
  \<open>Path(s)\<close> splits at the slashes and drops empty and \<open>.\<close> components; a relative
  path is taken from a given directory.  \<open>run_git\<close> is the \<open>git\<close> program, an
  unreadable repository or a non-zero exit gives \<open>None\<close>; its output is stripped.
\<close>

definition path_parts :: "string \<Rightarrow> path" where
  "path_parts s = filter (\<lambda>p. p \<noteq> [] \<and> p \<noteq> ''.'') (split_on (CHR ''/'') s)"

definition path_from :: "path \<Rightarrow> string \<Rightarrow> path" where
  "path_from base s = (if starts_with s ''/'' then path_parts s else base @ path_parts s)"

definition run_git :: "world \<Rightarrow> path \<Rightarrow> string list \<Rightarrow> string res" where
  "run_git w cwd args = (case w_git w cwd args of None \<Rightarrow> Inl StorePathError | Some out \<Rightarrow> Inr (strip out))"

definition git_identity :: "world \<Rightarrow> path \<Rightarrow> (path \<times> path \<times> path) res" where
  "git_identity w r =
     bindE (run_git w r [''rev-parse'', ''--show-toplevel'']) (\<lambda>top_raw.
     bindE (run_git w r [''rev-parse'', ''--git-dir'']) (\<lambda>git_dir_raw.
     bindE (run_git w r [''rev-parse'', ''--git-common-dir'']) (\<lambda>common_raw.
     let top_dir = path_from (w_cwd w) top_raw; git_dir = path_from r git_dir_raw; common = path_from r common_raw in
     bindE (guardE (\<not> path_exists w top_dir \<or> \<not> path_exists w git_dir \<or> \<not> path_exists w common) StorePathError) (\<lambda>_.
     Inr (top_dir, git_dir, common)))))"

text \<open>\<open>str.splitlines()\<close>, for the separators below code point 256.\<close>

definition line_break :: "char \<Rightarrow> bool" where
  "line_break c = (let n = ordc c :: nat in (10 \<le> n \<and> n \<le> 13) \<or> (28 \<le> n \<and> n \<le> 30) \<or> n = 133)"

fun str_lines :: "string \<Rightarrow> string \<Rightarrow> string list" where
  "str_lines acc [] = (if acc = [] then [] else [rev acc])"
| "str_lines acc [c] = (if line_break c then [rev acc] else [rev (c # acc)])"
| "str_lines acc (c # d # s) =
     (if c = CHR 0x0D \<and> d = CHR 0x0A then rev acc # str_lines [] s
      else if line_break c then rev acc # str_lines [] (d # s)
      else str_lines (c # acc) (d # s))"

text \<open>The loop of \<open>_worktree_candidates\<close> over the lines, with its variables \<open>current\<close> and \<open>paths\<close>.\<close>

fun worktree_loop :: "world \<Rightarrow> path \<Rightarrow> path option \<Rightarrow> path list \<Rightarrow> string list \<Rightarrow> path list" where
  "worktree_loop w common current paths [] = paths"
| "worktree_loop w common current paths (line # lines) =
     (if starts_with line ''worktree '' then
        worktree_loop w common (Some (path_from (w_cwd w) (drop 9 line))) paths lines
      else if line = [] then
        (case current of
           None \<Rightarrow> worktree_loop w common None paths lines
         | Some c \<Rightarrow>
             (case git_identity w c of
                Inl e \<Rightarrow> worktree_loop w common None paths lines
              | Inr (top_dir, git_dir, candidate_common) \<Rightarrow>
                  if git_dir = common \<and> candidate_common = common
                  then worktree_loop w common None (paths @ [c]) lines
                  else worktree_loop w common None paths lines))
      else worktree_loop w common current paths lines)"

definition worktree_candidates :: "world \<Rightarrow> path \<Rightarrow> path \<Rightarrow> (path list) res" where
  "worktree_candidates w active_top common =
     bindE (run_git w active_top [''worktree'', ''list'', ''--porcelain'']) (\<lambda>output.
     Inr (dedup (worktree_loop w common None [] (str_lines [] output @ [[]]))))"

definition resolve_primary_checkout_root :: "world \<Rightarrow> path option \<Rightarrow> path option \<Rightarrow> path res" where
  "resolve_primary_checkout_root w active_root primary =
     bindE (existing_directory w
       (case active_root of Some a \<Rightarrow> a | None \<Rightarrow> (case primary of Some p \<Rightarrow> p | None \<Rightarrow> w_cwd w))) (\<lambda>active.
     bindE (git_identity w active) (\<lambda>(active_top, active_git_dir, common_dir).
     bindE (worktree_candidates w active_top common_dir) (\<lambda>candidates.
     case primary of
       Some p \<Rightarrow>
         bindE (existing_directory w p) (\<lambda>explicit.
         bindE (reject_symlink_components w False explicit) (\<lambda>_.
         bindE (git_identity w explicit) (\<lambda>(explicit_top, explicit_git_dir, explicit_common).
         bindE (guardE (explicit_common \<noteq> common_dir) StorePathError) (\<lambda>_.
         bindE (guardE (explicit_git_dir \<noteq> explicit_common) StorePathError) (\<lambda>_.
         bindE (guardE (explicit_top \<noteq> explicit) StorePathError) (\<lambda>_.
         bindE (guardE (candidates \<noteq> [] \<and> explicit \<notin> set candidates) StorePathError) (\<lambda>_.
         Inr explicit)))))))
     | None \<Rightarrow>
         (case candidates of
            [c] \<Rightarrow> Inr c
          | _ # _ \<Rightarrow> Inl StorePathError
          | [] \<Rightarrow> if active_git_dir = common_dir then Inr active_top else Inl StorePathError))))"

definition resolve_store_paths :: "world \<Rightarrow> path option \<Rightarrow> path option \<Rightarrow> store_paths res" where
  "resolve_store_paths w active_root primary0 =
     bindE (resolve_primary_checkout_root w active_root primary0) (\<lambda>primary.
     bindE (reject_symlink_components w False primary) (\<lambda>_.
     bindE (validate_store_boundary w (primary @ STORE_RELATIVE) primary) (\<lambda>_.
     Inr (layout primary))))"

section \<open>Directories\<close>

definition directory_stat :: "world \<Rightarrow> path \<Rightarrow> nat res" where
  "directory_stat w p = (case lstat w p of
     LMissing \<Rightarrow> Inl StorePathError
   | LError \<Rightarrow> Inl OSError
   | LNode (Dir m) \<Rightarrow> Inr m
   | LNode _ \<Rightarrow> Inl StorePathError)"

definition regular_file_stat :: "world \<Rightarrow> path \<Rightarrow> (string \<times> nat) res" where
  "regular_file_stat w p = (case lstat w p of
     LMissing \<Rightarrow> Inl StorePathError
   | LError \<Rightarrow> Inl OSError
   | LNode (RegFile b m nlink) \<Rightarrow> if nlink \<noteq> 1 then Inl StorePathError else Inr (b, m)
   | LNode _ \<Rightarrow> Inl StorePathError)"

text \<open>
  The loop that collects the missing directories, from the target upwards; it
  stops below the root, whose parent is itself.
\<close>

function missing_dirs :: "world \<Rightarrow> path \<Rightarrow> path list \<times> path" where
  "missing_dirs w current =
     (if path_exists w current then ([], current)
      else if parent (parent current) = parent current then ([current], parent current)
      else case missing_dirs w (parent current) of (ms, c) \<Rightarrow> (current # ms, c))"
  by pat_completeness auto
termination
  by (relation "measure (\<lambda>(w, p). length p)") (auto simp: parent_def, case_tac current, simp_all)

fun make_dirs :: "nat \<Rightarrow> path list \<Rightarrow> unit io" where
  "make_dirs mode [] = ret ()"
| "make_dirs mode (d # ds) =
     bind (os_mkdir d mode) (\<lambda>_.
     bind (reading (\<lambda>w. reject_symlink_components w False d)) (\<lambda>_.
     bind (os_chmod d mode) (\<lambda>_. make_dirs mode ds)))"

definition ensure_directory_chain :: "nat \<Rightarrow> path \<Rightarrow> unit io" where
  "ensure_directory_chain mode p =
     bind (reading (\<lambda>w. reject_symlink_components w True p)) (\<lambda>_.
     bind (reading (\<lambda>w. reject_symlink_components w True (parent p))) (\<lambda>_.
     bind (reading (\<lambda>w. Inr (missing_dirs w p))) (\<lambda>(missing, current).
     bind (reading (\<lambda>w. reject_symlink_components w False current)) (\<lambda>_.
     bind (reading (\<lambda>w. Inr (path_exists w current))) (\<lambda>there.
     bind (if there then
             bind (reading (\<lambda>w. directory_stat w current)) (\<lambda>_.
             if current = p then os_chmod current mode else ret ())
           else ret ()) (\<lambda>_.
     make_dirs mode (rev missing)))))))"

definition ensure_store_layout :: "store_paths \<Rightarrow> unit io" where
  "ensure_store_layout paths =
     bind (reading (\<lambda>w. validate_store_boundary w (root paths) (primary_root paths))) (\<lambda>_.
     bind (reading (\<lambda>w. Inr (path_exists w (root paths)))) (\<lambda>there.
     bind (if there then bind (reading (\<lambda>w. directory_stat w (root paths))) (\<lambda>_. os_chmod (root paths) 448)
           else ret ()) (\<lambda>_.
     bind (ensure_directory_chain 448 (root paths)) (\<lambda>_.
     bind (reading (\<lambda>w. Inr (path_exists w (plans_root paths)))) (\<lambda>there.
     bind (if there then bind (reading (\<lambda>w. directory_stat w (plans_root paths))) (\<lambda>_. os_chmod (plans_root paths) 448)
           else ret ()) (\<lambda>_.
     ensure_directory_chain 448 (plans_root paths)))))))"

section \<open>What the link check proves\<close>

text \<open>\<open>no_links w p\<close>: no prefix of \<open>p\<close>, itself included, is a link or unreadable.\<close>

definition plain_at :: "world \<Rightarrow> path \<Rightarrow> bool" where
  "plain_at w q = (lstat w q \<noteq> LError \<and> (\<forall>t. lstat w q \<noteq> LNode (Symlink t)))"

definition no_links :: "world \<Rightarrow> path \<Rightarrow> bool" where
  "no_links w p = (\<forall>q. prefix q p \<and> q \<noteq> [] \<longrightarrow> plain_at w q)"

definition all_present :: "world \<Rightarrow> path \<Rightarrow> bool" where
  "all_present w p = (\<forall>q. prefix q p \<and> q \<noteq> [] \<longrightarrow> w_node w q \<noteq> None)"

lemma reject_walk_step:
  "reject_walk w m cur (part # parts) = Inr u \<longleftrightarrow>
     plain_at w (cur @ [part]) \<and> (m \<or> w_node w (cur @ [part]) \<noteq> None)
     \<and> reject_walk w m (cur @ [part]) parts = Inr u"
  by (cases "w_node w (cur @ [part])")
    (auto simp: Let_def plain_at_def lstat_def split: node.splits)

lemma reject_walk_iff:
  "reject_walk w m cur parts = Inr u \<longleftrightarrow>
     (\<forall>n. 0 < n \<and> n \<le> length parts \<longrightarrow>
        plain_at w (cur @ take n parts) \<and> (m \<or> w_node w (cur @ take n parts) \<noteq> None))"
proof (induction parts arbitrary: cur)
  case Nil
  then show ?case by simp
next
  case (Cons part parts)
  let ?Q = "\<lambda>q. plain_at w q \<and> (m \<or> w_node w q \<noteq> None)"
  have "(\<forall>n. 0 < n \<and> n \<le> Suc (length parts) \<longrightarrow> ?Q (cur @ take n (part # parts))) \<longleftrightarrow>
     ?Q (cur @ [part]) \<and> (\<forall>n. 0 < n \<and> n \<le> length parts \<longrightarrow> ?Q ((cur @ [part]) @ take n parts))"
    (is "?L = ?R")
  proof
    assume L: ?L
    have "?Q (cur @ [part])" using L [rule_format, of 1] by auto
    moreover have "?Q ((cur @ [part]) @ take n parts)" if "0 < n \<and> n \<le> length parts" for n
      using L [rule_format, of "Suc n"] that by auto
    ultimately show ?R by blast
  next
    assume R: ?R
    show ?L
    proof (intro allI impI)
      fix n assume n: "0 < n \<and> n \<le> Suc (length parts)"
      show "?Q (cur @ take n (part # parts))"
      proof (cases "n = 1")
        case True
        with R show ?thesis by simp
      next
        case False
        with n obtain k where "n = Suc k" "0 < k" "k \<le> length parts" by (cases n) auto
        with R [THEN conjunct2, rule_format, of k] show ?thesis by simp
      qed
    qed
  qed
  then show ?case
    unfolding reject_walk_step Cons.IH by (simp only: list.size add_0_right add_Suc_right) blast
qed

lemma prefix_take: "(\<forall>q. prefix q p \<and> q \<noteq> [] \<longrightarrow> P q) \<longleftrightarrow> (\<forall>n. 0 < n \<and> n \<le> length p \<longrightarrow> P (take n p))"
proof
  assume L: "\<forall>q. prefix q p \<and> q \<noteq> [] \<longrightarrow> P q"
  show "\<forall>n. 0 < n \<and> n \<le> length p \<longrightarrow> P (take n p)"
  proof (intro allI impI)
    fix n assume "0 < n \<and> n \<le> length p"
    then have "take n p \<noteq> []" by auto
    with L take_is_prefix [of n p] show "P (take n p)" by blast
  qed
next
  assume R: "\<forall>n. 0 < n \<and> n \<le> length p \<longrightarrow> P (take n p)"
  show "\<forall>q. prefix q p \<and> q \<noteq> [] \<longrightarrow> P q"
  proof (intro allI impI)
    fix q assume q: "prefix q p \<and> q \<noteq> []"
    then have "q = take (length q) p" by (auto simp: prefix_def)
    moreover have "0 < length q" "length q \<le> length p" using q by (auto simp: prefix_length_le)
    ultimately show "P q" using R by metis
  qed
qed

lemma reject_missing_ok: "reject_symlink_components w True p = Inr u \<longleftrightarrow> no_links w p"
  by (simp add: reject_symlink_components_def reject_walk_iff no_links_def prefix_take)

lemma reject_present: "reject_symlink_components w False p = Inr u \<longleftrightarrow> no_links w p \<and> all_present w p"
  by (auto simp: reject_symlink_components_def reject_walk_iff no_links_def all_present_def prefix_take)

lemma no_links_prefix: "no_links w p \<Longrightarrow> prefix q p \<Longrightarrow> no_links w q"
  by (auto simp: no_links_def dest: prefix_order.trans)

lemma no_links_lstat: "no_links w p \<Longrightarrow> p \<noteq> [] \<Longrightarrow> plain_at w p"
  by (simp add: no_links_def)

lemma plain_follow:
  assumes "plain_at w p"
  shows "follow (Suc n) w p = (if p = [] then Some (Dir 493) else w_node w p)"
  using assms by (cases "w_node w p") (auto simp: plain_at_def lstat_def split: node.splits if_splits)

lemma plain_path_exists: "no_links w p \<Longrightarrow> p \<noteq> [] \<Longrightarrow> path_exists w p \<longleftrightarrow> w_node w p \<noteq> None"
  using plain_follow [of w p 40] by (simp add: path_exists_def no_links_lstat)

lemma relative_to_prefix: "relative_to p b \<longleftrightarrow> prefix b p"
  by (metis append_eq_conv_conj append_take_drop_id prefix_def relative_to_def)

lemma boundary_ok:
  "validate_store_boundary w p primary = Inr u \<longleftrightarrow>
     prefix primary p \<and> no_links w p \<and> (p = primary \<or> prefix (primary @ STORE_RELATIVE) p)"
  by (auto simp: validate_store_boundary_def resE relative_to_prefix reject_missing_ok)

section \<open>Resolved paths stay inside the boundary\<close>

definition in_boundary :: "world \<Rightarrow> path \<Rightarrow> path \<Rightarrow> bool" where
  "in_boundary w primary p = (prefix (primary @ STORE_RELATIVE) p \<and> no_links w p)"

lemma layout_simps [simp]:
  "primary_root (layout r) = r" "root (layout r) = r @ STORE_RELATIVE"
  "manifest (layout r) = r @ STORE_RELATIVE @ [''manifest.json'']"
  "manifest_lock (layout r) = r @ STORE_RELATIVE @ [''manifest.lock'']"
  "unplanned_events (layout r) = r @ STORE_RELATIVE @ [''unplanned-events.jsonl'']"
  "plans_root (layout r) = r @ STORE_RELATIVE @ [''plans'']"
  "context_ledger (layout r) = r @ STORE_RELATIVE @ [''context-emissions.jsonl'']"
  "context_ledger_lock (layout r) = r @ STORE_RELATIVE @ [''context-emissions.lock'']"
  by (simp_all add: layout_def)

lemma resolve_local_boundary:
  "resolve_store_paths_local w p = Inr paths \<Longrightarrow>
     paths = layout p \<and> all_present w p \<and> no_links w (root paths)"
  by (auto simp: resolve_store_paths_local_def existing_directory_def resE reject_present boundary_ok)

lemma resolve_boundary:
  "resolve_store_paths w active p = Inr paths \<Longrightarrow>
     paths = layout (primary_root paths) \<and> all_present w (primary_root paths) \<and> no_links w (root paths)"
  by (auto simp: resolve_store_paths_def resE reject_present boundary_ok)

lemma validate_plan_id_ok:
  "validate_plan_id s = Inr parts \<Longrightarrow>
     parts = split_on (CHR ''/'') s \<and> s \<noteq> [] \<and> length s \<le> MAX_PLAN_ID_LENGTH \<and> length parts \<le> MAX_PLAN_DEPTH
     \<and> (\<forall>p\<in>set parts. p \<noteq> [] \<and> p \<noteq> ''.'' \<and> p \<noteq> ''..'' \<and> CHR ''/'' \<notin> set p)"
  by (auto simp: validate_plan_id_def Let_def list_ex_iff split: if_splits dest: split_on_no_sep)

lemma for_plan_ok:
  assumes "for_plan w (layout r) pid = Inr pp"
  shows "pp_plan_id pp = pid" "pp_root pp = r @ STORE_RELATIVE @ [''plans''] @ split_on (CHR ''/'') pid"
    "pp_state pp = pp_root pp @ [''state.json'']" "pp_events pp = pp_root pp @ [''events.jsonl'']"
    "pp_state_lock pp = pp_root pp @ [''state.lock'']"
    "in_boundary w r (pp_root pp)"
proof -
  obtain parts where v: "validate_plan_id pid = Inr parts"
    and a: "assert_inside_store w (plans_root (layout r) @ parts) (root (layout r)) = Inr ()"
    and pp: "pp = \<lparr>pp_plan_id = join ''/'' parts, pp_root = plans_root (layout r) @ parts,
        pp_state = plans_root (layout r) @ parts @ [''state.json''],
        pp_events = plans_root (layout r) @ parts @ [''events.jsonl''],
        pp_state_lock = plans_root (layout r) @ parts @ [''state.lock'']\<rparr>"
    using assms by (auto simp: for_plan_def resE Let_def simp del: layout_simps)
  have parts: "parts = split_on (CHR ''/'') pid" using validate_plan_id_ok [OF v] by simp
  show "pp_plan_id pp = pid" by (simp add: pp parts join_split_on)
  show "pp_root pp = r @ STORE_RELATIVE @ [''plans''] @ split_on (CHR ''/'') pid"
    "pp_state pp = pp_root pp @ [''state.json'']" "pp_events pp = pp_root pp @ [''events.jsonl'']"
    "pp_state_lock pp = pp_root pp @ [''state.lock'']"
    by (simp_all add: pp parts)
  have up: "parent (parent (parent (r @ STORE_RELATIVE))) = r"
    by (simp add: parent_def STORE_RELATIVE_def butlast_append)
  show "in_boundary w r (pp_root pp)"
    using a by (auto simp: assert_inside_store_def resE boundary_ok in_boundary_def pp up relative_to_prefix)
qed

lemma for_plan_inj:
  "for_plan w (layout r) a = Inr pa \<Longrightarrow> for_plan w (layout r) b = Inr pb \<Longrightarrow> pp_root pa = pp_root pb \<Longrightarrow> a = b"
proof -
  assume a: "for_plan w (layout r) a = Inr pa" and b: "for_plan w (layout r) b = Inr pb"
    and eq: "pp_root pa = pp_root pb"
  have "split_on (CHR ''/'') a = split_on (CHR ''/'') b"
    using eq unfolding for_plan_ok(2) [OF a] for_plan_ok(2) [OF b] by simp
  then show "a = b" using join_split_on [of "CHR ''/''" a] join_split_on [of "CHR ''/''" b] by (metis)
qed

section \<open>Effects of the directory operations\<close>

text \<open>\<open>only_prefixes p\<close>: nodes change at most at prefixes of \<open>p\<close>, and only directories do.\<close>

definition only_dirs :: "path \<Rightarrow> world \<Rightarrow> world \<Rightarrow> bool" where
  "only_dirs p w w' = (\<forall>q. w_node w' q = w_node w q \<or>
     (prefix q p \<and> (\<exists>m. w_node w' q = Some (Dir m)) \<and> (w_node w q = None \<or> (\<exists>m. w_node w q = Some (Dir m)))))"

lemma only_dirs_refl: "reflp (only_dirs p)"
  by (simp add: reflp_def only_dirs_def)

lemma only_dirs_trans: "transp (only_dirs p)"
proof (rule transpI)
  fix a b c assume 1: "only_dirs p a b" and 2: "only_dirs p b c"
  show "only_dirs p a c"
    unfolding only_dirs_def
  proof
    fix q
    from 1 2 show "w_node c q = w_node a q \<or> (prefix q p \<and> (\<exists>m. w_node c q = Some (Dir m))
        \<and> (w_node a q = None \<or> (\<exists>m. w_node a q = Some (Dir m))))"
      unfolding only_dirs_def by (elim allE [of _ q]) auto
  qed
qed

lemma only_dirs_same: "w_node w' = w_node w \<Longrightarrow> only_dirs p w w'"
  by (simp add: only_dirs_def)

lemma keeps_syscall:
  assumes "\<And>w w'. w_node w' = w_node w \<Longrightarrow> P w w'" "\<And>w f w'. next_fault w = (f, w') \<Longrightarrow> P w (act w')"
  shows "keeps P (syscall act)"
  using assms unfolding keeps_def syscall_def
  by (auto split: prod.splits dest: next_fault_node)

lemma next_fault_world:
  "next_fault w = (f, w') \<Longrightarrow> w_node w' = w_node w \<and> w_bad w' = w_bad w \<and> w_noread w' = w_noread w"
  by (auto simp: next_fault_def split: list.splits)

lemma os_mkdir_result:
  "os_mkdir d m w = (r, w') \<Longrightarrow> w_bad w' = w_bad w \<and>
     (if r = Inr () then w_node w d = None \<and> w_node w' = (w_node w)(d := Some (Dir m)) else w_node w' = w_node w)"
  by (auto simp: os_mkdir_def syscall_def put_node_def split: if_splits prod.splits dest: next_fault_world)

lemma os_chmod_result:
  "os_chmod d m w = (r, w') \<Longrightarrow> w_bad w' = w_bad w \<and>
     (w_node w' = w_node w \<and> (r = Inr () \<longrightarrow> d = [])
      \<or> r = Inr () \<and> (\<exists>n. w_node w d = Some n \<and> w_node w' = (w_node w)(d := Some (with_mode m n))))"
  by (auto simp: os_chmod_def syscall_def put_node_def split: if_splits prod.splits option.splits
      dest: next_fault_world)

lemma make_dirs_effect:
  "\<forall>d\<in>set ds. prefix d p \<Longrightarrow> keeps (only_dirs p) (make_dirs m ds)"
proof (induction ds)
  case Nil
  show ?case unfolding make_dirs.simps by (rule keeps_pure) (rule only_dirs_refl)
next
  case (Cons d ds)
  have one: "keeps (only_dirs p) (bind (os_mkdir d m) (\<lambda>_.
     bind (reading (\<lambda>w. reject_symlink_components w False d)) (\<lambda>_. os_chmod d m)))"
  proof (unfold keeps_def, rule allI)
    fix w
    obtain r w1 where mk: "os_mkdir d m w = (r, w1)" by fastforce
    note 1 = os_mkdir_result [OF mk]
    have d: "prefix d p" using Cons.prems by simp
    show "only_dirs p w (snd (bind (os_mkdir d m) (\<lambda>_.
       bind (reading (\<lambda>w. reject_symlink_components w False d)) (\<lambda>_. os_chmod d m)) w))"
    proof (cases r)
      case (Inl e)
      with mk 1 show ?thesis by (simp add: bind_def only_dirs_same)
    next
      case (Inr u)
      then have new: "w_node w d = None" "w_node w1 = (w_node w)(d := Some (Dir m))" using 1 by auto
      then have step1: "only_dirs p w w1" using d by (simp add: only_dirs_def)
      obtain r2 w2 where ch: "os_chmod d m w1 = (r2, w2)" by fastforce
      from os_chmod_result [OF ch] new have "w_node w2 = w_node w1" by auto
      then have step2: "only_dirs p w w2" using step1 by (simp add: only_dirs_def)
      show ?thesis using mk Inr ch step1 step2
        by (cases "reject_symlink_components w1 False d") (simp_all add: bind_def)
    qed
  qed
  have "make_dirs m (d # ds) = bind (bind (os_mkdir d m) (\<lambda>_.
     bind (reading (\<lambda>w. reject_symlink_components w False d)) (\<lambda>_. os_chmod d m))) (\<lambda>_. make_dirs m ds)"
    by (simp add: bind_assoc)
  then show ?case using one Cons by (simp only:) (rule keeps_bind [OF only_dirs_trans], simp_all)
qed

lemma make_dirs_append: "make_dirs m (ds @ es) = bind (make_dirs m ds) (\<lambda>_. make_dirs m es)"
  by (induction ds) (simp_all add: bind_assoc, simp add: bind_def ret_def fun_eq_iff)

lemma make_dirs_last:
  assumes "make_dirs m (ds @ [d]) w = (Inr (), w')"
  shows "w_node w' d = Some (Dir m) \<and> no_links w' d \<and> all_present w' d"
proof -
  obtain w1 w2 where mk: "os_mkdir d m w1 = (Inr (), w2)"
    and rej: "reject_symlink_components w2 False d = Inr ()" and ch: "os_chmod d m w2 = (Inr (), w')"
    using assms by (auto simp: make_dirs_append ioE)
  have d: "w_node w2 d = Some (Dir m)" using os_mkdir_result [OF mk] by simp
  have same: "w_node w' = w_node w2" "w_bad w' = w_bad w2" using os_chmod_result [OF ch] d by auto
  have "plain_at w' q = plain_at w2 q" for q using same by (simp add: plain_at_def lstat_def)
  with same d rej show ?thesis by (simp add: reject_present no_links_def all_present_def)
qed

declare missing_dirs.simps [simp del]

lemma missing_dirs_prefixes:
  "missing_dirs w p = (ms, c) \<Longrightarrow> (\<forall>d\<in>set ms. prefix d p) \<and> prefix c p \<and> (ms = [] \<longrightarrow> c = p) \<and> (ms \<noteq> [] \<longrightarrow> hd ms = p)"
proof (induction w p arbitrary: ms c rule: missing_dirs.induct)
  case (1 w p)
  have par: "prefix (parent p) p" by (cases p rule: rev_cases) (simp_all add: parent_def)
  consider "path_exists w p" | "\<not> path_exists w p" "parent (parent p) = parent p"
    | "\<not> path_exists w p" "parent (parent p) \<noteq> parent p" by blast
  then show ?case
  proof cases
    case 3
    obtain ms' c' where m: "missing_dirs w (parent p) = (ms', c')" by fastforce
    from "1.IH" [OF 3 m] "1.prems" 3 m par show ?thesis
      by (auto simp: missing_dirs.simps [of w p] dest: prefix_order.trans)
  qed (use "1.prems" par in \<open>auto simp: missing_dirs.simps [of w p]\<close>)
qed

lemma checked_chmod_effect:
  assumes "prefix c p"
  shows "keeps (only_dirs p) (bind (reading (\<lambda>w. directory_stat w c)) (\<lambda>_. os_chmod c m))"
proof (unfold keeps_def, rule allI)
  fix w
  show "only_dirs p w (snd (bind (reading (\<lambda>w. directory_stat w c)) (\<lambda>_. os_chmod c m) w))"
  proof (cases "directory_stat w c")
    case (Inl e)
    then show ?thesis by (simp add: bind_def only_dirs_same)
  next
    case (Inr k)
    obtain r w' where ch: "os_chmod c m w = (r, w')" by fastforce
    have dir: "c = [] \<or> w_node w c = Some (Dir k)"
      using Inr by (auto simp: directory_stat_def lstat_def split: lstat_result.splits node.splits if_splits option.splits)
    have "only_dirs p w w'"
    proof (cases "c = []")
      case True
      with ch show ?thesis by (auto simp: os_chmod_def intro: only_dirs_same)
    next
      case False
      with dir os_chmod_result [OF ch] assms show ?thesis by (auto simp: only_dirs_def split: if_splits)
    qed
    with Inr ch show ?thesis by (simp add: bind_def)
  qed
qed

lemma ensure_directory_chain_effect: "keeps (only_dirs p) (ensure_directory_chain m p)"
proof -
  note rf = only_dirs_refl [of p] and tr = only_dirs_trans [of p]
  have tail: "keeps (only_dirs p) (bind (if there then
             bind (reading (\<lambda>w. directory_stat w c)) (\<lambda>_. if c = p then os_chmod c m else ret ())
           else ret ()) (\<lambda>_. make_dirs m (rev ms)))"
    if "\<forall>d\<in>set ms. prefix d p" "prefix c p" for there c ms
  proof (rule keeps_bind [OF tr])
    show "keeps (only_dirs p) (if there then
             bind (reading (\<lambda>w. directory_stat w c)) (\<lambda>_. if c = p then os_chmod c m else ret ())
           else ret ())"
    proof (cases there; cases "c = p")
      assume "there" "c = p"
      then show ?thesis using checked_chmod_effect [OF that(2), of m] by (simp only: if_True simp_thms)
    next
      assume "there" "c \<noteq> p"
      then show ?thesis
        by (simp only: if_True if_False) (intro keeps_bind [OF tr] keeps_pure rf)
    qed (simp_all only: if_False, (rule keeps_pure, rule rf)+)
    show "keeps (only_dirs p) (make_dirs m (rev ms))" using that(1) by (simp add: make_dirs_effect)
  qed
  have md: "keeps (only_dirs p) (bind (reading (\<lambda>w. Inr (missing_dirs w p))) f)"
    if f: "\<And>ms c. \<forall>d\<in>set ms. prefix d p \<Longrightarrow> prefix c p \<Longrightarrow> keeps (only_dirs p) (f (ms, c))" for f :: "_ \<Rightarrow> unit io"
  proof (unfold keeps_def, rule allI)
    fix w
    obtain ms c where m: "missing_dirs w p = (ms, c)" by fastforce
    with missing_dirs_prefixes [OF m] f show "only_dirs p w (snd (bind (reading (\<lambda>w. Inr (missing_dirs w p))) f w))"
      by (simp add: bind_def keeps_def)
  qed
  show ?thesis
    unfolding ensure_directory_chain_def
    apply (rule keeps_bind [OF tr], rule keeps_pure, rule rf)
    apply (rule keeps_bind [OF tr], rule keeps_pure, rule rf)
    apply (rule md)
    apply (unfold prod.case)
    apply (rule keeps_bind [OF tr], rule keeps_pure, rule rf)
    apply (rule keeps_bind [OF tr], rule keeps_pure, rule rf)
    by (rule tail)
qed

lemma ensure_directory_chain_ok:
  assumes run: "ensure_directory_chain m p w = (Inr (), w')" and p: "p \<noteq> []"
  shows "w_node w' p = Some (Dir m) \<and> no_links w' p \<and> all_present w' p"
proof -
  obtain ms c where md: "missing_dirs w p = (ms, c)" by fastforce
  obtain w1 where nl: "no_links w p" and rej: "reject_symlink_components w False c = Inr ()"
    and top: "(if path_exists w c then bind (reading (\<lambda>w. directory_stat w c)) (\<lambda>_. if c = p then os_chmod c m else ret ())
           else ret ()) w = (Inr (), w1)"
    and mk: "make_dirs m (rev ms) w1 = (Inr (), w')"
    using run md by (auto simp: ensure_directory_chain_def ioE reject_missing_ok)
  note pre = missing_dirs_prefixes [OF md]
  show ?thesis
  proof (cases ms)
    case Nil
    with pre have c: "c = p" by simp
    have ex: "path_exists w p"
      using rej p plain_path_exists [OF nl p] by (auto simp: c reject_present all_present_def)
    with top obtain k where k: "directory_stat w p = Inr k" and ch: "os_chmod p m w = (Inr (), w1)"
      by (auto simp: c ioE)
    have dir: "w_node w p = Some (Dir k)"
      using k p by (auto simp: directory_stat_def lstat_def split: lstat_result.splits node.splits if_splits option.splits)
    from os_chmod_result [OF ch] dir p
    have w1: "w_bad w1 = w_bad w" "w_node w1 p = Some (Dir m)" "\<And>q. q \<noteq> p \<Longrightarrow> w_node w1 q = w_node w q" by auto
    have "plain_at w1 q" if "plain_at w q" for q
      using that w1 dir by (cases "q = p") (auto simp: plain_at_def lstat_def)
    moreover have "w_node w1 q \<noteq> None" if "w_node w q \<noteq> None" for q
      using that w1 by (cases "q = p") auto
    ultimately have "no_links w1 p" "all_present w1 p"
      using rej c by (auto simp: reject_present no_links_def all_present_def)
    with w1 mk Nil show ?thesis by simp
  next
    case (Cons d ds)
    with pre have "d = p" by simp
    with mk Cons make_dirs_last [of m "rev ds" p w1 w'] show ?thesis by simp
  qed
qed

lemma ensure_store_layout_effect:
  assumes "prefix (root paths) (plans_root paths)"
  shows "keeps (only_dirs (plans_root paths)) (ensure_store_layout paths)"
proof -
  let ?p = "plans_root paths"
  note rf = only_dirs_refl [of ?p] and tr = only_dirs_trans [of ?p]
  have mono: "keeps (only_dirs ?p) (ensure_directory_chain m (root paths))" for m
    using ensure_directory_chain_effect [of "root paths" m] assms
    unfolding keeps_def only_dirs_def by (meson prefix_order.trans)
  show ?thesis
    unfolding ensure_store_layout_def
    by (intro keeps_bind [OF tr])
      (auto intro: keeps_pure rf mono ensure_directory_chain_effect checked_chmod_effect assms)
qed

end
