(* ===== verification/Sha256.thy ===== *)
theory Sha256
  imports PyStr "HOL-Library.Word"
begin

unbundle bit_operations_syntax

text \<open>
  \<open>hashlib.sha256(data).hexdigest()\<close> as FIPS 180-4 defines it, on 32-bit words.
  The store only relies on the digest being 64 lower-case hexadecimal digits;
  that law is the locale \<open>digest_fn\<close>, and this theory discharges it for the
  real function.
\<close>

type_synonym w32 = "32 word"

text \<open>
  The round constants are the first 32 bits of the fractional parts of the cube
  roots of the first 64 primes, the initial state those of the square roots of
  the first 8.  \<open>root_bits e bits n\<close> finds the largest \<open>r\<close> below \<open>2 ^ bits\<close> with
  \<open>r ^ e \<le> n\<close>, one bit at a time.
\<close>

fun root_bits :: "nat \<Rightarrow> nat \<Rightarrow> nat \<Rightarrow> nat \<Rightarrow> nat" where
  "root_bits e 0 n r = r"
| "root_bits e (Suc k) n r = root_bits e k n (if (r + 2 ^ k) ^ e \<le> n then r + 2 ^ k else r)"

definition is_prime :: "nat \<Rightarrow> bool" where
  "is_prime n = (2 \<le> n \<and> list_all (\<lambda>d. n mod d \<noteq> 0) [2..<n])"

definition first_primes :: "nat list" where
  "first_primes = filter is_prime [2..<312]"

definition frac_root :: "nat \<Rightarrow> nat \<Rightarrow> w32" where
  "frac_root e p = of_nat (root_bits e 40 (p * 2 ^ (32 * e)) 0)"

definition sha_k :: "w32 list" where
  "sha_k = map (frac_root 3) first_primes"

definition sha_init :: "w32 list" where
  "sha_init = map (frac_root 2) (take 8 first_primes)"

definition big_s0 :: "w32 \<Rightarrow> w32" where
  "big_s0 x = word_rotr 2 x XOR word_rotr 13 x XOR word_rotr 22 x"
definition big_s1 :: "w32 \<Rightarrow> w32" where
  "big_s1 x = word_rotr 6 x XOR word_rotr 11 x XOR word_rotr 25 x"
definition small_s0 :: "w32 \<Rightarrow> w32" where
  "small_s0 x = word_rotr 7 x XOR word_rotr 18 x XOR drop_bit 3 x"
definition small_s1 :: "w32 \<Rightarrow> w32" where
  "small_s1 x = word_rotr 17 x XOR word_rotr 19 x XOR drop_bit 10 x"

definition be_word :: "string \<Rightarrow> w32" where
  "be_word bs = foldl (\<lambda>w b. w * 256 + of_nat (ordc b)) 0 bs"

fun chunks :: "nat \<Rightarrow> nat \<Rightarrow> string \<Rightarrow> string list" where
  "chunks 0 k s = []"
| "chunks (Suc n) k s = take k s # chunks n k (drop k s)"

text \<open>The message schedule, newest word first.\<close>

fun extend :: "nat \<Rightarrow> w32 list \<Rightarrow> w32 list" where
  "extend 0 ws = ws"
| "extend (Suc n) ws =
     extend n ((small_s1 (ws ! 1) + ws ! 6 + small_s0 (ws ! 14) + ws ! 15) # ws)"

fun sha_round :: "w32 list \<Rightarrow> w32 \<times> w32 \<Rightarrow> w32 list" where
  "sha_round [a, b, c, d, e, f, g, h] (k, w) =
     (let t1 = h + big_s1 e + ((e AND f) XOR (NOT e AND g)) + k + w;
          t2 = big_s0 a + ((a AND b) XOR (a AND c) XOR (b AND c))
      in [t1 + t2, a, b, c, d + t1, e, f, g])"
| "sha_round st _ = st"

definition sha_block :: "w32 list \<Rightarrow> string \<Rightarrow> w32 list" where
  "sha_block st blk =
     (let ws = rev (extend 48 (rev (map be_word (chunks 16 4 blk))))
      in map2 (+) st (foldl sha_round st (zip sha_k ws)))"

definition sha_pad :: "string \<Rightarrow> string" where
  "sha_pad s = s @ [char_of (128::nat)]
     @ replicate ((119 - length s mod 64) mod 64) (char_of (0::nat))
     @ map (\<lambda>i. char_of ((8 * length s) div 256 ^ i :: nat)) (rev [0..<8])"

definition nibble :: "w32 \<Rightarrow> nat \<Rightarrow> char" where
  "nibble w i = (let d = unat (drop_bit (4 * i) w) mod 16
     in if d < 10 then char_of (48 + d) else char_of (87 + d))"

definition word_hex :: "w32 \<Rightarrow> string" where
  "word_hex w = map (nibble w) (rev [0..<8])"

definition sha256_state :: "string \<Rightarrow> w32 list" where
  "sha256_state s = (let p = sha_pad s in foldl sha_block sha_init (chunks (length p div 64) 64 p))"

definition sha256_hex :: "string \<Rightarrow> string" where
  "sha256_hex s = concat (map word_hex (sha256_state s))"

section \<open>The law clients rely on\<close>

locale digest_fn =
  fixes sha :: "string \<Rightarrow> string"
  assumes sha_length: "length (sha s) = 64"
    and sha_hex: "list_all hex_lower (sha s)"
begin

lemma take_sha: "n \<le> 64 \<Longrightarrow> length (take n (sha s)) = n \<and> list_all hex_lower (take n (sha s))"
  using sha_length [of s] sha_hex [of s] by (auto simp: list_all_iff dest: in_set_takeD)

end

lemma nibble_hex: "hex_lower (nibble w i)"
proof -
  let ?d = "unat (drop_bit (4 * i) w) mod 16"
  have "?d < 16" by simp
  then show ?thesis
    by (auto simp: nibble_def hex_lower_def ascii_digit_def in_range_def Let_def)
qed

lemma length_sha_round: "length (sha_round st kw) = length st"
  by (induction st kw rule: sha_round.induct) (auto simp: Let_def)

lemma length_sha_rounds: "length (foldl sha_round st kws) = length st"
  by (induction kws arbitrary: st) (auto simp: length_sha_round)

lemma length_sha_blocks: "length st = 8 \<Longrightarrow> length (foldl sha_block st bs) = 8"
  by (induction bs arbitrary: st) (auto simp: sha_block_def Let_def length_sha_rounds)

lemma length_sha_init: "length sha_init = 8"
proof -
  have split: "[2..<312] = [2..<20] @ [20..<312]" using upt_add_eq_append [of 2 20 292] by simp
  have first: "length (filter is_prime [2..<20]) = 8" by code_simp
  have "8 \<le> length first_primes"
    unfolding first_primes_def split filter_append length_append first by (rule le_add1)
  then show ?thesis by (simp add: sha_init_def)
qed

lemma length_sha256_state: "length (sha256_state s) = 8"
  by (simp add: sha256_state_def Let_def length_sha_init length_sha_blocks)

lemma length_concat_word_hex: "length (concat (map word_hex ws)) = 8 * length ws"
  by (induction ws) (auto simp: word_hex_def)

interpretation sha256: digest_fn sha256_hex
proof unfold_locales
  fix s
  show "length (sha256_hex s) = 64"
    by (simp add: sha256_hex_def length_concat_word_hex length_sha256_state)
  show "list_all hex_lower (sha256_hex s)"
    by (auto simp: sha256_hex_def list_all_iff word_hex_def nibble_hex)
qed

end
