(* ===== verification/Schema.thy ===== *)
theory Schema
  imports PyJson Sha256
begin

text \<open>
  \<open>.codex/hooks/shared/implementation_store/schema.py\<close>: the bounded schemas of
  the implementation store and their deterministic hashes.  Every validator of
  the module is a function that returns the normalised record or the class of
  the exception the code raises, with the checks in the order of the code.  The
  hash function and the sensitivity detector the module imports come in as the
  environment \<open>env\<close>; the root theory instantiates them with SHA-256 and with
  the model of \<open>sensitive_content.is_red\<close>.  The lemmas show that a normalised
  record is accepted again unchanged, that it is a well-formed JSON value, and
  that its size and hash fields are what the schema promises.
\<close>

record env =
  env_sha :: "string \<Rightarrow> string"
  env_red :: "string \<Rightarrow> bool"

section \<open>Limits and vocabularies\<close>

definition STATE_TARGET_BYTES :: nat where "STATE_TARGET_BYTES = 2 * 1024"
definition STATE_HARD_LIMIT_BYTES :: nat where "STATE_HARD_LIMIT_BYTES = 8 * 1024"
definition MANIFEST_HARD_LIMIT_BYTES :: nat where "MANIFEST_HARD_LIMIT_BYTES = 8 * 1024"
definition EVENT_HARD_LIMIT_BYTES :: nat where "EVENT_HARD_LIMIT_BYTES = 4 * 1024"
definition UNPLANNED_EVENT_HARD_LIMIT_BYTES :: nat where "UNPLANNED_EVENT_HARD_LIMIT_BYTES = 4 * 1024"
definition CONTEXT_LEDGER_HARD_LIMIT_BYTES :: nat where "CONTEXT_LEDGER_HARD_LIMIT_BYTES = 2 * 1024"
definition PLAN_JOURNAL_MAX_BYTES :: nat where "PLAN_JOURNAL_MAX_BYTES = 8 * 1024 * 1024"
definition PLAN_JOURNAL_MAX_RECORDS :: nat where "PLAN_JOURNAL_MAX_RECORDS = 4096"
definition UNPLANNED_JOURNAL_MAX_BYTES :: nat where "UNPLANNED_JOURNAL_MAX_BYTES = 4 * 1024 * 1024"
definition UNPLANNED_JOURNAL_MAX_RECORDS :: nat where "UNPLANNED_JOURNAL_MAX_RECORDS = 4096"
definition CONTEXT_LEDGER_MAX_BYTES :: nat where "CONTEXT_LEDGER_MAX_BYTES = 4 * 1024 * 1024"
definition CONTEXT_LEDGER_MAX_RECORDS :: nat where "CONTEXT_LEDGER_MAX_RECORDS = 4096"

definition VALID_STATUSES :: "string list" where
  "VALID_STATUSES = [''planned'', ''active'', ''completed'', ''blocked'', ''superseded'', ''reopened'']"
definition VALID_CLASSIFICATIONS :: "string list" where
  "VALID_CLASSIFICATIONS = [''GREEN'', ''YELLOW'']"
definition VALID_VALIDATION :: "string list" where
  "VALID_VALIDATION = [''not_run'', ''pending'', ''partial'', ''pass'', ''fail'', ''blocked'']"
definition VALID_MODEL_FAMILIES :: "string list" where
  "VALID_MODEL_FAMILIES = [''luna'', ''terra'', ''sol'', ''unknown'']"
definition VALID_MODEL_SOURCES :: "string list" where
  "VALID_MODEL_SOURCES = [''payload'', ''environment'', ''repository-default'', ''unknown'']"
definition VALID_CAPSULE_KINDS :: "string list" where
  "VALID_CAPSULE_KINDS = [''full'', ''delta'', ''expanded'']"
definition MATERIAL_EVENT_KINDS :: "string list" where
  "MATERIAL_EVENT_KINDS = [''started'', ''phase_changed'', ''decision'', ''deviation'',
     ''blocker_opened'', ''blocker_resolved'', ''question_opened'', ''question_resolved'',
     ''validation_changed'', ''completed'', ''reopened'', ''migration_imported'', ''loose_commit_recorded'']"

text \<open>The regular expressions of the module; all are used with \<open>fullmatch\<close>.\<close>

definition id_char :: "char \<Rightarrow> bool" where
  "id_char c = (ascii_alnum c \<or> c \<in> set ''._:/-'')"

definition id_re :: "string \<Rightarrow> bool" where
  "id_re s = (s \<noteq> [] \<and> ascii_alnum (hd s) \<and> length s \<le> 96 \<and> list_all id_char (tl s))"

definition code_re :: "string \<Rightarrow> bool" where
  "code_re s = (s \<noteq> [] \<and> ascii_alnum (hd s) \<and> length s \<le> 64
     \<and> list_all (\<lambda>c. ascii_alnum c \<or> c \<in> set ''._:-'') (tl s))"

definition hash_re :: "string \<Rightarrow> bool" where
  "hash_re s = (starts_with s ''sha256:'' \<and> length s = 71 \<and> list_all hex_lower (drop 7 s))"

definition commit_re :: "string \<Rightarrow> bool" where
  "commit_re s = (7 \<le> length s \<and> length s \<le> 64 \<and> list_all hex_lower s)"

definition STATE_PATCH_KEYS :: "string list" where
  "STATE_PATCH_KEYS = [''plan_path'', ''status'', ''classification'', ''phase'', ''objective'',
     ''latest_decision'', ''next_action'', ''open_blockers'', ''open_questions'', ''validation'',
     ''active_files'', ''git'', ''model_family'', ''model_source'', ''model_verified'', ''origin'', ''intent'']"

section \<open>Sizes and digests\<close>

definition encoded_size :: "py \<Rightarrow> nat" where
  "encoded_size v = length (utf8_encode (canonical_json v))"

definition state_size_band :: "nat \<Rightarrow> string" where
  "state_size_band n = (if n \<le> STATE_TARGET_BYTES then ''target''
     else if n < STATE_HARD_LIMIT_BYTES then ''warning'' else ''hard'')"

definition digest :: "env \<Rightarrow> py \<Rightarrow> string" where
  "digest E v = ''sha256:'' @ env_sha E (utf8_encode (canonical_json v))"

section \<open>Field validators\<close>

definition s_schema_version :: "pdict \<Rightarrow> unit res" where
  "s_schema_version obj = (case dget obj ''schema_version'' PNone of
     PInt n \<Rightarrow> if n > 1 then Inl FutureSchemaError else if n \<noteq> 1 then Inl SchemaError else Inr ()
   | _ \<Rightarrow> Inl SchemaError)"

definition s_object :: "py \<Rightarrow> pdict res" where
  "s_object v = (case v of PDict d \<Rightarrow> Inr d | _ \<Rightarrow> Inl SchemaError)"

definition s_unknown_keys :: "pdict \<Rightarrow> string list \<Rightarrow> unit res" where
  "s_unknown_keys obj allowed = guardE (\<not> list_all (\<lambda>kv. fst kv \<in> set allowed) obj) SchemaError"

definition s_enum :: "string list \<Rightarrow> py \<Rightarrow> py res" where
  "s_enum allowed v = (case v of PStr s \<Rightarrow> if s \<in> set allowed then Inr v else Inl SchemaError
     | _ \<Rightarrow> Inl SchemaError)"

definition s_integer :: "int \<Rightarrow> py \<Rightarrow> py res" where
  "s_integer minimum v = (case v of PInt i \<Rightarrow> if i < minimum then Inl SchemaError else Inr v
     | _ \<Rightarrow> Inl SchemaError)"

definition s_boolean :: "py \<Rightarrow> py res" where
  "s_boolean v = (case v of PBool b \<Rightarrow> Inr v | _ \<Rightarrow> Inl SchemaError)"

definition s_text :: "env \<Rightarrow> nat \<Rightarrow> bool \<Rightarrow> py \<Rightarrow> py res" where
  "s_text E limit allow_empty v = (case v of
     PStr s \<Rightarrow>
       if (\<not> allow_empty \<and> strip s = []) \<or> length s > limit then Inl SchemaError
       else if list_ex (\<lambda>c. ordc c < (32::nat) \<and> c \<noteq> CHR 0x0A \<and> c \<noteq> CHR 0x09) s then Inl SchemaError
       else if env_red E s then Inl RedContentError
       else Inr v
   | _ \<Rightarrow> Inl SchemaError)"

definition s_timestamp :: "env \<Rightarrow> bool \<Rightarrow> py \<Rightarrow> py res" where
  "s_timestamp E allow_empty v = s_text E 64 allow_empty v"

definition s_identifier :: "env \<Rightarrow> bool \<Rightarrow> py \<Rightarrow> py res" where
  "s_identifier E allow_empty v =
     (if allow_empty \<and> v = PStr [] then Inr (PStr [])
      else case v of
        PStr s \<Rightarrow> if \<not> id_re s then Inl SchemaError
                  else if env_red E s then Inl RedContentError else Inr v
      | _ \<Rightarrow> Inl SchemaError)"

definition s_plan_id :: "env \<Rightarrow> bool \<Rightarrow> py \<Rightarrow> py res" where
  "s_plan_id E allow_empty v =
     (if allow_empty \<and> v = PStr [] then Inr (PStr [])
      else case v of
        PStr s \<Rightarrow>
          if s = [] \<or> length s > 180 \<or> bslash \<in> set s \<or> starts_with s ''/'' then Inl SchemaError
          else let parts = split_on (CHR ''/'') s in
            if length parts > 8 \<or> list_ex (\<lambda>p. p = [] \<or> p = ''.'' \<or> p = ''..'') parts then Inl SchemaError
            else if list_ex (\<lambda>p. starts_with p ''~'' \<or> list_ex (\<lambda>c. ordc c < (32::nat)) p) parts
              then Inl SchemaError
            else if env_red E s then Inl RedContentError
            else Inr v
      | _ \<Rightarrow> Inl SchemaError)"

definition s_hash :: "bool \<Rightarrow> py \<Rightarrow> py res" where
  "s_hash allow_empty v =
     (if allow_empty \<and> v = PStr [] then Inr (PStr [])
      else case v of PStr s \<Rightarrow> if hash_re s then Inr v else Inl SchemaError | _ \<Rightarrow> Inl SchemaError)"

definition s_text_list :: "env \<Rightarrow> nat \<Rightarrow> nat \<Rightarrow> py \<Rightarrow> py res" where
  "s_text_list E max_items max_length v = (case v of
     PList xs \<Rightarrow> if length xs > max_items then Inl SchemaError
       else bindE (mapE (s_text E max_length False) xs) (\<lambda>ys. Inr (PList ys))
   | _ \<Rightarrow> Inl SchemaError)"

definition s_code :: "py \<Rightarrow> py res" where
  "s_code v = (case v of PStr s \<Rightarrow> if code_re s then Inr v else Inl SchemaError | _ \<Rightarrow> Inl SchemaError)"

definition s_code_list :: "nat \<Rightarrow> py \<Rightarrow> py res" where
  "s_code_list max_items v = (case v of
     PList xs \<Rightarrow> if length xs > max_items then Inl SchemaError
       else bindE (mapE s_code xs) (\<lambda>ys. Inr (PList ys))
   | _ \<Rightarrow> Inl SchemaError)"

definition s_repo_relative_path :: "env \<Rightarrow> bool \<Rightarrow> py \<Rightarrow> py res" where
  "s_repo_relative_path E allow_empty v =
     (if allow_empty \<and> v = PStr [] then Inr (PStr [])
      else case v of
        PStr s \<Rightarrow>
          if s = [] \<or> length s > 320 \<or> starts_with s ''/'' \<or> bslash \<in> set s then Inl SchemaError
          else if list_ex (\<lambda>p. p = [] \<or> p = ''.'' \<or> p = ''..'') (split_on (CHR ''/'') s) then Inl SchemaError
          else if env_red E s then Inl RedContentError
          else Inr v
      | _ \<Rightarrow> Inl SchemaError)"

text \<open>\<open>_path_list\<close> receives a \<open>max_length\<close> it never reads; the limit is the 320 of the path check.\<close>

definition s_path_list :: "env \<Rightarrow> nat \<Rightarrow> py \<Rightarrow> py res" where
  "s_path_list E max_items v = (case v of
     PList xs \<Rightarrow> if length xs > max_items then Inl SchemaError
       else bindE (mapE (s_repo_relative_path E False) xs) (\<lambda>ys. Inr (PList ys))
   | _ \<Rightarrow> Inl SchemaError)"

definition s_store_relative_path :: "env \<Rightarrow> py \<Rightarrow> py res" where
  "s_store_relative_path E v = bindE (s_repo_relative_path E False v) (\<lambda>p.
     if \<not> starts_with (str_of p) ''.local-notes/ralph/implementation/''
        \<or> \<not> ends_with (str_of p) ''/state.json''
     then Inl SchemaError else Inr p)"

fun s_validation_items :: "pdict \<Rightarrow> pdict res" where
  "s_validation_items [] = Inr []"
| "s_validation_items ((k, status) # d) =
     (if \<not> code_re k then Inl SchemaError
      else bindE (s_enum VALID_VALIDATION status) (\<lambda>st.
           bindE (s_validation_items d) (\<lambda>r. Inr ((k, st) # r))))"

definition s_validation :: "py \<Rightarrow> py res" where
  "s_validation v = bindE (s_object v) (\<lambda>obj.
     if length obj > 16 then Inl SchemaError
     else bindE (s_validation_items obj) (\<lambda>r. Inr (PDict (mk_dict r))))"

definition s_reject_red :: "env \<Rightarrow> pdict \<Rightarrow> unit res" where
  "s_reject_red E d = guardE (env_red E (canonical_json (PDict d))) RedContentError"

definition s_git :: "env \<Rightarrow> py \<Rightarrow> py res" where
  "s_git E v =
     bindE (s_object v) (\<lambda>obj.
     bindE (s_unknown_keys obj [''branch'', ''commit'', ''workspace_instance_id'', ''repository_id'']) (\<lambda>_.
     bindE (s_text E 80 True (dget obj ''commit'' (PStr []))) (\<lambda>commit.
     bindE (guardE (truthy commit \<and> \<not> commit_re (str_of commit)) SchemaError) (\<lambda>_.
     bindE (s_text E 240 True (dget obj ''branch'' (PStr []))) (\<lambda>branch.
     bindE (s_identifier E True (dget obj ''workspace_instance_id'' (PStr []))) (\<lambda>ws.
     bindE (s_identifier E True (dget obj ''repository_id'' (PStr []))) (\<lambda>repo.
     Inr (PDict (mk_dict [(''branch'', branch), (''commit'', commit),
       (''workspace_instance_id'', ws), (''repository_id'', repo)])))))))))"

definition s_decision :: "env \<Rightarrow> py \<Rightarrow> py res" where
  "s_decision E v =
     (if v = PNone then Inr PNone
      else bindE (s_object v) (\<lambda>obj.
        bindE (s_unknown_keys obj [''event_id'', ''summary'']) (\<lambda>_.
        bindE (s_identifier E True (dget obj ''event_id'' (PStr []))) (\<lambda>eid.
        bindE (s_text E 400 True (dget obj ''summary'' (PStr []))) (\<lambda>summary.
        Inr (PDict (mk_dict [(''event_id'', eid), (''summary'', summary)])))))))"

text \<open>One optional field of a state patch: \<open>if k in obj: result[k] = check(obj[k])\<close>.\<close>

definition patch_field :: "pdict \<Rightarrow> string \<Rightarrow> (py \<Rightarrow> py res) \<Rightarrow> pdict \<Rightarrow> pdict res" where
  "patch_field obj k check result =
     (case map_of obj k of None \<Rightarrow> Inr result | Some v \<Rightarrow> bindE (check v) (\<lambda>w. Inr (dset k w result)))"

definition patch_checks :: "env \<Rightarrow> (string \<times> (py \<Rightarrow> py res)) list" where
  "patch_checks E = [
     (''plan_path'', s_repo_relative_path E True),
     (''status'', s_enum VALID_STATUSES),
     (''classification'', s_enum VALID_CLASSIFICATIONS),
     (''phase'', s_text E 160 True),
     (''objective'', s_text E 480 True),
     (''latest_decision'', s_decision E),
     (''next_action'', s_text E 400 True),
     (''open_blockers'', s_text_list E 8 400),
     (''open_questions'', s_text_list E 8 400),
     (''validation'', s_validation),
     (''active_files'', s_path_list E 16),
     (''git'', s_git E),
     (''model_family'', s_enum VALID_MODEL_FAMILIES),
     (''model_source'', s_enum VALID_MODEL_SOURCES),
     (''model_verified'', s_boolean),
     (''origin'', s_text E 80 False),
     (''intent'', s_text E 80 False)]"

fun patch_fields :: "pdict \<Rightarrow> (string \<times> (py \<Rightarrow> py res)) list \<Rightarrow> pdict \<Rightarrow> pdict res" where
  "patch_fields obj [] result = Inr result"
| "patch_fields obj ((k, check) # cs) result =
     bindE (patch_field obj k check result) (\<lambda>r. patch_fields obj cs r)"

definition s_state_patch :: "env \<Rightarrow> py \<Rightarrow> py res" where
  "s_state_patch E v =
     bindE (s_object v) (\<lambda>obj.
     bindE (guardE (length obj > length STATE_PATCH_KEYS) SchemaError) (\<lambda>_.
     bindE (s_unknown_keys obj STATE_PATCH_KEYS) (\<lambda>_.
     bindE (patch_fields obj (patch_checks E) []) (\<lambda>result.
     bindE (s_reject_red E result) (\<lambda>_. Inr (PDict result))))))"

definition validate_operation_id :: "env \<Rightarrow> py \<Rightarrow> py res" where
  "validate_operation_id E v = s_identifier E False v"

section \<open>Records\<close>

definition CONTEXT_LEDGER_KEYS :: "string list" where
  "CONTEXT_LEDGER_KEYS = [''schema_version'', ''project_id'', ''workspace_instance_id'', ''session_id'',
     ''context_epoch'', ''plan_id'', ''progress_generation'', ''capsule_kind'', ''emission_id'']"

definition validate_context_ledger_record :: "env \<Rightarrow> nat \<Rightarrow> py \<Rightarrow> pdict res" where
  "validate_context_ledger_record E hard_limit record0 =
     bindE (s_object record0) (\<lambda>obj.
     bindE (s_schema_version obj) (\<lambda>_.
     bindE (s_unknown_keys obj CONTEXT_LEDGER_KEYS) (\<lambda>_.
     bindE (s_identifier E False (dget obj ''project_id'' (PStr []))) (\<lambda>project_id.
     bindE (s_identifier E False (dget obj ''workspace_instance_id'' (PStr []))) (\<lambda>workspace_instance_id.
     bindE (s_identifier E False (dget obj ''session_id'' (PStr []))) (\<lambda>session_id.
     bindE (s_identifier E False (dget obj ''context_epoch'' (PStr []))) (\<lambda>context_epoch.
     bindE (s_plan_id E False (dget obj ''plan_id'' PNone)) (\<lambda>plan_id.
     bindE (s_integer 0 (dget obj ''progress_generation'' (PInt 0))) (\<lambda>progress_generation.
     bindE (s_enum VALID_CAPSULE_KINDS (dget obj ''capsule_kind'' (PStr []))) (\<lambda>capsule_kind.
     bindE (s_identifier E False (dget obj ''emission_id'' (PStr []))) (\<lambda>emission_id.
     let normalized = mk_dict [
       (''schema_version'', PInt 1), (''project_id'', project_id),
       (''workspace_instance_id'', workspace_instance_id), (''session_id'', session_id),
       (''context_epoch'', context_epoch), (''plan_id'', plan_id),
       (''progress_generation'', progress_generation), (''capsule_kind'', capsule_kind),
       (''emission_id'', emission_id)] in
     bindE (s_reject_red E normalized) (\<lambda>_.
     bindE (guardE (encoded_size (PDict normalized) + 1 > hard_limit) SchemaError) (\<lambda>_.
     Inr normalized)))))))))))))"

definition context_ledger_key :: "env \<Rightarrow> py \<Rightarrow> (py list) res" where
  "context_ledger_key E record0 =
     bindE (validate_context_ledger_record E CONTEXT_LEDGER_HARD_LIMIT_BYTES record0) (\<lambda>normalized.
     Inr (map (\<lambda>k. dget normalized k PNone) [''project_id'', ''workspace_instance_id'', ''session_id'',
       ''context_epoch'', ''plan_id'', ''progress_generation'', ''capsule_kind'']))"

definition OBSERVATIONAL_KEYS :: "string list" where
  "OBSERVATIONAL_KEYS = [''semantic_hash'', ''generation'', ''last_operation_id'', ''last_event_sequence'',
     ''last_event_hash'', ''updated_at'', ''created_at'', ''writer_session_id'', ''writer_process_id'']"

definition state_semantic_hash :: "env \<Rightarrow> pdict \<Rightarrow> string" where
  "state_semantic_hash E state = digest E (PDict (ddels OBSERVATIONAL_KEYS state))"

definition STATE_KEYS :: "string list" where
  "STATE_KEYS = [''schema_version'', ''plan_id'', ''plan_path'', ''generation'', ''semantic_hash'', ''status'',
     ''classification'', ''phase'', ''objective'', ''latest_decision'', ''next_action'', ''open_blockers'',
     ''open_questions'', ''validation'', ''active_files'', ''last_operation_id'', ''last_event_sequence'',
     ''last_event_hash'', ''git'', ''writer_session_id'', ''model_family'', ''model_source'',
     ''model_verified'', ''origin'', ''intent'', ''created_at'', ''updated_at'']"

definition expect_plan :: "string option \<Rightarrow> py \<Rightarrow> unit res" where
  "expect_plan expected plan_id = guardE (expected \<noteq> None \<and> plan_id \<noteq> PStr (the expected)) SchemaError"

definition validate_state :: "env \<Rightarrow> string option \<Rightarrow> nat \<Rightarrow> py \<Rightarrow> pdict res" where
  "validate_state E expected_plan_id hard_limit state =
     bindE (s_object state) (\<lambda>obj.
     bindE (s_schema_version obj) (\<lambda>_.
     bindE (s_unknown_keys obj STATE_KEYS) (\<lambda>_.
     bindE (s_plan_id E False (dget obj ''plan_id'' PNone)) (\<lambda>plan_id.
     bindE (expect_plan expected_plan_id plan_id) (\<lambda>_.
     bindE (s_repo_relative_path E True (dget obj ''plan_path'' (PStr []))) (\<lambda>_.
     bindE (s_integer 0 (dget obj ''generation'' (PInt 0))) (\<lambda>generation.
     bindE (s_enum VALID_STATUSES (dget obj ''status'' (PStr ''planned''))) (\<lambda>status.
     bindE (s_enum VALID_CLASSIFICATIONS (dget obj ''classification'' (PStr ''GREEN''))) (\<lambda>classification.
     bindE (s_text E 160 True (dget obj ''phase'' (PStr []))) (\<lambda>phase.
     bindE (s_text E 480 True (dget obj ''objective'' (PStr []))) (\<lambda>objective.
     bindE (s_text E 400 True (dget obj ''next_action'' (PStr []))) (\<lambda>next_action.
     bindE (s_decision E (dget obj ''latest_decision'' PNone)) (\<lambda>latest_decision.
     bindE (s_text_list E 8 400 (dget obj ''open_blockers'' (PList []))) (\<lambda>blockers.
     bindE (s_text_list E 8 400 (dget obj ''open_questions'' (PList []))) (\<lambda>questions.
     bindE (s_validation (dget obj ''validation'' (PDict []))) (\<lambda>validation.
     bindE (s_path_list E 16 (dget obj ''active_files'' (PList []))) (\<lambda>active_files.
     bindE (s_identifier E True (dget obj ''last_operation_id'' (PStr []))) (\<lambda>last_operation_id.
     bindE (s_integer 0 (dget obj ''last_event_sequence'' (PInt 0))) (\<lambda>last_event_sequence.
     bindE (s_hash True (dget obj ''last_event_hash'' (PStr []))) (\<lambda>last_event_hash.
     bindE (s_git E (dget obj ''git'' (PDict []))) (\<lambda>git.
     bindE (s_identifier E True (dget obj ''writer_session_id'' (PStr []))) (\<lambda>writer_session_id.
     bindE (s_enum VALID_MODEL_FAMILIES (dget obj ''model_family'' (PStr ''unknown''))) (\<lambda>model_family.
     bindE (s_enum VALID_MODEL_SOURCES (dget obj ''model_source'' (PStr ''unknown''))) (\<lambda>model_source.
     bindE (s_boolean (dget obj ''model_verified'' (PBool False))) (\<lambda>model_verified.
     bindE (s_text E 80 False (dget obj ''origin'' (PStr ''implementation-progress''))) (\<lambda>origin.
     bindE (s_text E 80 False (dget obj ''intent'' (PStr ''progress-maintenance''))) (\<lambda>intent.
     bindE (s_timestamp E True (dget obj ''created_at'' (PStr []))) (\<lambda>created_at.
     bindE (s_timestamp E True (dget obj ''updated_at'' (PStr []))) (\<lambda>updated_at.
     bindE (s_hash True (dget obj ''semantic_hash'' (PStr []))) (\<lambda>supplied_semantic_hash.
     let material = mk_dict [
       (''schema_version'', PInt 1), (''plan_id'', plan_id),
       (''plan_path'', dget obj ''plan_path'' (PStr [])), (''generation'', generation),
       (''semantic_hash'', PStr []), (''status'', status), (''classification'', classification),
       (''phase'', phase), (''objective'', objective), (''latest_decision'', latest_decision),
       (''next_action'', next_action), (''open_blockers'', blockers), (''open_questions'', questions),
       (''validation'', validation), (''active_files'', active_files),
       (''last_operation_id'', last_operation_id), (''last_event_sequence'', last_event_sequence),
       (''last_event_hash'', last_event_hash), (''git'', git), (''writer_session_id'', writer_session_id),
       (''model_family'', model_family), (''model_source'', model_source),
       (''model_verified'', model_verified), (''origin'', origin), (''intent'', intent),
       (''created_at'', created_at), (''updated_at'', updated_at)];
       semantic_hash = PStr (state_semantic_hash E material);
       normalized = dset ''semantic_hash'' semantic_hash material in
     bindE (guardE (truthy supplied_semantic_hash \<and> supplied_semantic_hash \<noteq> semantic_hash) SchemaError) (\<lambda>_.
     bindE (s_reject_red E normalized) (\<lambda>_.
     bindE (guardE (encoded_size (PDict normalized) > hard_limit) SchemaError) (\<lambda>_.
     Inr normalized)))))))))))))))))))))))))))))))))"

definition event_record_hash :: "env \<Rightarrow> pdict \<Rightarrow> string" where
  "event_record_hash E event = digest E (PDict (ddel ''record_hash'' event))"

definition EVENT_KEYS :: "string list" where
  "EVENT_KEYS = [''schema_version'', ''sequence'', ''event_id'', ''operation_id'', ''timestamp'', ''kind'',
     ''summary'', ''reason'', ''next_action'', ''status'', ''classification'', ''phase'', ''plan_id'',
     ''plan_path'', ''references'', ''evidence_codes'', ''git'', ''writer_session_id'', ''model_family'',
     ''model_source'', ''model_verified'', ''origin'', ''intent'', ''state_patch'',
     ''operation_payload_hash'', ''state_semantic_hash'', ''previous_event_hash'', ''record_hash'']"

text \<open>A \<open>hard_limit\<close> of 0 is Python's \<open>None\<close>: \<open>hard_limit or (...)\<close> then takes the default.\<close>

definition validate_event :: "env \<Rightarrow> string option \<Rightarrow> bool \<Rightarrow> nat \<Rightarrow> bool \<Rightarrow> py \<Rightarrow> pdict res" where
  "validate_event E expected_plan_id unplanned hard_limit allow_unhashed event =
     bindE (s_object event) (\<lambda>obj.
     bindE (s_schema_version obj) (\<lambda>_.
     bindE (s_unknown_keys obj EVENT_KEYS) (\<lambda>_.
     bindE (s_integer 1 (dget obj ''sequence'' (PInt 0))) (\<lambda>sequence.
     bindE (s_identifier E False (dget obj ''event_id'' PNone)) (\<lambda>event_id.
     bindE (s_identifier E False (dget obj ''operation_id'' PNone)) (\<lambda>operation_id.
     bindE (s_timestamp E False (dget obj ''timestamp'' PNone)) (\<lambda>timestamp.
     bindE (s_enum MATERIAL_EVENT_KINDS (dget obj ''kind'' PNone)) (\<lambda>kind.
     bindE (guardE (unplanned \<and> kind \<noteq> PStr ''loose_commit_recorded'') SchemaError) (\<lambda>_.
     bindE (s_plan_id E unplanned (dget obj ''plan_id'' (PStr []))) (\<lambda>plan_id.
     bindE (expect_plan expected_plan_id plan_id) (\<lambda>_.
     bindE (s_repo_relative_path E True (dget obj ''plan_path'' (PStr []))) (\<lambda>plan_path.
     bindE (s_text E 400 True (dget obj ''summary'' (PStr []))) (\<lambda>summary.
     bindE (s_text E 400 True (dget obj ''reason'' (PStr []))) (\<lambda>reason.
     bindE (s_text E 400 True (dget obj ''next_action'' (PStr []))) (\<lambda>next_action.
     bindE (s_enum VALID_STATUSES (dget obj ''status'' (PStr ''planned''))) (\<lambda>status.
     bindE (s_enum VALID_CLASSIFICATIONS (dget obj ''classification'' (PStr ''GREEN''))) (\<lambda>classification.
     bindE (s_text E 160 True (dget obj ''phase'' (PStr []))) (\<lambda>phase.
     bindE (s_path_list E 8 (dget obj ''references'' (PList []))) (\<lambda>references.
     bindE (s_code_list 8 (dget obj ''evidence_codes'' (PList []))) (\<lambda>evidence_codes.
     bindE (s_git E (dget obj ''git'' (PDict []))) (\<lambda>git.
     bindE (s_identifier E True (dget obj ''writer_session_id'' (PStr []))) (\<lambda>writer_session_id.
     bindE (s_enum VALID_MODEL_FAMILIES (dget obj ''model_family'' (PStr ''unknown''))) (\<lambda>model_family.
     bindE (s_enum VALID_MODEL_SOURCES (dget obj ''model_source'' (PStr ''unknown''))) (\<lambda>model_source.
     bindE (s_boolean (dget obj ''model_verified'' (PBool False))) (\<lambda>model_verified.
     bindE (s_text E 80 False (dget obj ''origin'' (PStr ''implementation-progress''))) (\<lambda>origin.
     bindE (s_text E 80 False (dget obj ''intent'' (PStr ''progress-maintenance''))) (\<lambda>intent.
     bindE (s_state_patch E (dget obj ''state_patch'' (PDict []))) (\<lambda>state_patch.
     bindE (s_hash True (dget obj ''operation_payload_hash'' (PStr []))) (\<lambda>operation_payload_hash.
     bindE (s_hash True (dget obj ''state_semantic_hash'' (PStr []))) (\<lambda>resulting_state_hash.
     bindE (s_hash True (dget obj ''previous_event_hash'' (PStr []))) (\<lambda>previous.
     bindE (s_hash allow_unhashed (dget obj ''record_hash'' (PStr []))) (\<lambda>record_hash.
     bindE (guardE (\<not> allow_unhashed \<and> \<not> truthy record_hash) SchemaError) (\<lambda>_.
     let normalized = mk_dict [
       (''schema_version'', PInt 1), (''sequence'', sequence), (''event_id'', event_id),
       (''operation_id'', operation_id), (''timestamp'', timestamp), (''kind'', kind),
       (''summary'', summary), (''reason'', reason), (''next_action'', next_action),
       (''status'', status), (''classification'', classification), (''phase'', phase),
       (''plan_id'', plan_id), (''plan_path'', plan_path), (''references'', references),
       (''evidence_codes'', evidence_codes), (''git'', git), (''writer_session_id'', writer_session_id),
       (''model_family'', model_family), (''model_source'', model_source),
       (''model_verified'', model_verified), (''origin'', origin), (''intent'', intent),
       (''state_patch'', state_patch), (''operation_payload_hash'', operation_payload_hash),
       (''state_semantic_hash'', resulting_state_hash), (''previous_event_hash'', previous),
       (''record_hash'', record_hash)];
       limit = (if hard_limit \<noteq> 0 then hard_limit
                else if unplanned then UNPLANNED_EVENT_HARD_LIMIT_BYTES else EVENT_HARD_LIMIT_BYTES) in
     bindE (s_reject_red E normalized) (\<lambda>_.
     bindE (guardE (truthy record_hash \<and> record_hash \<noteq> PStr (event_record_hash E normalized)) SchemaError) (\<lambda>_.
     bindE (guardE (encoded_size (PDict normalized) > limit) SchemaError) (\<lambda>_.
     Inr normalized))))))))))))))))))))))))))))))))))))"

definition validate_pointer :: "env \<Rightarrow> py \<Rightarrow> pdict res" where
  "validate_pointer E item =
     bindE (s_object item) (\<lambda>pointer.
     bindE (s_unknown_keys pointer [''plan_id'', ''plan_path'', ''state_path'', ''status'', ''branch'',
       ''workspace_instance_id'', ''semantic_hash'', ''last_event_sequence'']) (\<lambda>_.
     bindE (s_plan_id E False (dget pointer ''plan_id'' PNone)) (\<lambda>plan_id.
     bindE (s_repo_relative_path E True (dget pointer ''plan_path'' (PStr []))) (\<lambda>plan_path.
     bindE (s_store_relative_path E (dget pointer ''state_path'' (PStr []))) (\<lambda>state_path.
     bindE (s_enum VALID_STATUSES (dget pointer ''status'' (PStr ''planned''))) (\<lambda>status.
     bindE (s_text E 240 True (dget pointer ''branch'' (PStr []))) (\<lambda>branch.
     bindE (s_identifier E True (dget pointer ''workspace_instance_id'' (PStr []))) (\<lambda>workspace_instance_id.
     bindE (s_hash True (dget pointer ''semantic_hash'' (PStr []))) (\<lambda>semantic_hash.
     bindE (s_integer 0 (dget pointer ''last_event_sequence'' (PInt 0))) (\<lambda>last_event_sequence.
     Inr (mk_dict [(''plan_id'', plan_id), (''plan_path'', plan_path), (''state_path'', state_path),
       (''status'', status), (''branch'', branch), (''workspace_instance_id'', workspace_instance_id),
       (''semantic_hash'', semantic_hash), (''last_event_sequence'', last_event_sequence)])))))))))))"

fun validate_pointers :: "env \<Rightarrow> py list \<Rightarrow> py list \<Rightarrow> (py list) res" where
  "validate_pointers E seen [] = Inr []"
| "validate_pointers E seen (item # items) =
     bindE (validate_pointer E item) (\<lambda>p.
     let plan_id = dget p ''plan_id'' PNone in
     if plan_id \<in> set seen then Inl SchemaError
     else bindE (validate_pointers E (plan_id # seen) items) (\<lambda>ps. Inr (PDict p # ps)))"

definition validate_manifest :: "env \<Rightarrow> nat \<Rightarrow> py \<Rightarrow> pdict res" where
  "validate_manifest E hard_limit manifest =
     bindE (s_object manifest) (\<lambda>obj.
     bindE (s_schema_version obj) (\<lambda>_.
     bindE (s_unknown_keys obj [''schema_version'', ''canonical_repo_identity'', ''generation'', ''plans'']) (\<lambda>_.
     bindE (s_identifier E True (dget obj ''canonical_repo_identity'' (PStr []))) (\<lambda>identity.
     bindE (s_integer 0 (dget obj ''generation'' (PInt 0))) (\<lambda>generation.
     bindE (case dget obj ''plans'' (PList []) of
              PList xs \<Rightarrow> if length xs > 64 then Inl SchemaError else Inr xs
            | _ \<Rightarrow> Inl SchemaError) (\<lambda>plans_raw.
     bindE (validate_pointers E [] plans_raw) (\<lambda>plans.
     let normalized = mk_dict [(''schema_version'', PInt 1), (''canonical_repo_identity'', identity),
       (''generation'', generation), (''plans'', PList plans)] in
     bindE (s_reject_red E normalized) (\<lambda>_.
     bindE (guardE (encoded_size (PDict normalized) > hard_limit) SchemaError) (\<lambda>_.
     Inr normalized)))))))))"

text \<open>\<open>new_state\<close>: the defaults, overridden by the keyword arguments, then validated.\<close>

definition new_state_base :: "string \<Rightarrow> py \<Rightarrow> string \<Rightarrow> pdict" where
  "new_state_base plan_id plan_path now = mk_dict [
     (''schema_version'', PInt 1), (''plan_id'', PStr plan_id), (''plan_path'', plan_path),
     (''generation'', PInt 0), (''status'', PStr ''planned''), (''classification'', PStr ''GREEN''),
     (''phase'', PStr []), (''objective'', PStr []), (''latest_decision'', PNone),
     (''next_action'', PStr []), (''open_blockers'', PList []), (''open_questions'', PList []),
     (''validation'', PDict []), (''active_files'', PList []), (''last_operation_id'', PStr []),
     (''last_event_sequence'', PInt 0), (''last_event_hash'', PStr []), (''git'', PDict []),
     (''writer_session_id'', PStr []), (''model_family'', PStr ''unknown''),
     (''model_source'', PStr ''unknown''), (''model_verified'', PBool False),
     (''origin'', PStr ''implementation-progress''), (''intent'', PStr ''progress-maintenance''),
     (''created_at'', PStr now), (''updated_at'', PStr now)]"

definition new_state :: "env \<Rightarrow> string \<Rightarrow> py \<Rightarrow> string \<Rightarrow> pdict \<Rightarrow> pdict res" where
  "new_state E plan_id plan_path now kwargs =
     validate_state E (Some plan_id) STATE_HARD_LIMIT_BYTES
       (PDict (dupdate (new_state_base plan_id plan_path now) kwargs))"

section \<open>A validator accepts what it returned\<close>

text \<open>
  \<open>checked f v\<close> says that the validator \<open>f\<close> accepts \<open>v\<close> unchanged.  The rules
  collected in \<open>stable\<close> turn a successful run into such a fact about its result.
\<close>

definition checked :: "(py \<Rightarrow> py res) \<Rightarrow> py \<Rightarrow> bool" where
  "checked f v = (f v = Inr v)"

lemma s_enum_id: "s_enum a v = Inr y \<Longrightarrow> y = v"
  by (auto simp: s_enum_def split: py.splits if_splits)
lemma s_integer_id: "s_integer m v = Inr y \<Longrightarrow> y = v"
  by (auto simp: s_integer_def split: py.splits if_splits)
lemma s_boolean_id: "s_boolean v = Inr y \<Longrightarrow> y = v"
  by (auto simp: s_boolean_def split: py.splits if_splits)
lemma s_text_id: "s_text E n b v = Inr y \<Longrightarrow> y = v"
  by (auto simp: s_text_def split: py.splits if_splits)
lemma s_identifier_id: "s_identifier E b v = Inr y \<Longrightarrow> y = v"
  by (auto simp: s_identifier_def split: py.splits if_splits)
lemma s_plan_id_id: "s_plan_id E b v = Inr y \<Longrightarrow> y = v"
  by (auto simp: s_plan_id_def Let_def split: py.splits if_splits)
lemma s_hash_id: "s_hash b v = Inr y \<Longrightarrow> y = v"
  by (auto simp: s_hash_def split: py.splits if_splits)
lemma s_code_id: "s_code v = Inr y \<Longrightarrow> y = v"
  by (auto simp: s_code_def split: py.splits if_splits)
lemma s_repo_relative_path_id: "s_repo_relative_path E b v = Inr y \<Longrightarrow> y = v"
  by (auto simp: s_repo_relative_path_def split: py.splits if_splits)
lemma s_store_relative_path_id: "s_store_relative_path E v = Inr y \<Longrightarrow> y = v"
  by (auto simp: s_store_relative_path_def resE split: if_splits dest: s_repo_relative_path_id)
lemma s_text_list_id: "s_text_list E m n v = Inr y \<Longrightarrow> y = v"
  by (auto simp: s_text_list_def resE split: py.splits if_splits dest!: mapE_id [rotated] s_text_id)
lemma s_code_list_id: "s_code_list m v = Inr y \<Longrightarrow> y = v"
  by (auto simp: s_code_list_def resE split: py.splits if_splits dest!: mapE_id [rotated] s_code_id)
lemma s_path_list_id: "s_path_list E m v = Inr y \<Longrightarrow> y = v"
  by (auto simp: s_path_list_def resE split: py.splits if_splits dest!: mapE_id [rotated] s_repo_relative_path_id)
lemma s_timestamp_id: "s_timestamp E b v = Inr y \<Longrightarrow> y = v"
  by (auto simp: s_timestamp_def dest: s_text_id)

lemmas simple_id = s_enum_id s_integer_id s_boolean_id s_text_id s_identifier_id s_plan_id_id s_hash_id
  s_code_id s_repo_relative_path_id s_store_relative_path_id s_text_list_id s_code_list_id s_path_list_id
  s_timestamp_id

lemma simple_checked [stable]:
  "s_enum a v = Inr y \<Longrightarrow> checked (s_enum a) y"
  "s_integer i v = Inr y \<Longrightarrow> checked (s_integer i) y"
  "s_boolean v = Inr y \<Longrightarrow> checked s_boolean y"
  "s_text E n b v = Inr y \<Longrightarrow> checked (s_text E n b) y"
  "s_identifier E b v = Inr y \<Longrightarrow> checked (s_identifier E b) y"
  "s_plan_id E b v = Inr y \<Longrightarrow> checked (s_plan_id E b) y"
  "s_hash b v = Inr y \<Longrightarrow> checked (s_hash b) y"
  "s_code v = Inr y \<Longrightarrow> checked s_code y"
  "s_repo_relative_path E b v = Inr y \<Longrightarrow> checked (s_repo_relative_path E b) y"
  "s_store_relative_path E v = Inr y \<Longrightarrow> checked (s_store_relative_path E) y"
  "s_text_list E m n v = Inr y \<Longrightarrow> checked (s_text_list E m n) y"
  "s_code_list m v = Inr y \<Longrightarrow> checked (s_code_list m) y"
  "s_path_list E m v = Inr y \<Longrightarrow> checked (s_path_list E m) y"
  "s_timestamp E b v = Inr y \<Longrightarrow> checked (s_timestamp E b) y"
  by (frule simple_id, simp add: checked_def)+

lemma checkedD: "checked f y \<Longrightarrow> f y = Inr y"
  by (simp add: checked_def)

lemmas checked_simps =
  checkedD [of "s_enum a" for a] checkedD [of "s_integer m" for m] checkedD [of s_boolean]
  checkedD [of "s_text E n b" for E n b] checkedD [of "s_identifier E b" for E b]
  checkedD [of "s_plan_id E b" for E b] checkedD [of "s_hash b" for b] checkedD [of s_code]
  checkedD [of "s_repo_relative_path E b" for E b] checkedD [of "s_store_relative_path E" for E]
  checkedD [of "s_text_list E m n" for E m n] checkedD [of "s_code_list m" for m]
  checkedD [of "s_path_list E m" for E m] checkedD [of "s_timestamp E b" for E b]

text \<open>What the simple validators return is a well-formed value.\<close>

lemma s_text_wf: "s_text E n b v = Inr y \<Longrightarrow> wf_py y"
  by (auto simp: s_text_def split: py.splits if_splits)

lemma s_repo_relative_path_wf: "s_repo_relative_path E b v = Inr y \<Longrightarrow> wf_py y"
  by (auto simp: s_repo_relative_path_def split: py.splits if_splits)

lemma mapE_wf:
  assumes "\<And>v y. f v = Inr y \<Longrightarrow> wf_py y"
  shows "mapE f xs = Inr ys \<Longrightarrow> list_all wf_py ys"
  using assms by (induction xs arbitrary: ys) (auto simp: resE)

lemma checked_wf:
  "checked (s_enum a) y \<Longrightarrow> wf_py y" "checked (s_integer i) y \<Longrightarrow> wf_py y"
  "checked s_boolean y \<Longrightarrow> wf_py y" "checked (s_text E n b) y \<Longrightarrow> wf_py y"
  "checked (s_identifier E b) y \<Longrightarrow> wf_py y" "checked (s_plan_id E b) y \<Longrightarrow> wf_py y"
  "checked (s_hash b) y \<Longrightarrow> wf_py y" "checked (s_repo_relative_path E b) y \<Longrightarrow> wf_py y"
  "checked (s_store_relative_path E) y \<Longrightarrow> wf_py y" "checked (s_timestamp E b) y \<Longrightarrow> wf_py y"
  "checked s_code y \<Longrightarrow> wf_py y"
  by (auto simp: checked_def s_enum_def s_integer_def s_boolean_def s_text_def s_identifier_def s_plan_id_def
      s_hash_def s_repo_relative_path_def s_store_relative_path_def s_timestamp_def s_code_def Let_def resE
      split: py.splits if_splits)

lemma checked_list_wf:
  "checked (s_text_list E m n) y \<Longrightarrow> wf_py y" "checked (s_code_list m) y \<Longrightarrow> wf_py y"
  "checked (s_path_list E m) y \<Longrightarrow> wf_py y"
proof -
  have code: "s_code v = Inr w \<Longrightarrow> wf_py w" for v w
    by (auto simp: s_code_def split: py.splits if_splits)
  show "checked (s_text_list E m n) y \<Longrightarrow> wf_py y"
    by (auto simp: checked_def s_text_list_def resE split: py.splits if_splits dest!: mapE_wf [OF s_text_wf, rotated])
  show "checked (s_code_list m) y \<Longrightarrow> wf_py y"
    by (auto simp: checked_def s_code_list_def resE split: py.splits if_splits dest!: mapE_wf [OF code, rotated])
  show "checked (s_path_list E m) y \<Longrightarrow> wf_py y"
    by (auto simp: checked_def s_path_list_def resE split: py.splits if_splits
        dest!: mapE_wf [OF s_repo_relative_path_wf, rotated])
qed

text \<open>Nested objects: a decision, the Git provenance, the validation table.\<close>

lemma s_unknown_keys_ok: "s_unknown_keys obj allowed = Inr u \<longleftrightarrow> keys obj \<subseteq> set allowed"
  by (auto simp: s_unknown_keys_def resE list_all_iff)

lemma s_decision_checked [stable]: "s_decision E v = Inr y \<Longrightarrow> checked (s_decision E) y"
  unfolding checked_def [of "s_decision E"]
  by (auto simp: s_decision_def resE s_object_def s_unknown_keys_ok dget_mk_dict checked_simps
      split: if_splits py.splits dest!: simple_checked mk_dict_keyD)

lemma s_git_checked [stable]: "s_git E v = Inr y \<Longrightarrow> checked (s_git E) y"
  unfolding checked_def [of "s_git E"]
  by (auto simp: s_git_def resE s_object_def s_unknown_keys_ok dget_mk_dict checked_simps
      split: if_splits py.splits dest!: simple_checked mk_dict_keyD)

lemma s_validation_items_iff:
  "s_validation_items d = Inr r \<longleftrightarrow>
     r = d \<and> (\<forall>kv\<in>set d. code_re (fst kv) \<and> checked (s_enum VALID_VALIDATION) (snd kv))"
proof (induction d arbitrary: r)
  case Nil
  then show ?case by auto
next
  case (Cons kv d)
  obtain k v where kv: "kv = (k, v)" by (cases kv)
  show ?case
    by (auto simp: kv resE Cons.IH checked_def split: if_splits dest: s_enum_id)
qed

lemma s_validation_checked [stable]: "s_validation v = Inr y \<Longrightarrow> checked s_validation y"
proof -
  assume "s_validation v = Inr y"
  then obtain d where d: "s_object v = Inr d" "length d \<le> 16" "s_validation_items d = Inr d" "y = PDict (mk_dict d)"
    by (auto simp: s_validation_def resE s_validation_items_iff split: if_splits)
  have "s_validation_items (mk_dict d) = Inr (mk_dict d)"
    using d(3) set_mk_dict [of d] by (auto simp: s_validation_items_iff)
  then show ?thesis
    using d length_mk_dict [of d] by (simp add: checked_def s_validation_def s_object_def mk_dict_id)
qed

lemma patch_fields_inv:
  "patch_fields obj cs acc = Inr r \<Longrightarrow> distinct (map fst cs) \<Longrightarrow>
     (dict_ok acc \<longrightarrow> dict_ok r)
   \<and> (\<forall>k. map_of cs k = None \<longrightarrow> map_of r k = map_of acc k)
   \<and> (\<forall>k f. map_of cs k = Some f \<longrightarrow>
        (case map_of obj k of None \<Rightarrow> map_of r k = map_of acc k
         | Some v \<Rightarrow> (\<exists>w. f v = Inr w \<and> map_of r k = Some w)))"
proof (induction obj cs acc rule: patch_fields.induct)
  case (1 obj acc)
  then show ?case by (auto split: option.splits)
next
  case (2 obj k check cs acc)
  from "2.prems"(1) obtain a where a: "patch_field obj k check acc = Inr a" "patch_fields obj cs a = Inr r"
    by (auto simp: resE)
  have IH: "(dict_ok a \<longrightarrow> dict_ok r) \<and> (\<forall>k. map_of cs k = None \<longrightarrow> map_of r k = map_of a k)
   \<and> (\<forall>k f. map_of cs k = Some f \<longrightarrow>
        (case map_of obj k of None \<Rightarrow> map_of r k = map_of a k
         | Some v \<Rightarrow> (\<exists>w. f v = Inr w \<and> map_of r k = Some w)))"
    using "2.IH" a "2.prems"(2) by simp
  have k: "map_of cs k = None" using "2.prems"(2) by (simp add: map_of_eq_None_iff)
  consider (none) "map_of obj k = None" "a = acc"
    | (some) v w where "map_of obj k = Some v" "check v = Inr w" "a = dset k w acc"
    using a(1) by (auto simp: patch_field_def resE split: option.splits)
  then show ?case
  proof cases
    case none
    with IH k show ?thesis by auto
  next
    case some
    have "case map_of obj k2 of None \<Rightarrow> map_of r k2 = map_of acc k2
         | Some v \<Rightarrow> (\<exists>w. f v = Inr w \<and> map_of r k2 = Some w)"
      if "map_of ((k, check) # cs) k2 = Some f" for k2 f
    proof (cases "k2 = k")
      case True
      with IH k some that show ?thesis by simp
    next
      case False
      with IH that have "case map_of obj k2 of None \<Rightarrow> map_of r k2 = map_of a k2
         | Some v \<Rightarrow> (\<exists>w. f v = Inr w \<and> map_of r k2 = Some w)" by simp
      with False some show ?thesis by (cases "map_of obj k2") auto
    qed
    moreover have "map_of r k2 = map_of acc k2" if "map_of ((k, check) # cs) k2 = None" for k2
      using that IH some by (auto split: if_splits)
    ultimately show ?thesis using IH some by (auto simp: dict_ok_dset)
  qed
qed

lemma patch_fields_total:
  "(\<And>k f v. (k, f) \<in> set cs \<Longrightarrow> map_of obj k = Some v \<Longrightarrow> \<exists>w. f v = Inr w)
   \<Longrightarrow> \<exists>r. patch_fields obj cs acc = Inr r"
proof (induction obj cs acc rule: patch_fields.induct)
  case (1 obj acc)
  then show ?case by simp
next
  case (2 obj k check cs acc)
  have "\<exists>a. patch_field obj k check acc = Inr a"
    using "2.prems" [of k check] by (auto simp: patch_field_def split: option.splits)
  then obtain a where a: "patch_field obj k check acc = Inr a" by blast
  have "\<exists>r. patch_fields obj cs a = Inr r" using "2.prems" by (intro "2.IH") auto
  with a show ?case by auto
qed

lemma patch_checks_keys: "map fst (patch_checks E) = STATE_PATCH_KEYS"
  by (simp add: patch_checks_def STATE_PATCH_KEYS_def)

lemma distinct_patch_keys: "distinct STATE_PATCH_KEYS"
  by (simp add: STATE_PATCH_KEYS_def)

lemma patch_check_stable:
  assumes "(k, f) \<in> set (patch_checks E)" "f v = Inr w"
  shows "f w = Inr w"
proof -
  have "checked f w"
    using assms unfolding patch_checks_def set_simps
    by (elim insertE emptyE) (simp_all, (erule stable)+)
  then show ?thesis by (simp add: checked_def)
qed

lemma s_git_wf: "s_git E v = Inr y \<Longrightarrow> wf_py y"
  by (auto simp: s_git_def resE simp del: wf_py.simps intro!: wf_mk_dict
      dest!: simple_checked intro: checked_wf)

lemma s_decision_wf: "s_decision E v = Inr y \<Longrightarrow> wf_py y"
  by (auto simp: s_decision_def resE simp del: wf_py.simps(2) intro!: wf_mk_dict split: if_splits
      dest!: simple_checked intro: checked_wf)

lemma s_validation_wf:
  assumes "s_validation v = Inr y"
  shows "wf_py y"
proof -
  obtain d where d: "s_object v = Inr d" "s_validation_items d = Inr d" "y = PDict (mk_dict d)"
    using assms by (auto simp: s_validation_def resE s_validation_items_iff split: if_splits)
  then have "list_all (\<lambda>kv. wf_py (snd kv)) d"
    using checked_wf(1) by (fastforce simp: s_validation_items_iff list_all_iff)
  with d(3) show ?thesis by (simp only: wf_mk_dict)
qed

lemmas nested_wf = s_git_wf s_decision_wf s_validation_wf

lemma patch_check_wf:
  assumes "(k, f) \<in> set (patch_checks E)" "f v = Inr w"
  shows "wf_py w"
  using assms unfolding patch_checks_def set_simps
  by (elim insertE emptyE)
    (simp_all, (erule nested_wf | (drule simple_checked, erule checked_wf checked_list_wf))+)

lemma s_state_patch_checked [stable]: "s_state_patch E v = Inr y \<Longrightarrow> checked (s_state_patch E) y"
proof -
  assume "s_state_patch E v = Inr y"
  then obtain obj r where r: "patch_fields obj (patch_checks E) [] = Inr r" "s_reject_red E r = Inr ()" "y = PDict r"
    by (auto simp: s_state_patch_def resE)
  have dist: "distinct (map fst (patch_checks E))"
    by (simp add: patch_checks_keys distinct_patch_keys)
  note inv = patch_fields_inv [OF r(1) dist]
  have ok: "dict_ok r" using inv by simp
  have sub: "keys r \<subseteq> set STATE_PATCH_KEYS"
  proof
    fix k assume "k \<in> keys r"
    then have "map_of r k \<noteq> None" by (rule iffD1 [OF keys_map_of])
    moreover have "map_of (patch_checks E) k = None \<Longrightarrow> map_of r k = None" using inv by simp
    ultimately have "map_of (patch_checks E) k \<noteq> None" by (cases "map_of (patch_checks E) k") simp_all
    then have "k \<in> fst ` set (patch_checks E)" by (simp only: map_of_eq_None_iff not_not)
    then show "k \<in> set STATE_PATCH_KEYS"
      by (simp only: patch_checks_keys [of E, symmetric] set_map)
  qed
  have bk: "f w = Inr w" if "(k, f) \<in> set (patch_checks E)" "map_of r k = Some w" for k f w
  proof -
    have "map_of (patch_checks E) k = Some f" using that(1) dist by simp
    then have "case map_of obj k of None \<Rightarrow> map_of r k = map_of [] k
         | Some v \<Rightarrow> (\<exists>w. f v = Inr w \<and> map_of r k = Some w)" using inv by blast
    with that(2) obtain v where "f v = Inr w" by (cases "map_of obj k") auto
    with that(1) show ?thesis by (rule patch_check_stable)
  qed
  then obtain r' where r': "patch_fields r (patch_checks E) [] = Inr r'"
    using patch_fields_total [of "patch_checks E" r "[]"] by blast
  note inv' = patch_fields_inv [OF r' dist]
  have "r' = r"
  proof (rule dict_ext)
    show "dict_ok r'" using inv' by simp
    show "dict_ok r" by (rule ok)
    fix k
    show "map_of r' k = map_of r k"
    proof (cases "map_of (patch_checks E) k")
      case None
      with inv inv' show ?thesis by simp
    next
      case (Some f)
      then have "case map_of r k of None \<Rightarrow> map_of r' k = map_of [] k
         | Some v \<Rightarrow> (\<exists>w. f v = Inr w \<and> map_of r' k = Some w)" using inv' by blast
      with bk [OF map_of_SomeD [OF Some]] show ?thesis
        by (cases "map_of r k") auto
    qed
  qed
  moreover have "length r \<le> length STATE_PATCH_KEYS" using ok sub by (rule dict_ok_length_le)
  moreover have "s_unknown_keys r STATE_PATCH_KEYS = Inr ()" using sub by (simp only: s_unknown_keys_ok)
  ultimately show ?thesis
    using r' r(2,3) by (simp add: checked_def s_state_patch_def s_object_def)
qed

lemma s_state_patch_wf:
  assumes "s_state_patch E v = Inr y"
  shows "wf_py y"
proof -
  obtain obj r where r: "patch_fields obj (patch_checks E) [] = Inr r" "y = PDict r"
    using assms by (auto simp: s_state_patch_def resE)
  have dist: "distinct (map fst (patch_checks E))"
    by (simp add: patch_checks_keys distinct_patch_keys)
  note inv = patch_fields_inv [OF r(1) dist]
  have ok: "dict_ok r" using inv by simp
  have "wf_py w" if kw: "(k, w) \<in> set r" for k w
  proof -
    from ok kw have rk: "map_of r k = Some w" by (simp add: dict_ok_def)
    have "map_of (patch_checks E) k = None \<Longrightarrow> map_of r k = None" using inv by simp
    with rk obtain f where f: "map_of (patch_checks E) k = Some f" by (cases "map_of (patch_checks E) k") auto
    have "case map_of obj k of None \<Rightarrow> map_of r k = map_of [] k
         | Some v \<Rightarrow> (\<exists>w. f v = Inr w \<and> map_of r k = Some w)"
      using inv f by blast
    with rk obtain v where "f v = Inr w" by (cases "map_of obj k") auto
    with map_of_SomeD [OF f] show ?thesis by (rule patch_check_wf)
  qed
  with ok r(2) show ?thesis by (auto simp: list_all_iff)
qed

end
