(* ===== verification/SchemaWf.thy ===== *)
theory SchemaWf
  imports Schema
begin

text \<open>
  The records of \<open>implementation_store/schema.py\<close> as the validators leave them.
  A record kind is a table of fields and field validators; a record is
  well-formed when it has exactly those fields, each accepted unchanged by its
  validator, and its hashes, size and sensitivity conditions hold.  For every
  record kind: the validator returns well-formed records only, accepts every
  well-formed record as it is, and such a record is a JSON value whose text
  parses back to it.
\<close>

section \<open>Well-formed records\<close>

text \<open>
  A record is well-formed when it has exactly the keys of its schema, every
  field passes its own validator unchanged, and the hash, sensitivity and size
  conditions hold.  \<open>validate_state\<close> returns well-formed states only, and
  accepts every well-formed state.
\<close>

definition state_table :: "env \<Rightarrow> (string \<times> (py \<Rightarrow> py res)) list" where
  "state_table E = [
     (''plan_id'', s_plan_id E False), (''plan_path'', s_repo_relative_path E True),
     (''generation'', s_integer 0), (''status'', s_enum VALID_STATUSES),
     (''classification'', s_enum VALID_CLASSIFICATIONS), (''phase'', s_text E 160 True),
     (''objective'', s_text E 480 True), (''next_action'', s_text E 400 True),
     (''latest_decision'', s_decision E), (''open_blockers'', s_text_list E 8 400),
     (''open_questions'', s_text_list E 8 400), (''validation'', s_validation),
     (''active_files'', s_path_list E 16), (''last_operation_id'', s_identifier E True),
     (''last_event_sequence'', s_integer 0), (''last_event_hash'', s_hash True), (''git'', s_git E),
     (''writer_session_id'', s_identifier E True), (''model_family'', s_enum VALID_MODEL_FAMILIES),
     (''model_source'', s_enum VALID_MODEL_SOURCES), (''model_verified'', s_boolean),
     (''origin'', s_text E 80 False), (''intent'', s_text E 80 False),
     (''created_at'', s_timestamp E True), (''updated_at'', s_timestamp E True)]"

definition fields_ok :: "(string \<times> (py \<Rightarrow> py res)) list \<Rightarrow> pdict \<Rightarrow> bool" where
  "fields_ok tab n = list_all (\<lambda>(k, f). checked f (dget n k PNone)) tab"

definition state_wf :: "env \<Rightarrow> nat \<Rightarrow> pdict \<Rightarrow> bool" where
  "state_wf E hard_limit n =
     (dict_ok n \<and> keys n = set STATE_KEYS \<and> dget n ''schema_version'' PNone = PInt 1
      \<and> fields_ok (state_table E) n
      \<and> dget n ''semantic_hash'' PNone = PStr (state_semantic_hash E n)
      \<and> \<not> env_red E (canonical_json (PDict n)) \<and> encoded_size (PDict n) \<le> hard_limit)"

lemma semantic_hash_dset:
  "dict_ok d \<Longrightarrow> k \<in> set OBSERVATIONAL_KEYS \<Longrightarrow> state_semantic_hash E (dset k v d) = state_semantic_hash E d"
  by (simp add: state_semantic_hash_def ddels_dset)

lemma expect_plan_ok: "expect_plan ex p = Inr u \<longleftrightarrow> (\<forall>x. ex = Some x \<longrightarrow> p = PStr x)"
  by (cases ex) (auto simp: expect_plan_def resE)

lemma fields_ok_cong:
  "(\<And>k. k \<in> fst ` set tab \<Longrightarrow> dget n k PNone = dget m k PNone) \<Longrightarrow> fields_ok tab n = fields_ok tab m"
  by (fastforce simp: fields_ok_def list_all_iff)

lemma state_wf_build:
  assumes "distinct (map fst e)" "fst ` set e = set STATE_KEYS"
    and "dget e ''schema_version'' PNone = PInt 1" "fields_ok (state_table E) e"
    and n: "n = dset ''semantic_hash'' (PStr (state_semantic_hash E (mk_dict e))) (mk_dict e)"
    and "\<not> env_red E (canonical_json (PDict n))" "encoded_size (PDict n) \<le> hl"
  shows "state_wf E hl n"
proof -
  have get: "dget n k PNone = dget e k PNone" if "k \<noteq> ''semantic_hash''" for k
    using that assms(1) by (simp add: n dget_dset dget_mk_dict)
  have "fields_ok (state_table E) n = fields_ok (state_table E) e"
    by (rule fields_ok_cong, rule get) (auto simp: state_table_def)
  moreover have "dget n ''schema_version'' PNone = PInt 1"
    using assms(3) by (subst get) simp_all
  moreover have "keys n = set STATE_KEYS"
    using assms(2) by (auto simp: n STATE_KEYS_def)
  moreover have "dget n ''semantic_hash'' PNone = PStr (state_semantic_hash E n)"
    by (simp add: n dget_dset semantic_hash_dset OBSERVATIONAL_KEYS_def)
  ultimately show ?thesis
    using assms(4,6,7) by (simp add: state_wf_def) (simp add: n dict_ok_dset)
qed

lemma validate_state_wf:
  assumes "validate_state E ex hl st = Inr n"
  shows "state_wf E hl n" "expect_plan ex (dget n ''plan_id'' PNone) = Inr ()"
proof -
  have "state_wf E hl n \<and> expect_plan ex (dget n ''plan_id'' PNone) = Inr ()"
    using assms unfolding validate_state_def Let_def bindE_eq_Inr guardE_eq_Inr s_reject_red_def sum.inject
    apply (elim exE conjE)
    apply (frule s_repo_relative_path_id)
    apply (drule stable)+
    apply (hypsubst)
    apply (rule conjI)
     apply (rule state_wf_build [OF _ _ _ _ refl])
    by (simp_all add: fields_ok_def state_table_def STATE_KEYS_def dget_dset dget_mk_dict)
  then show "state_wf E hl n" "expect_plan ex (dget n ''plan_id'' PNone) = Inr ()" by auto
qed

text \<open>The converse: a well-formed record passes, and comes back as it is.\<close>

lemma fields_okD: "fields_ok tab n \<Longrightarrow> (k, f) \<in> set tab \<Longrightarrow> f (dget n k PNone) = Inr (dget n k PNone)"
  by (auto simp: fields_ok_def list_all_iff checked_def)

lemma s_hash_digest: "digest_fn (env_sha E) \<Longrightarrow> s_hash b (PStr (digest E v)) = Inr (PStr (digest E v))"
  by (simp add: s_hash_def digest_def hash_re_def starts_with_def digest_fn.sha_length digest_fn.sha_hex)

lemma validate_state_accepts:
  assumes sha: "digest_fn (env_sha E)" and wf: "state_wf E hl n" and ex: "expect_plan ex (dget n ''plan_id'' PNone) = Inr ()"
  shows "validate_state E ex hl (PDict n) = Inr n"
proof -
  define g where "g k = dget n k PNone" for k
  have ok: "dict_ok n" and ks: "keys n = set STATE_KEYS" using wf by (auto simp: state_wf_def)
  have get: "dget n k x = g k" if "k \<in> set STATE_KEYS" for k x
    using that dget_present [of k n x PNone] by (simp add: g_def ks)
  have fields: "list_all (\<lambda>(k, f). f (g k) = Inr (g k)) (state_table E)"
    using wf by (auto simp: state_wf_def g_def list_all_iff dest: fields_okD)
  have sv: "g ''schema_version'' = PInt 1" and sh: "g ''semantic_hash'' = PStr (state_semantic_hash E n)"
    using wf by (auto simp: state_wf_def g_def)
  define m where "m = dset ''semantic_hash'' (PStr []) n"
  have hm: "state_semantic_hash E m = state_semantic_hash E n"
    using ok by (simp add: m_def semantic_hash_dset OBSERVATIONAL_KEYS_def)
  have bk: "dset ''semantic_hash'' (PStr (state_semantic_hash E n)) m = n"
    using ok sh ks map_of_present [of "''semantic_hash''" n PNone]
    by (simp add: m_def dset_dset dset_same STATE_KEYS_def g_def)
  have mat: "mk_dict e = m"
    if "distinct (map fst e)" "set (map fst e) = set STATE_KEYS"
      "list_all (\<lambda>(k, v). (if k = ''semantic_hash'' then PStr [] else g k) = v) e" for e
  proof (rule mk_dict_eqI)
    show "dict_ok m" using ok by (simp add: m_def dict_ok_dset)
    show "set (map fst e) = keys m" using that(2) ks by (auto simp: m_def STATE_KEYS_def)
    show "list_all (\<lambda>(k, v). dget m k PNone = v) e"
      using that(3) by (auto simp: m_def dget_dset g_def list_all_iff)
  qed (fact that(1))
  have unk: "s_unknown_keys n STATE_KEYS = Inr ()" using ks by (simp add: s_unknown_keys_ok)
  have sver: "s_schema_version n = Inr ()"
    using sv by (simp add: s_schema_version_def get STATE_KEYS_def)
  have lim: "\<not> env_red E (canonical_json (PDict n))" "encoded_size (PDict n) \<le> hl"
    using wf by (auto simp: state_wf_def)
  have ex': "expect_plan ex (g ''plan_id'') = Inr ()" using ex by (simp add: g_def)
  have shash: "s_hash True (g ''semantic_hash'') = Inr (g ''semantic_hash'')"
    by (simp add: sh state_semantic_hash_def s_hash_digest sha)
  note fs = fields [unfolded state_table_def list.pred_inject simp_thms prod.case]
  have flow: "validate_state E ex hl (PDict n) = Inr (dset ''semantic_hash'' (PStr (state_semantic_hash E m)) m)"
    unfolding validate_state_def
    apply (simp only: s_object_def py.case bindE_Inr sver unk)
    apply (simp add: get STATE_KEYS_def fs ex' shash)
    apply (subst mat, simp, simp add: STATE_KEYS_def insert_commute, simp add: sv)
    by (simp add: Let_def hm bk sh s_reject_red_def lim not_less [THEN iffD2] del: canonical_json.simps)
  then show ?thesis by (simp add: hm bk)
qed

section \<open>Events\<close>

definition event_table :: "env \<Rightarrow> bool \<Rightarrow> bool \<Rightarrow> (string \<times> (py \<Rightarrow> py res)) list" where
  "event_table E unplanned allow_unhashed = [
     (''sequence'', s_integer 1), (''event_id'', s_identifier E False),
     (''operation_id'', s_identifier E False), (''timestamp'', s_timestamp E False),
     (''kind'', s_enum MATERIAL_EVENT_KINDS), (''plan_id'', s_plan_id E unplanned),
     (''plan_path'', s_repo_relative_path E True), (''summary'', s_text E 400 True),
     (''reason'', s_text E 400 True), (''next_action'', s_text E 400 True),
     (''status'', s_enum VALID_STATUSES), (''classification'', s_enum VALID_CLASSIFICATIONS),
     (''phase'', s_text E 160 True), (''references'', s_path_list E 8),
     (''evidence_codes'', s_code_list 8), (''git'', s_git E),
     (''writer_session_id'', s_identifier E True), (''model_family'', s_enum VALID_MODEL_FAMILIES),
     (''model_source'', s_enum VALID_MODEL_SOURCES), (''model_verified'', s_boolean),
     (''origin'', s_text E 80 False), (''intent'', s_text E 80 False),
     (''state_patch'', s_state_patch E), (''operation_payload_hash'', s_hash True),
     (''state_semantic_hash'', s_hash True), (''previous_event_hash'', s_hash True),
     (''record_hash'', s_hash allow_unhashed)]"

definition event_limit :: "bool \<Rightarrow> nat \<Rightarrow> nat" where
  "event_limit unplanned hard_limit = (if hard_limit \<noteq> 0 then hard_limit
     else if unplanned then UNPLANNED_EVENT_HARD_LIMIT_BYTES else EVENT_HARD_LIMIT_BYTES)"

definition event_wf :: "env \<Rightarrow> bool \<Rightarrow> nat \<Rightarrow> bool \<Rightarrow> pdict \<Rightarrow> bool" where
  "event_wf E unplanned hard_limit allow_unhashed n =
     (dict_ok n \<and> keys n = set EVENT_KEYS \<and> dget n ''schema_version'' PNone = PInt 1
      \<and> fields_ok (event_table E unplanned allow_unhashed) n
      \<and> (unplanned \<longrightarrow> dget n ''kind'' PNone = PStr ''loose_commit_recorded'')
      \<and> (truthy (dget n ''record_hash'' PNone) \<longrightarrow> dget n ''record_hash'' PNone = PStr (event_record_hash E n))
      \<and> (allow_unhashed \<or> truthy (dget n ''record_hash'' PNone))
      \<and> \<not> env_red E (canonical_json (PDict n))
      \<and> encoded_size (PDict n) \<le> event_limit unplanned hard_limit)"

lemma event_wf_build:
  assumes "distinct (map fst e)" "fst ` set e = set EVENT_KEYS"
    and "dget e ''schema_version'' PNone = PInt 1" "fields_ok (event_table E u a) e"
    and n: "n = mk_dict e"
    and "u \<longrightarrow> dget e ''kind'' PNone = PStr ''loose_commit_recorded''"
    and "truthy (dget e ''record_hash'' PNone) \<longrightarrow> dget e ''record_hash'' PNone = PStr (event_record_hash E n)"
    and "a \<or> truthy (dget e ''record_hash'' PNone)"
    and "\<not> env_red E (canonical_json (PDict n))" "encoded_size (PDict n) \<le> event_limit u hl"
  shows "event_wf E u hl a n"
proof -
  have get: "dget n k x = dget e k x" for k x
    using assms(1) by (simp add: n dget_mk_dict)
  have "fields_ok (event_table E u a) n = fields_ok (event_table E u a) e"
    by (rule fields_ok_cong, rule get)
  moreover have "dict_ok n" "keys n = set EVENT_KEYS" using assms(2) by (auto simp: n)
  ultimately show ?thesis
    using assms(3,4,6-10) by (simp add: event_wf_def get del: canonical_json.simps)
qed

lemma validate_event_wf:
  assumes "validate_event E ex u hl a ev = Inr n"
  shows "event_wf E u hl a n" "expect_plan ex (dget n ''plan_id'' PNone) = Inr ()"
proof -
  have "event_wf E u hl a n \<and> expect_plan ex (dget n ''plan_id'' PNone) = Inr ()"
    using assms
    unfolding validate_event_def event_limit_def [symmetric] Let_def bindE_eq_Inr guardE_eq_Inr
      s_reject_red_def sum.inject
    apply (elim exE conjE)
    apply (drule stable)+
    apply (hypsubst)
    apply (rule conjI)
     apply (rule event_wf_build [OF _ _ _ _ refl])
    by (simp_all add: fields_ok_def event_table_def EVENT_KEYS_def dget_mk_dict del: canonical_json.simps)
  then show "event_wf E u hl a n" "expect_plan ex (dget n ''plan_id'' PNone) = Inr ()" by auto
qed

lemma validate_event_accepts:
  assumes wf: "event_wf E u hl a n" and ex: "expect_plan ex (dget n ''plan_id'' PNone) = Inr ()"
  shows "validate_event E ex u hl a (PDict n) = Inr n"
proof -
  define g where "g k = dget n k PNone" for k
  have ok: "dict_ok n" and ks: "keys n = set EVENT_KEYS" using wf by (auto simp: event_wf_def)
  have get: "dget n k x = g k" if "k \<in> set EVENT_KEYS" for k x
    using that dget_present [of k n x PNone] by (simp add: g_def ks)
  have fields: "list_all (\<lambda>(k, f). f (g k) = Inr (g k)) (event_table E u a)"
    using wf by (auto simp: event_wf_def g_def list_all_iff dest: fields_okD)
  have sv: "g ''schema_version'' = PInt 1"
    and kind: "\<not> (u \<and> g ''kind'' \<noteq> PStr ''loose_commit_recorded'')"
    and rh: "\<not> (truthy (g ''record_hash'') \<and> g ''record_hash'' \<noteq> PStr (event_record_hash E n))"
    and uh: "\<not> (\<not> a \<and> \<not> truthy (g ''record_hash''))"
    and lim: "\<not> env_red E (canonical_json (PDict n))" "\<not> encoded_size (PDict n) > event_limit u hl"
    using wf by (auto simp: event_wf_def g_def)
  have mat: "mk_dict e = n"
    if "distinct (map fst e)" "set (map fst e) = set EVENT_KEYS" "list_all (\<lambda>(k, v). g k = v) e" for e
  proof (rule mk_dict_eqI)
    show "set (map fst e) = keys n" using that(2) by (simp add: ks)
    show "list_all (\<lambda>(k, v). dget n k PNone = v) e" using that(3) by (simp add: g_def)
  qed (fact ok that(1))+
  have unk: "s_unknown_keys n EVENT_KEYS = Inr ()" using ks by (simp add: s_unknown_keys_ok)
  have sver: "s_schema_version n = Inr ()"
    using sv by (simp add: s_schema_version_def get EVENT_KEYS_def)
  have ex': "expect_plan ex (g ''plan_id'') = Inr ()" using ex by (simp add: g_def)
  note fs = fields [unfolded event_table_def list.pred_inject simp_thms prod.case]
  show ?thesis
    unfolding validate_event_def event_limit_def [symmetric]
    apply (simp only: s_object_def py.case bindE_Inr sver unk)
    apply (simp add: get EVENT_KEYS_def fs ex' kind uh)
    apply (subst mat, simp, simp add: EVENT_KEYS_def insert_commute, simp add: sv)
    by (simp only: Let_def s_reject_red_def lim rh guardE_False bindE_Inr)
qed

end
