(* ===== verification/SchemaRecords.thy ===== *)
theory SchemaRecords
  imports SchemaWf
begin

text \<open>
  The manifest and the context ledger record of \<open>implementation_store/schema.py\<close>,
  in the same form as \<open>SchemaWf\<close>, and the interface the store relies on: a
  validator that accepts what it returned and returns JSON values only, so that
  a record survives being written as text and read back.
\<close>

section \<open>The manifest\<close>

definition pointer_table :: "env \<Rightarrow> (string \<times> (py \<Rightarrow> py res)) list" where
  "pointer_table E = [
     (''plan_id'', s_plan_id E False), (''plan_path'', s_repo_relative_path E True),
     (''state_path'', s_store_relative_path E), (''status'', s_enum VALID_STATUSES),
     (''branch'', s_text E 240 True), (''workspace_instance_id'', s_identifier E True),
     (''semantic_hash'', s_hash True), (''last_event_sequence'', s_integer 0)]"

definition pointer_wf :: "env \<Rightarrow> pdict \<Rightarrow> bool" where
  "pointer_wf E n = (dict_ok n \<and> keys n = fst ` set (pointer_table E) \<and> fields_ok (pointer_table E) n)"

lemma validate_pointer_wf:
  assumes "validate_pointer E v = Inr n"
  shows "pointer_wf E n"
proof -
  have dist: "distinct (map fst (pointer_table E))" by (simp add: pointer_table_def)
  show ?thesis
    using assms unfolding validate_pointer_def bindE_eq_Inr sum.inject
    apply (elim exE conjE)
    apply (drule stable)+
    apply (hypsubst)
    by (simp add: pointer_wf_def fields_ok_def pointer_table_def dget_mk_dict)
qed

lemma validate_pointer_accepts:
  assumes wf: "pointer_wf E n"
  shows "validate_pointer E (PDict n) = Inr n"
proof -
  define g where "g k = dget n k PNone" for k
  have ok: "dict_ok n" and ks: "keys n = fst ` set (pointer_table E)" using wf by (auto simp: pointer_wf_def)
  have get: "dget n k x = g k" if "k \<in> fst ` set (pointer_table E)" for k x
    using that dget_present [of k n x PNone] by (simp add: g_def ks)
  have fields: "list_all (\<lambda>(k, f). f (g k) = Inr (g k)) (pointer_table E)"
    using wf by (auto simp: pointer_wf_def g_def list_all_iff dest: fields_okD)
  have mat: "mk_dict e = n"
    if "distinct (map fst e)" "set (map fst e) = fst ` set (pointer_table E)" "list_all (\<lambda>(k, v). g k = v) e" for e
  proof (rule mk_dict_eqI)
    show "set (map fst e) = keys n" using that(2) by (simp add: ks)
    show "list_all (\<lambda>(k, v). dget n k PNone = v) e" using that(3) by (simp add: g_def)
  qed (fact ok that(1))+
  note fs = fields [unfolded pointer_table_def list.pred_inject simp_thms prod.case]
  have unk: "s_unknown_keys n [''plan_id'', ''plan_path'', ''state_path'', ''status'', ''branch'',
       ''workspace_instance_id'', ''semantic_hash'', ''last_event_sequence''] = Inr ()"
    by (simp add: s_unknown_keys_ok ks pointer_table_def)
  show ?thesis
    unfolding validate_pointer_def
    apply (simp only: s_object_def py.case bindE_Inr unk)
    apply (simp add: get pointer_table_def fs)
    by (rule mat) (simp_all add: pointer_table_def insert_commute)
qed

definition pointer_of :: "py \<Rightarrow> string \<Rightarrow> py" where
  "pointer_of v k = dget (dict_of v) k PNone"

lemma validate_pointers_wf:
  "validate_pointers E seen items = Inr ps \<Longrightarrow>
     length ps = length items \<and> list_all (\<lambda>v. \<exists>p. v = PDict p \<and> pointer_wf E p) ps
     \<and> distinct (map (\<lambda>v. pointer_of v ''plan_id'') ps)
     \<and> (\<lambda>v. pointer_of v ''plan_id'') ` set ps \<inter> set seen = {}"
proof (induction E seen items arbitrary: ps rule: validate_pointers.induct)
  case (1 E seen)
  then show ?case by simp
next
  case (2 E seen item items)
  then obtain p qs where p: "validate_pointer E item = Inr p"
    and new: "dget p ''plan_id'' PNone \<notin> set seen"
    and qs: "validate_pointers E (dget p ''plan_id'' PNone # seen) items = Inr qs" and ps: "ps = PDict p # qs"
    by (auto simp: resE Let_def split: if_splits)
  note IH = "2.IH" [OF refl new qs]
  have "pointer_wf E p" using p by (rule validate_pointer_wf)
  with IH new show ?case by (auto simp: ps pointer_of_def)
qed

lemma validate_pointers_accepts:
  "list_all (\<lambda>v. \<exists>p. v = PDict p \<and> pointer_wf E p) ps \<Longrightarrow> distinct (map (\<lambda>v. pointer_of v ''plan_id'') ps)
   \<Longrightarrow> (\<lambda>v. pointer_of v ''plan_id'') ` set ps \<inter> set seen = {} \<Longrightarrow> validate_pointers E seen ps = Inr ps"
proof (induction ps arbitrary: seen)
  case Nil
  then show ?case by simp
next
  case (Cons v ps)
  then obtain p where p: "v = PDict p" "pointer_wf E p" by auto
  have "validate_pointers E (dget p ''plan_id'' PNone # seen) ps = Inr ps"
    using Cons p by (intro Cons.IH) (auto simp: pointer_of_def)
  moreover have "dget p ''plan_id'' PNone \<notin> set seen" using Cons.prems(3) p(1) by (auto simp: pointer_of_def)
  ultimately show ?case using p by (simp add: validate_pointer_accepts)
qed

definition manifest_wf :: "env \<Rightarrow> nat \<Rightarrow> pdict \<Rightarrow> bool" where
  "manifest_wf E hard_limit n =
     (dict_ok n \<and> keys n = {''schema_version'', ''canonical_repo_identity'', ''generation'', ''plans''}
      \<and> dget n ''schema_version'' PNone = PInt 1
      \<and> checked (s_identifier E True) (dget n ''canonical_repo_identity'' PNone)
      \<and> checked (s_integer 0) (dget n ''generation'' PNone)
      \<and> (\<exists>ps. dget n ''plans'' PNone = PList ps \<and> length ps \<le> 64
            \<and> list_all (\<lambda>v. \<exists>p. v = PDict p \<and> pointer_wf E p) ps
            \<and> distinct (map (\<lambda>v. pointer_of v ''plan_id'') ps))
      \<and> \<not> env_red E (canonical_json (PDict n)) \<and> encoded_size (PDict n) \<le> hard_limit)"

lemma plans_case:
  "(case v of PList xs \<Rightarrow> if n < length xs then Inl SchemaError else Inr xs | _ \<Rightarrow> Inl SchemaError) = Inr r
   \<longleftrightarrow> v = PList r \<and> length r \<le> n"
  by (cases v) auto

lemma validate_manifest_wf:
  assumes "validate_manifest E hl m = Inr n"
  shows "manifest_wf E hl n"
proof -
  obtain obj identity generation raw plans where
    id: "s_identifier E True (dget obj ''canonical_repo_identity'' (PStr [])) = Inr identity"
    and gen: "s_integer 0 (dget obj ''generation'' (PInt 0)) = Inr generation"
    and raw: "length raw \<le> 64" and plans: "validate_pointers E [] raw = Inr plans"
    and n: "n = mk_dict [(''schema_version'', PInt 1), (''canonical_repo_identity'', identity),
       (''generation'', generation), (''plans'', PList plans)]"
    and red: "\<not> env_red E (canonical_json (PDict n))" and lim: "encoded_size (PDict n) \<le> hl"
    using assms
    by (auto simp: validate_manifest_def Let_def resE s_reject_red_def plans_case simp del: canonical_json.simps)
  have "keys n = {''schema_version'', ''canonical_repo_identity'', ''generation'', ''plans''}" by (simp add: n)
  moreover have "dict_ok n" by (simp add: n)
  moreover have "dget n ''schema_version'' PNone = PInt 1" "dget n ''canonical_repo_identity'' PNone = identity"
    "dget n ''generation'' PNone = generation" "dget n ''plans'' PNone = PList plans"
    by (simp_all add: n dget_mk_dict)
  ultimately show ?thesis
    using validate_pointers_wf [OF plans] raw red lim stable(5) [OF id] stable(2) [OF gen]
    by (simp add: manifest_wf_def simple_checked(2) [OF gen] simple_checked(5) [OF id] del: canonical_json.simps)
qed

lemma validate_manifest_accepts:
  assumes wf: "manifest_wf E hl n"
  shows "validate_manifest E hl (PDict n) = Inr n"
proof -
  define g where "g k = dget n k PNone" for k
  have ok: "dict_ok n"
    and ks: "keys n = {''schema_version'', ''canonical_repo_identity'', ''generation'', ''plans''}"
    using wf unfolding manifest_wf_def by blast+
  have get: "dget n k x = g k"
    if "k \<in> {''schema_version'', ''canonical_repo_identity'', ''generation'', ''plans''}" for k x
    using that dget_present [of k n x PNone] by (simp add: g_def ks)
  obtain ps where p: "dget n ''plans'' PNone = PList ps" "length ps \<le> 64"
    "list_all (\<lambda>v. \<exists>p. v = PDict p \<and> pointer_wf E p) ps" "distinct (map (\<lambda>v. pointer_of v ''plan_id'') ps)"
    using wf unfolding manifest_wf_def by blast
  have ps: "g ''plans'' = PList ps" "\<not> length ps > 64" "validate_pointers E [] ps = Inr ps"
    using p(1,2) validate_pointers_accepts [OF p(3,4), of "[]"] by (simp_all add: g_def)
  have sv: "g ''schema_version'' = PInt 1"
    and fs: "s_identifier E True (g ''canonical_repo_identity'') = Inr (g ''canonical_repo_identity'')"
      "s_integer 0 (g ''generation'') = Inr (g ''generation'')"
    and lim: "\<not> env_red E (canonical_json (PDict n))" "\<not> encoded_size (PDict n) > hl"
    using wf unfolding manifest_wf_def g_def checked_def not_less by blast+
  have mat: "mk_dict [(''schema_version'', PInt 1), (''canonical_repo_identity'', g ''canonical_repo_identity''),
       (''generation'', g ''generation''), (''plans'', PList ps)] = n"
    by (rule mk_dict_eqI) (simp_all add: ok ks sv [unfolded g_def] ps(1) [unfolded g_def] g_def)
  have unk: "s_unknown_keys n [''schema_version'', ''canonical_repo_identity'', ''generation'', ''plans''] = Inr ()"
    by (simp add: s_unknown_keys_ok ks)
  have sver: "s_schema_version n = Inr ()" using sv by (simp add: s_schema_version_def get)
  show ?thesis
    unfolding validate_manifest_def
    apply (simp only: s_object_def py.case bindE_Inr unk sver)
    apply (simp add: get fs ps)
    by (simp only: mat Let_def s_reject_red_def lim guardE_False bindE_Inr)
qed

section \<open>The context ledger record\<close>

definition ledger_table :: "env \<Rightarrow> (string \<times> (py \<Rightarrow> py res)) list" where
  "ledger_table E = [
     (''project_id'', s_identifier E False), (''workspace_instance_id'', s_identifier E False),
     (''session_id'', s_identifier E False), (''context_epoch'', s_identifier E False),
     (''plan_id'', s_plan_id E False), (''progress_generation'', s_integer 0),
     (''capsule_kind'', s_enum VALID_CAPSULE_KINDS), (''emission_id'', s_identifier E False)]"

definition ledger_wf :: "env \<Rightarrow> nat \<Rightarrow> pdict \<Rightarrow> bool" where
  "ledger_wf E hard_limit n =
     (dict_ok n \<and> keys n = set CONTEXT_LEDGER_KEYS \<and> dget n ''schema_version'' PNone = PInt 1
      \<and> fields_ok (ledger_table E) n
      \<and> \<not> env_red E (canonical_json (PDict n)) \<and> encoded_size (PDict n) + 1 \<le> hard_limit)"

lemma validate_ledger_wf:
  assumes "validate_context_ledger_record E hl r = Inr n"
  shows "ledger_wf E hl n"
  using assms
  unfolding validate_context_ledger_record_def Let_def bindE_eq_Inr guardE_eq_Inr s_reject_red_def sum.inject
  apply (elim exE conjE)
  apply (drule stable)+
  apply (hypsubst)
  by (simp add: ledger_wf_def fields_ok_def ledger_table_def CONTEXT_LEDGER_KEYS_def insert_commute dget_mk_dict
      del: canonical_json.simps)

lemma validate_ledger_accepts:
  assumes wf: "ledger_wf E hl n"
  shows "validate_context_ledger_record E hl (PDict n) = Inr n"
proof -
  define g where "g k = dget n k PNone" for k
  have ok: "dict_ok n" and ks: "keys n = set CONTEXT_LEDGER_KEYS" using wf by (auto simp: ledger_wf_def)
  have get: "dget n k x = g k" if "k \<in> set CONTEXT_LEDGER_KEYS" for k x
    using that dget_present [of k n x PNone] by (simp add: g_def ks)
  have fields: "list_all (\<lambda>(k, f). f (g k) = Inr (g k)) (ledger_table E)"
    using wf by (auto simp: ledger_wf_def g_def list_all_iff dest: fields_okD)
  have mat: "mk_dict e = n"
    if "distinct (map fst e)" "set (map fst e) = set CONTEXT_LEDGER_KEYS" "list_all (\<lambda>(k, v). g k = v) e" for e
  proof (rule mk_dict_eqI)
    show "set (map fst e) = keys n" using that(2) by (simp add: ks)
    show "list_all (\<lambda>(k, v). dget n k PNone = v) e" using that(3) by (simp add: g_def)
  qed (fact ok that(1))+
  note fs = fields [unfolded ledger_table_def list.pred_inject simp_thms prod.case]
  have sv: "g ''schema_version'' = PInt 1"
    and lim: "\<not> env_red E (canonical_json (PDict n))" "\<not> encoded_size (PDict n) + 1 > hl"
    using wf by (simp_all add: ledger_wf_def g_def del: canonical_json.simps)
  have unk: "s_unknown_keys n CONTEXT_LEDGER_KEYS = Inr ()" using ks by (simp add: s_unknown_keys_ok)
  have sver: "s_schema_version n = Inr ()" using sv by (simp add: s_schema_version_def get CONTEXT_LEDGER_KEYS_def)
  show ?thesis
    unfolding validate_context_ledger_record_def
    apply (simp only: s_object_def py.case bindE_Inr unk sver)
    apply (simp add: get CONTEXT_LEDGER_KEYS_def fs)
    apply (subst mat, simp, simp add: CONTEXT_LEDGER_KEYS_def insert_commute, simp add: sv)
    using lim by (simp add: Let_def s_reject_red_def del: canonical_json.simps)
qed

section \<open>Records are JSON values\<close>

lemma fields_wf_py:
  assumes "dict_ok n" "fields_ok tab n" "keys n \<subseteq> fst ` set tab \<union> S"
    and "\<And>k f y. (k, f) \<in> set tab \<Longrightarrow> checked f y \<Longrightarrow> wf_py y"
    and "\<And>k. k \<in> S \<Longrightarrow> wf_py (dget n k PNone)"
  shows "wf_py (PDict n)"
proof -
  have "wf_py v" if "(k, v) \<in> set n" for k v
  proof -
    have v: "v = dget n k PNone" using assms(1) that by (simp add: dget_def dict_ok_def)
    from that assms(3) have "k \<in> fst ` set tab \<or> k \<in> S" by force
    then show ?thesis
    proof
      assume "k \<in> fst ` set tab"
      then obtain f where f: "(k, f) \<in> set tab" by auto
      with fields_okD [OF assms(2) f] have "checked f v" by (simp add: checked_def v)
      with f show ?thesis by (rule assms(4))
    qed (simp add: v assms(5))
  qed
  with assms(1) show ?thesis by (auto simp: list_all_iff)
qed

lemma checked_nested_wf:
  "checked s_validation y \<Longrightarrow> wf_py y" "checked (s_git E) y \<Longrightarrow> wf_py y"
  "checked (s_decision E) y \<Longrightarrow> wf_py y" "checked (s_state_patch E) y \<Longrightarrow> wf_py y"
  by (auto simp: checked_def intro: nested_wf s_state_patch_wf)

lemma state_wf_json: "state_wf E hl n \<Longrightarrow> wf_py (PDict n)"
proof (rule fields_wf_py [of _ "state_table E" "{''schema_version'', ''semantic_hash''}"])
  assume wf: "state_wf E hl n"
  show "dict_ok n" "fields_ok (state_table E) n" using wf by (auto simp: state_wf_def)
  show "keys n \<subseteq> fst ` set (state_table E) \<union> {''schema_version'', ''semantic_hash''}"
    using wf by (simp add: state_wf_def state_table_def STATE_KEYS_def)
  show "wf_py y" if "(k, f) \<in> set (state_table E)" "checked f y" for k f y
    using that unfolding state_table_def set_simps
    by (elim insertE emptyE) (simp_all, (erule checked_wf checked_list_wf checked_nested_wf)+)
  show "wf_py (dget n k PNone)" if "k \<in> {''schema_version'', ''semantic_hash''}" for k
    using that wf by (auto simp: state_wf_def)
qed

lemma event_wf_json: "event_wf E u hl a n \<Longrightarrow> wf_py (PDict n)"
proof (rule fields_wf_py [of _ "event_table E u a" "{''schema_version''}"])
  assume wf: "event_wf E u hl a n"
  show "dict_ok n" "fields_ok (event_table E u a) n" using wf by (auto simp: event_wf_def)
  show "keys n \<subseteq> fst ` set (event_table E u a) \<union> {''schema_version''}"
    using wf by (simp add: event_wf_def event_table_def EVENT_KEYS_def)
  show "wf_py y" if "(k, f) \<in> set (event_table E u a)" "checked f y" for k f y
    using that unfolding event_table_def set_simps
    by (elim insertE emptyE) (simp_all, (erule checked_wf checked_list_wf checked_nested_wf)+)
  show "wf_py (dget n k PNone)" if "k \<in> {''schema_version''}" for k
    using that wf by (auto simp: event_wf_def)
qed

lemma pointer_wf_json: "pointer_wf E n \<Longrightarrow> wf_py (PDict n)"
proof (rule fields_wf_py [of _ "pointer_table E" "{}"])
  assume wf: "pointer_wf E n"
  show "dict_ok n" "fields_ok (pointer_table E) n" "keys n \<subseteq> fst ` set (pointer_table E) \<union> {}"
    using wf by (auto simp: pointer_wf_def)
  show "wf_py y" if "(k, f) \<in> set (pointer_table E)" "checked f y" for k f y
    using that unfolding pointer_table_def set_simps
    by (elim insertE emptyE) (simp_all, (erule checked_wf)+)
qed simp

lemma ledger_wf_json: "ledger_wf E hl n \<Longrightarrow> wf_py (PDict n)"
proof (rule fields_wf_py [of _ "ledger_table E" "{''schema_version''}"])
  assume wf: "ledger_wf E hl n"
  show "dict_ok n" "fields_ok (ledger_table E) n" using wf by (auto simp: ledger_wf_def)
  show "keys n \<subseteq> fst ` set (ledger_table E) \<union> {''schema_version''}"
    using wf by (simp add: ledger_wf_def ledger_table_def CONTEXT_LEDGER_KEYS_def)
  show "wf_py y" if "(k, f) \<in> set (ledger_table E)" "checked f y" for k f y
    using that unfolding ledger_table_def set_simps
    by (elim insertE emptyE) (simp_all, (erule checked_wf)+)
  show "wf_py (dget n k PNone)" if "k \<in> {''schema_version''}" for k
    using that wf by (auto simp: ledger_wf_def)
qed

lemma manifest_wf_json: "manifest_wf E hl n \<Longrightarrow> wf_py (PDict n)"
proof (rule fields_wf_py [of _ "[(''canonical_repo_identity'', s_identifier E True), (''generation'', s_integer 0)]"
      "{''schema_version'', ''plans''}"])
  assume wf: "manifest_wf E hl n"
  then obtain ps where ps: "dget n ''plans'' PNone = PList ps"
    "list_all (\<lambda>v. \<exists>p. v = PDict p \<and> pointer_wf E p) ps"
    unfolding manifest_wf_def by blast
  have k: "keys n = {''schema_version'', ''canonical_repo_identity'', ''generation'', ''plans''}"
    and f: "checked (s_identifier E True) (dget n ''canonical_repo_identity'' PNone)"
      "checked (s_integer 0) (dget n ''generation'' PNone)"
    and sv: "dget n ''schema_version'' PNone = PInt 1"
    and ok: "dict_ok n" using wf unfolding manifest_wf_def by blast+
  show "dict_ok n" by (rule ok)
  show "fields_ok [(''canonical_repo_identity'', s_identifier E True), (''generation'', s_integer 0)] n"
    by (simp add: fields_ok_def f)
  show "keys n \<subseteq> fst ` set [(''canonical_repo_identity'', s_identifier E True), (''generation'', s_integer 0)]
      \<union> {''schema_version'', ''plans''}" by (simp add: k)
  have "list_all wf_py ps" using ps(2) by (auto simp: list_all_iff simp del: wf_py.simps dest: pointer_wf_json)
  then show "wf_py (dget n j PNone)" if "j \<in> {''schema_version'', ''plans''}" for j
    using that sv ps(1) by auto
qed (auto intro: checked_wf)

section \<open>The interface of a record schema\<close>

text \<open>
  What the store needs of a validator: a record that passed once passes again
  unchanged, and it is a JSON value.  Its clients write such a record as
  canonical JSON and validate again whatever they read.
\<close>

locale record_schema =
  fixes validate :: "py \<Rightarrow> pdict res"
  assumes validate_again: "validate v = Inr n \<Longrightarrow> validate (PDict n) = Inr n"
    and validate_json: "validate v = Inr n \<Longrightarrow> wf_py (PDict n)"
begin

lemma read_back: "validate v = Inr n \<Longrightarrow> json_loads (canonical_json (PDict n)) = Some (PDict n)"
  by (rule json_roundtrip) (rule validate_json)

lemma reread: "validate v = Inr n \<Longrightarrow> json_loads (canonical_json (PDict n)) = Some w \<Longrightarrow> validate w = Inr n"
  using read_back [of v n] validate_again [of v n] by simp

lemma text_determines:
  assumes "validate v = Inr n" "validate w = Inr m" "canonical_json (PDict n) = canonical_json (PDict m)"
  shows "n = m"
  using read_back [OF assms(1)] read_back [OF assms(2)] unfolding assms(3) by (simp del: canonical_json.simps)

end

locale store_env =
  fixes E :: env
  assumes env_digest: "digest_fn (env_sha E)"
begin

lemma state_again: "validate_state E ex hl v = Inr n \<Longrightarrow> validate_state E ex hl (PDict n) = Inr n"
  by (rule validate_state_accepts [OF env_digest]) (rule validate_state_wf, assumption)+

end

sublocale store_env \<subseteq> state_schema: record_schema "validate_state E ex hl" for ex hl
  by unfold_locales (rule state_again, assumption, rule state_wf_json, rule validate_state_wf)

sublocale store_env \<subseteq> event_schema: record_schema "validate_event E ex u hl a" for ex u hl a
  by unfold_locales
    (rule validate_event_accepts, (rule validate_event_wf, assumption)+, rule event_wf_json, rule validate_event_wf)

sublocale store_env \<subseteq> manifest_schema: record_schema "validate_manifest E hl" for hl
  by unfold_locales
    (rule validate_manifest_accepts, rule validate_manifest_wf, assumption, rule manifest_wf_json, rule validate_manifest_wf)

sublocale store_env \<subseteq> ledger_schema: record_schema "validate_context_ledger_record E hl" for hl
  by unfold_locales
    (rule validate_ledger_accepts, rule validate_ledger_wf, assumption, rule ledger_wf_json, rule validate_ledger_wf)

text \<open>The environment of the program: SHA-256, and any sensitivity detector.\<close>

definition sha_env :: "(string \<Rightarrow> bool) \<Rightarrow> env" where
  "sha_env red = \<lparr>env_sha = sha256_hex, env_red = red\<rparr>"

lemma sha_env_simps [simp]: "env_sha (sha_env red) = sha256_hex" "env_red (sha_env red) = red"
  by (simp_all add: sha_env_def)

interpretation hashed: store_env "sha_env red" for red
  by (rule store_env.intro, unfold sha_env_simps, rule sha256.digest_fn_axioms)

end
