(* ===== verification/StoreIO.thy ===== *)
theory StoreIO
  imports StorePaths SchemaRecords
begin

unbundle bit_operations_syntax

text \<open>
  \<open>.codex/hooks/shared/implementation_store/io.py\<close>: the locked, fail-closed file
  operations of the store.  Journals are appended to one line at a time,
  snapshots are replaced atomically, malformed files are moved aside with their
  bytes.  The lemmas say what a run leaves behind whatever system call fails:
  an append only ever adds bytes of its own line, a publication leaves the old
  snapshot or the whole new one, and what was written is read back.

  The descriptor checks of \<open>_read_bytes\<close> that compare two \<open>fstat\<close> results detect
  a concurrent replacement of the file; the operations here run without such
  interference (the store holds its lock), so those checks read the same node.
\<close>

definition DEFAULT_JSON_READ_LIMIT_BYTES :: nat where "DEFAULT_JSON_READ_LIMIT_BYTES = 256 * 1024"
definition DEFAULT_JSONL_READ_LIMIT_BYTES :: nat where "DEFAULT_JSONL_READ_LIMIT_BYTES = 8 * 1024 * 1024"
definition DEFAULT_JSONL_MAX_RECORDS :: nat where "DEFAULT_JSONL_MAX_RECORDS = 4096"

section \<open>Write metadata\<close>

record write_metadata =
  wm_changed :: bool
  wm_bytes_written :: nat
  wm_files_written :: "string list"
  wm_replacements :: nat
  wm_appends :: nat
  wm_fsync_publications :: nat
  wm_known :: bool

definition no_write :: write_metadata where
  "no_write = \<lparr>wm_changed = False, wm_bytes_written = 0, wm_files_written = [], wm_replacements = 0,
     wm_appends = 0, wm_fsync_publications = 0, wm_known = True\<rparr>"

definition wm_plus :: "write_metadata \<Rightarrow> write_metadata \<Rightarrow> write_metadata" where
  "wm_plus a b = \<lparr>wm_changed = wm_changed a \<or> wm_changed b,
     wm_bytes_written = wm_bytes_written a + wm_bytes_written b,
     wm_files_written = dedup (wm_files_written a @ wm_files_written b),
     wm_replacements = wm_replacements a + wm_replacements b,
     wm_appends = wm_appends a + wm_appends b,
     wm_fsync_publications = wm_fsync_publications a + wm_fsync_publications b,
     wm_known = (wm_known a \<and> wm_known b)\<rparr>"

definition append_metadata :: "string \<Rightarrow> nat \<Rightarrow> write_metadata" where
  "append_metadata name n = no_write\<lparr>wm_changed := True, wm_bytes_written := n, wm_files_written := [name],
     wm_appends := 1, wm_fsync_publications := 1\<rparr>"

definition replace_metadata :: "string \<Rightarrow> nat \<Rightarrow> write_metadata" where
  "replace_metadata name n = no_write\<lparr>wm_changed := True, wm_bytes_written := n, wm_files_written := [name],
     wm_replacements := 1, wm_fsync_publications := 1\<rparr>"

section \<open>Reading\<close>

definition private_mode :: "nat \<Rightarrow> nat" where
  "private_mode m = (if m AND 384 = 0 then 384 else m AND 384)"

text \<open>The loop of \<open>_read_bytes\<close>: the rest of the file and the number of bytes already read.\<close>

definition read_size :: "nat option \<Rightarrow> nat \<Rightarrow> nat" where
  "read_size max_bytes sofar = (case max_bytes of None \<Rightarrow> 65536 | Some m \<Rightarrow> min 65536 (m - sofar + 1))"

function read_chunks :: "nat option \<Rightarrow> string \<Rightarrow> nat \<Rightarrow> string res" where
  "read_chunks max_bytes rest sofar =
     (if rest = [] then Inr []
      else let chunk = take (read_size max_bytes sofar) rest; sofar' = sofar + length chunk in
        if (case max_bytes of None \<Rightarrow> False | Some m \<Rightarrow> sofar' > m) then Inl StoreIOError
        else bindE (read_chunks max_bytes (drop (read_size max_bytes sofar) rest) sofar') (\<lambda>r. Inr (chunk @ r)))"
  by pat_completeness auto
termination
  by (relation "measure (\<lambda>(m, rest, t). length rest)") (auto simp: read_size_def split: option.splits)

declare read_chunks.simps [simp del]

definition read_bytes :: "world \<Rightarrow> nat option \<Rightarrow> bool \<Rightarrow> path \<Rightarrow> string res" where
  "read_bytes w max_bytes require_private p =
     bindE (reject_symlink_components w False p) (\<lambda>_.
     bindE (regular_file_stat w p) (\<lambda>(b, mode).
     bindE (guardE (case max_bytes of None \<Rightarrow> False | Some m \<Rightarrow> length b > m) StoreIOError) (\<lambda>_.
     bindE (guardE (w_noread w p) StoreIOError) (\<lambda>_.
     bindE (guardE (require_private \<and> mode AND 63 \<noteq> 0) StoreIOError) (\<lambda>_.
     read_chunks max_bytes b 0)))))"

text \<open>\<open>json.loads(raw.decode("utf-8"))\<close>, then the mapping check and the validator.\<close>

definition decode_record :: "(py \<Rightarrow> pdict res) \<Rightarrow> string \<Rightarrow> pdict res" where
  "decode_record validator raw =
     (case utf8_decode raw of None \<Rightarrow> Inl ValueError
      | Some text \<Rightarrow> (case json_loads text of None \<Rightarrow> Inl ValueError
         | Some v \<Rightarrow> bindE (s_object v) (\<lambda>d. validator (PDict d))))"

text \<open>The classes \<open>except (UnicodeDecodeError, json.JSONDecodeError, SchemaError, ValueError)\<close> catches.\<close>

definition is_value_error :: "exn \<Rightarrow> bool" where
  "is_value_error e = (e \<in> {ValueError, SchemaError, FutureSchemaError, RedContentError, StorePathError})"

definition read_json :: "world \<Rightarrow> (py \<Rightarrow> pdict res) \<Rightarrow> nat \<Rightarrow> path \<Rightarrow> (pdict option) res" where
  "read_json w validator hard_limit p =
     bindE (reject_symlink_components w True p) (\<lambda>_.
     if \<not> path_exists w p then Inr None
     else bindE (read_bytes w (Some hard_limit) True p) (\<lambda>raw.
       case decode_record validator raw of
         Inr d \<Rightarrow> Inr (Some d)
       | Inl e \<Rightarrow> if e = FutureSchemaError then Inl e
                  else if is_value_error e then Inl CorruptRecordError else Inl e))"

text \<open>\<open>bytes.splitlines(keepends=True)\<close> and \<open>bytes.strip\<close>\<close>

fun byte_lines :: "string \<Rightarrow> string \<Rightarrow> string list" where
  "byte_lines acc [] = (if acc = [] then [] else [rev acc])"
| "byte_lines acc (c # s) =
     (if c = CHR 0x0A then rev (c # acc) # byte_lines [] s
      else if c = CHR 0x0D then
        (case s of d # s' \<Rightarrow> if d = CHR 0x0A then rev (d # c # acc) # byte_lines [] s'
                            else rev (c # acc) # byte_lines [] s
         | [] \<Rightarrow> [rev (c # acc)])
      else byte_lines (c # acc) s)"

definition blank_bytes :: "string \<Rightarrow> bool" where
  "blank_bytes s = list_all (\<lambda>c. c = CHR 0x20 \<or> (9 \<le> (ordc c :: nat) \<and> (ordc c :: nat) \<le> 13)) s"

fun jsonl_loop :: "(py \<Rightarrow> pdict res) \<Rightarrow> nat \<Rightarrow> pdict list \<Rightarrow> string list \<Rightarrow> (pdict list \<times> bool) res" where
  "jsonl_loop validator max_records records [] = Inr (records, False)"
| "jsonl_loop validator max_records records (line # lines) =
     (if \<not> ends_with line [CHR 0x0A] then
        (if lines \<noteq> [] then Inl CorruptRecordError else Inr (records, True))
      else if blank_bytes line then Inl CorruptRecordError
      else case decode_record (\<lambda>v. if length records \<ge> max_records then Inl CorruptRecordError else validator v) line of
          Inr d \<Rightarrow> jsonl_loop validator max_records (records @ [d]) lines
        | Inl e \<Rightarrow> if e = FutureSchemaError then Inl e
                   else if is_value_error e then Inl CorruptRecordError else Inl e)"

definition read_jsonl :: "world \<Rightarrow> (py \<Rightarrow> pdict res) \<Rightarrow> nat \<Rightarrow> nat \<Rightarrow> path \<Rightarrow> (pdict list \<times> bool) res" where
  "read_jsonl w validator total_hard_limit max_records p =
     bindE (reject_symlink_components w True p) (\<lambda>_.
     if \<not> path_exists w p then Inr ([], False)
     else bindE (read_bytes w (Some total_hard_limit) True p) (\<lambda>raw.
       jsonl_loop validator max_records [] (byte_lines [] raw)))"

section \<open>Writing\<close>

definition safe_directory :: "world \<Rightarrow> path \<Rightarrow> unit res" where
  "safe_directory w p = bindE (reject_symlink_components w False p) (\<lambda>_.
     bindE (directory_stat w p) (\<lambda>_. Inr ()))"

function write_all :: "path \<Rightarrow> string \<Rightarrow> unit io" where
  "write_all p data w =
     (if data = [] then (Inr (), w)
      else case os_write p data w of
          (Inl e, w') \<Rightarrow> (Inl e, w')
        | (Inr n, w') \<Rightarrow> if n = 0 then (Inl StoreIOError, w') else write_all p (drop n data) w')"
  by pat_completeness auto
termination
  by (relation "measure (\<lambda>(p, data, w). length data)") auto

declare write_all.simps [simp del]

definition os_error_as :: "exn \<Rightarrow> 'a io \<Rightarrow> 'a io" where
  "os_error_as e m = handle m (\<lambda>x. if x = OSError then raise e else raise x)"

definition fsync_directory :: "path \<Rightarrow> unit io" where
  "fsync_directory p = bind (os_error_as StoreIOError (syscall id)) (\<lambda>_. os_fsync)"

text \<open>\<open>os.fstat\<close> on the descriptor just opened: content and mode of a private regular file.\<close>

definition fstat_private :: "path \<Rightarrow> (string \<times> nat) io" where
  "fstat_private p = reading (\<lambda>w. case w_node w p of
     Some (RegFile b m nlink) \<Rightarrow> if nlink \<noteq> 1 then Inl StoreIOError else Inr (b, m)
   | _ \<Rightarrow> Inl StoreIOError)"

text \<open>
  \<open>with locked_file(p): body\<close>.  The lock excludes other writers, so the body
  runs on the world as it is; \<open>flock\<close> itself blocks and cannot fail.
\<close>

definition locked_file :: "path \<Rightarrow> 'a io \<Rightarrow> 'a io" where
  "locked_file p body =
     bind (reading (\<lambda>w. safe_directory w (parent p))) (\<lambda>_.
     bind (reading (\<lambda>w. reject_symlink_components w True p)) (\<lambda>_.
     bind (os_error_as StoreIOError (os_open_create p)) (\<lambda>_.
     bind (fstat_private p) (\<lambda>(b, m).
     bind (os_chmod p (private_mode m)) (\<lambda>_. body)))))"

definition append_jsonl ::
    "path \<Rightarrow> pdict \<Rightarrow> nat \<Rightarrow> nat option \<Rightarrow> nat option \<Rightarrow> nat option \<Rightarrow> write_metadata io" where
  "append_jsonl p payload hard_limit total_hard_limit max_records existing_records =
     (let encoded = utf8_encode (canonical_json (PDict payload) @ [CHR 0x0A]) in
     bind (guard (length encoded > hard_limit) StoreIOError) (\<lambda>_.
     bind (reading (\<lambda>w. safe_directory w (parent p))) (\<lambda>_.
     bind (reading (\<lambda>w. reject_symlink_components w True p)) (\<lambda>_.
     bind (reading (\<lambda>w. Inr (path_exists w p))) (\<lambda>existed.
     bind (reading (\<lambda>w. if existed then bindE (regular_file_stat w p) (\<lambda>_. Inr ()) else Inr ())) (\<lambda>_.
     bind (os_error_as StoreIOError (os_open_create p)) (\<lambda>_.
     bind (fstat_private p) (\<lambda>(b, m).
     bind (guard (case total_hard_limit of None \<Rightarrow> False | Some n \<Rightarrow> length b + length encoded > n) StoreIOError) (\<lambda>_.
     bind (guard (case (max_records, existing_records) of (Some n, Some k) \<Rightarrow> k \<ge> n | _ \<Rightarrow> False) StoreIOError) (\<lambda>_.
     bind (os_chmod p (private_mode m)) (\<lambda>_.
     bind (write_all p encoded) (\<lambda>_.
     bind os_fsync (\<lambda>_.
     bind (if existed then ret () else fsync_directory (parent p)) (\<lambda>_.
     ret (append_metadata (name_of p) (length encoded))))))))))))))))"

text \<open>
  The common tail of \<open>publish_json\<close> and \<open>publish_bytes\<close>: write a temporary
  sibling, then put it in place of the target.
\<close>

definition replace_with :: "path \<Rightarrow> nat \<Rightarrow> string \<Rightarrow> write_metadata io" where
  "replace_with p mode encoded =
     bind (os_mkstemp (CHR ''.'' # name_of p @ ''.tmp-'') (parent p)) (\<lambda>temporary.
     bind (finally_do
       (handle
         (bind (os_chmod temporary mode) (\<lambda>_.
          bind (write_all temporary encoded) (\<lambda>_.
          bind os_fsync (\<lambda>_.
          bind (reading (\<lambda>w. reject_symlink_components w True p)) (\<lambda>_.
          bind (reading (\<lambda>w. if path_exists w p then bindE (regular_file_stat w p) (\<lambda>_. Inr ()) else Inr ())) (\<lambda>_.
          bind (os_replace temporary p) (\<lambda>_.
          fsync_directory (parent p))))))))
         (\<lambda>e. if e \<in> {OSError, StoreIOError, CorruptRecordError} then raise StoreIOError else raise e))
       (unlink_if_present temporary)) (\<lambda>_.
     ret (replace_metadata (name_of p) (length encoded))))"

definition publish_json :: "path \<Rightarrow> pdict \<Rightarrow> nat \<Rightarrow> write_metadata io" where
  "publish_json p payload hard_limit =
     (let encoded = utf8_encode (canonical_json (PDict payload)) in
     bind (guard (length encoded > hard_limit) StoreIOError) (\<lambda>_.
     bind (reading (\<lambda>w. safe_directory w (parent p))) (\<lambda>_.
     bind (reading (\<lambda>w.
       if path_exists w p then
         bindE (regular_file_stat w p) (\<lambda>(b, m).
         bindE (read_bytes w (Some hard_limit) True p) (\<lambda>existing. Inr (Some existing, private_mode m)))
       else Inr (None, 384))) (\<lambda>(existing, mode).
     if existing = Some encoded then ret no_write else replace_with p mode encoded))))"

definition publish_bytes :: "path \<Rightarrow> string \<Rightarrow> nat \<Rightarrow> write_metadata io" where
  "publish_bytes p encoded hard_limit =
     bind (guard (length encoded > hard_limit) StoreIOError) (\<lambda>_.
     bind (reading (\<lambda>w. safe_directory w (parent p))) (\<lambda>_.
     bind (reading (\<lambda>w.
       if path_exists w p then
         bindE (regular_file_stat w p) (\<lambda>(b, m).
         bindE (guardE (length b > hard_limit) StoreIOError) (\<lambda>_.
         bindE (read_bytes w (Some hard_limit) False p) (\<lambda>existing. Inr (Some existing, private_mode m))))
       else Inr (None, 384))) (\<lambda>(existing, mode).
     if existing = Some encoded then ret no_write else replace_with p mode encoded)))"

text \<open>
  \<open>quarantine_file\<close>.  The candidate names are tried in order until one is free;
  \<open>None\<close> is the loop that never ends because every name is taken.
\<close>

definition split_suffix :: "string \<Rightarrow> string \<times> string" where
  "split_suffix name = (case rfind_char (CHR ''.'') name of
     Some i \<Rightarrow> if 0 < i \<and> i < length name - 1 then (take i name, drop i name) else (name, [])
   | None \<Rightarrow> (name, []))"

definition candidate_name :: "string \<Rightarrow> string \<Rightarrow> nat \<Rightarrow> string" where
  "candidate_name name digest_prefix counter = (case split_suffix name of (stem, ext) \<Rightarrow>
     stem @ ''.invalid.'' @ digest_prefix @ (if counter = 0 then [] else CHR ''.'' # nat_str counter) @ ext)"

partial_function (option) free_candidate :: "world \<Rightarrow> path \<Rightarrow> string \<Rightarrow> nat \<Rightarrow> path option" where
  "free_candidate w p d counter =
     (let c = parent p @ [candidate_name (name_of p) d counter] in
      if path_exists w c then free_candidate w p d (counter + 1) else Some c)"

declare free_candidate.simps [code]

definition quarantine_file :: "env \<Rightarrow> path \<Rightarrow> path io" where
  "quarantine_file E p =
     bind (reading (\<lambda>w. regular_file_stat w p)) (\<lambda>(_, mode).
     bind (reading (\<lambda>w. read_bytes w None True p)) (\<lambda>raw.
     bind (reading (\<lambda>w. case free_candidate w p (take 16 (env_sha E raw)) 0 of
         None \<Rightarrow> Inl Killed | Some c \<Rightarrow> Inr c)) (\<lambda>candidate.
     bind (reading (\<lambda>w. reject_symlink_components w True candidate)) (\<lambda>_.
     bind (os_error_as StoreIOError
       (bind (os_replace p candidate) (\<lambda>_.
        bind (os_chmod candidate (private_mode mode)) (\<lambda>_.
        fsync_directory (parent p))))) (\<lambda>_.
     ret candidate)))))"

definition read_json_quarantine ::
    "env \<Rightarrow> (py \<Rightarrow> pdict res) \<Rightarrow> nat \<Rightarrow> path \<Rightarrow> (pdict option) io" where
  "read_json_quarantine E validator hard_limit p =
     bind (reading (\<lambda>w. reject_symlink_components w True p)) (\<lambda>_.
     bind (reading (\<lambda>w. Inr (path_exists w p))) (\<lambda>there.
     if \<not> there then ret None
     else bind (reading (\<lambda>w. read_bytes w (Some hard_limit) True p)) (\<lambda>raw.
       case decode_record validator raw of
         Inr d \<Rightarrow> ret (Some d)
       | Inl e \<Rightarrow> if e = FutureSchemaError then raise e
                  else if is_value_error e then bind (quarantine_file E p) (\<lambda>_. ret None)
                  else raise e)))"

section \<open>Metadata adds up\<close>

lemma wm_plus_assoc: "wm_plus (wm_plus a b) c = wm_plus a (wm_plus b c)"
  by (simp add: wm_plus_def)

lemma wm_plus_no_write: "distinct (wm_files_written a) \<Longrightarrow> wm_plus a no_write = a \<and> wm_plus no_write a = a"
  by (cases a) (simp add: wm_plus_def no_write_def dedup_def distinct_rev distinct_remdups_id)

section \<open>What a read returns\<close>

lemma read_chunks_all:
  "(\<forall>m. mx = Some m \<longrightarrow> sofar + length rest \<le> m) \<Longrightarrow> read_chunks mx rest sofar = Inr rest"
proof (induction mx rest sofar rule: read_chunks.induct)
  case (1 mx rest sofar)
  show ?case
  proof (cases "rest = []")
    case True
    then show ?thesis by (simp add: read_chunks.simps)
  next
    case False
    let ?n = "read_size mx sofar"
    have ok: "\<not> (case mx of None \<Rightarrow> False | Some m \<Rightarrow> sofar + length (take ?n rest) > m)"
      using "1.prems" by (auto split: option.splits)
    have "read_chunks mx (drop ?n rest) (sofar + length (take ?n rest)) = Inr (drop ?n rest)"
      using "1.prems" by (intro "1.IH" [OF False refl refl ok]) auto
    with False ok show ?thesis by (subst read_chunks.simps) (simp add: Let_def)
  qed
qed

lemma regular_file_stat_ok:
  "regular_file_stat w p = Inr (b, m) \<longleftrightarrow> p \<noteq> [] \<and> \<not> w_bad w p \<and> w_node w p = Some (RegFile b m 1)"
  by (auto simp: regular_file_stat_def lstat_def split: lstat_result.splits node.splits if_splits option.splits)

definition readable :: "world \<Rightarrow> path \<Rightarrow> string \<Rightarrow> bool" where
  "readable w p b = (p \<noteq> [] \<and> no_links w p \<and> all_present w p \<and> \<not> w_noread w p
     \<and> (\<exists>m. w_node w p = Some (RegFile b m 1) \<and> m AND 63 = 0))"

lemma read_bytes_ok:
  "read_bytes w mx True p = Inr b \<longleftrightarrow> readable w p b \<and> (\<forall>m. mx = Some m \<longrightarrow> length b \<le> m)"
proof
  assume r: "read_bytes w mx True p = Inr b"
  then obtain c m where c: "regular_file_stat w p = Inr (c, m)" "no_links w p" "all_present w p" "\<not> w_noread w p"
    "m AND 63 = 0" "\<forall>m. mx = Some m \<longrightarrow> length c \<le> m" "read_chunks mx c 0 = Inr b"
    by (cases mx) (auto simp: read_bytes_def resE reject_present)
  moreover have "read_chunks mx c 0 = Inr c" using c(6) by (intro read_chunks_all) simp
  ultimately show "readable w p b \<and> (\<forall>m. mx = Some m \<longrightarrow> length b \<le> m)"
    by (auto simp: readable_def regular_file_stat_ok)
next
  assume R: "readable w p b \<and> (\<forall>m. mx = Some m \<longrightarrow> length b \<le> m)"
  then obtain m where m: "w_node w p = Some (RegFile b m 1)" "m AND 63 = 0" by (auto simp: readable_def)
  have rej: "reject_symlink_components w False p = Inr ()" using R by (simp add: readable_def reject_present)
  have st: "regular_file_stat w p = Inr (b, m)"
    using R m by (simp add: regular_file_stat_ok readable_def no_links_def plain_at_def lstat_def split: if_splits) blast
  have "read_chunks mx b 0 = Inr b" using R by (intro read_chunks_all) simp
  with R m rej st show "read_bytes w mx True p = Inr b"
    by (cases mx) (simp_all add: read_bytes_def readable_def)
qed

definition missing :: "world \<Rightarrow> path \<Rightarrow> bool" where
  "missing w p = (no_links w p \<and> p \<noteq> [] \<and> w_node w p = None)"

lemma read_json_cases:
  assumes "read_json w v hl p = Inr r" and "p \<noteq> []"
  shows "r = None \<and> missing w p
    \<or> (\<exists>b d. r = Some d \<and> readable w p b \<and> length b \<le> hl \<and> decode_record v b = Inr d)"
proof -
  have nl: "no_links w p" using assms(1) by (auto simp: read_json_def resE reject_missing_ok)
  show ?thesis
  proof (cases "path_exists w p")
    case False
    then show ?thesis
      using assms plain_path_exists [OF nl assms(2)] nl by (auto simp: read_json_def resE missing_def)
  next
    case True
    then obtain b where b: "readable w p b" "length b \<le> hl"
      and dec: "(case decode_record v b of Inr d \<Rightarrow> Inr (Some d)
        | Inl e \<Rightarrow> if e = FutureSchemaError then Inl e
                   else if is_value_error e then Inl CorruptRecordError else Inl e) = Inr r"
      using assms(1) by (auto simp: read_json_def bindE_eq_Inr read_bytes_ok simp del: not_None_eq)
    then show ?thesis by (cases "decode_record v b") (auto split: if_splits)
  qed
qed

lemma readable_exists: "readable w p b \<Longrightarrow> path_exists w p"
  by (auto simp: readable_def plain_path_exists)

lemma read_json_present:
  assumes "readable w p b" "length b \<le> hl" "decode_record v b = Inr d"
  shows "read_json w v hl p = Inr (Some d)"
proof -
  have "reject_symlink_components w True p = Inr ()" using assms(1) by (simp add: reject_missing_ok readable_def)
  moreover have "read_bytes w (Some hl) True p = Inr b" using assms by (simp add: read_bytes_ok)
  ultimately show ?thesis using assms(3) readable_exists [OF assms(1)] by (simp add: read_json_def)
qed

lemma read_json_missing: "missing w p \<Longrightarrow> read_json w v hl p = Inr None"
  using reject_missing_ok [of w p "()"] by (simp add: read_json_def missing_def plain_path_exists)

section \<open>What a write leaves behind\<close>

text \<open>
  \<open>frame S w w'\<close>: outside the paths of \<open>S\<close> the tree is as it was, but for
  temporary files a crash can leave; the rest of the world is the same.
\<close>

definition is_temp :: "path \<Rightarrow> bool" where
  "is_temp q = (\<exists>a b. name_of q = CHR ''.'' # a @ ''.tmp-'' @ b)"

definition same_env :: "world \<Rightarrow> world \<Rightarrow> bool" where
  "same_env w w' = (w_bad w' = w_bad w \<and> w_noread w' = w_noread w \<and> w_clock w' = w_clock w
     \<and> w_random w' = w_random w \<and> w_cwd w' = w_cwd w \<and> w_git w' = w_git w)"

definition frame :: "path set \<Rightarrow> world \<Rightarrow> world \<Rightarrow> bool" where
  "frame S w w' = (same_env w w' \<and> (\<forall>q. q \<notin> S \<and> \<not> is_temp q \<longrightarrow> w_node w' q = w_node w q))"

lemma frame_refl: "reflp (frame S)"
  by (simp add: reflp_def frame_def same_env_def)

lemma frame_trans: "transp (frame S)"
  by (rule transpI) (auto simp: frame_def same_env_def)

lemma frame_mono: "frame S w w' \<Longrightarrow> S \<subseteq> T \<Longrightarrow> frame T w w'"
  by (auto simp: frame_def)

lemma keeps_mono: "keeps P m \<Longrightarrow> (\<And>w w'. P w w' \<Longrightarrow> Q w w') \<Longrightarrow> keeps Q m"
  by (simp add: keeps_def)

lemma next_fault_same: "next_fault w = (f, w') \<Longrightarrow> same_env w w' \<and> w_node w' = w_node w"
  by (auto simp: next_fault_def same_env_def split: list.splits)

lemma same_env_put: "same_env w (put_node p n w') = same_env w w'"
  by (simp add: same_env_def put_node_def)

lemma frame_put: "frame S w w' \<Longrightarrow> p \<in> S \<or> is_temp p \<Longrightarrow> frame S w (put_node p n w')"
  by (auto simp: frame_def same_env_put)

lemma frame_fault: "next_fault w = (f, w') \<Longrightarrow> frame S w w'"
  by (auto simp: frame_def dest: next_fault_same)

lemma frame_syscall:
  assumes "\<And>w. frame S w (act w)"
  shows "keeps (frame S) (syscall act)"
proof -
  have "frame S w (snd (syscall act w))" for w
  proof -
    obtain f w' where n: "next_fault w = (f, w')" by fastforce
    have "frame S w w'" using n by (rule frame_fault)
    moreover have "frame S w' (act w')" by (rule assms)
    ultimately show ?thesis using n transpD [OF frame_trans] by (auto simp: syscall_def)
  qed
  then show ?thesis by (simp add: keeps_def)
qed

named_theorems framed \<open>the paths an operation can change\<close>

lemma frame_pure [framed]:
  "keeps (frame S) (ret x)" "keeps (frame S) (raise e)" "keeps (frame S) (reading f)"
  "keeps (frame S) (lift r)" "keeps (frame S) (guard c e)"
  by (rule keeps_pure, rule frame_refl)+

lemmas frame_bind = keeps_bind [OF frame_trans]
lemmas frame_handle = keeps_handle [OF frame_trans]

lemma frame_finally: "keeps (frame S) m \<Longrightarrow> keeps (frame S) c \<Longrightarrow> keeps (frame S) (finally_do m c)"
proof -
  assume m: "keeps (frame S) m" and c: "keeps (frame S) c"
  have "frame S w (snd (finally_do m c w))" for w
  proof -
    obtain r w1 where 1: "m w = (r, w1)" by fastforce
    obtain r2 w2 where 2: "c w1 = (r2, w2)" by fastforce
    have "frame S w w1" "frame S w1 w2" using keepsD [OF m 1] keepsD [OF c 2] by auto
    then show ?thesis using 1 2 transpD [OF frame_trans, of S w w1 w2]
      by (auto simp: finally_do_def split: sum.splits)
  qed
  then show ?thesis by (simp add: keeps_def)
qed

lemma frame_id [framed]: "keeps (frame S) (syscall id)" "keeps (frame S) os_fsync"
  using frame_refl [of S] by (auto simp: os_fsync_def reflp_def intro!: frame_syscall)

lemma frame_self: "frame S w w"
  using frame_refl [of S] by (simp add: reflp_def)

lemma keeps_eval: "(\<And>w. P w (snd (m w))) \<Longrightarrow> keeps P m"
  by (simp add: keeps_def)

lemma frame_syscall_at:
  "p \<in> S \<or> is_temp p \<Longrightarrow> frame S w (snd (syscall (put_node p n) w))"
  using frame_syscall [of S "put_node p n"] by (simp add: keeps_def frame_put frame_self)

lemma frame_chmod [framed]: "p \<in> S \<or> is_temp p \<Longrightarrow> keeps (frame S) (os_chmod p m)"
  by (rule keeps_eval) (auto simp: os_chmod_def frame_self frame_syscall_at split: option.splits)

lemma frame_open [framed]: "p \<in> S \<or> is_temp p \<Longrightarrow> keeps (frame S) (os_open_create p)"
  using frame_id(1) [of S]
  by (intro keeps_eval) (auto simp: os_open_create_def frame_self frame_syscall_at keeps_def split: option.splits node.splits)

lemma frame_replace [framed]:
  assumes "p \<in> S \<or> is_temp p" "q \<in> S \<or> is_temp q"
  shows "keeps (frame S) (os_replace p q)"
proof (rule keeps_eval)
  fix w
  have "keeps (frame S) (syscall (\<lambda>w. put_node p None (put_node q (Some n) w)))" for n
    using assms by (intro frame_syscall frame_put frame_self)
  then show "frame S w (snd (os_replace p q w))"
    by (auto simp: os_replace_def frame_self keeps_def split: option.splits node.splits)
qed

lemma frame_unlink [framed]: "p \<in> S \<or> is_temp p \<Longrightarrow> keeps (frame S) (unlink_if_present p)"
  by (rule keeps_eval) (auto simp: unlink_if_present_def frame_put frame_self)

lemma frame_append_bytes: "p \<in> S \<or> is_temp p \<Longrightarrow> frame S w w' \<Longrightarrow> frame S w (append_bytes p d w')"
  by (auto simp: append_bytes_def frame_put split: option.splits node.splits)

lemma frame_write [framed]: "p \<in> S \<or> is_temp p \<Longrightarrow> keeps (frame S) (os_write p d)"
  by (rule keeps_eval)
    (auto simp: os_write_def frame_append_bytes frame_fault split: prod.splits fault.splits)

lemma frame_write_all [framed]:
  assumes "p \<in> S \<or> is_temp p"
  shows "keeps (frame S) (write_all p d)"
proof (rule keeps_eval)
  fix w
  show "frame S w (snd (write_all p d w))"
    using assms
  proof (induction p d w rule: write_all.induct)
    case (1 p d w)
    show ?case
    proof (cases "d = []")
      case True
      then show ?thesis by (simp add: write_all.simps frame_self)
    next
      case False
      obtain r w1 where wr: "os_write p d w = (r, w1)" by fastforce
      have step: "frame S w w1" using frame_write [OF "1.prems", THEN keepsD, OF wr] .
      show ?thesis
      proof (cases r)
        case (Inl e)
        with wr step False show ?thesis by (simp add: write_all.simps [of p d w])
      next
        case (Inr n)
        show ?thesis
        proof (cases "n = 0")
          case True
          with wr step False Inr show ?thesis by (simp add: write_all.simps [of p d w])
        next
          case nz: False
          have "frame S w1 (snd (write_all p (drop n d) w1))"
            using "1.IH" [OF False _ _ nz "1.prems"] wr Inr by simp
          with step transpD [OF frame_trans] wr Inr False nz show ?thesis
            by (auto simp: write_all.simps [of p d w])
        qed
      qed
    qed
  qed
qed

lemma frame_os_error_as [framed]: "keeps (frame S) m \<Longrightarrow> keeps (frame S) (os_error_as e m)"
  unfolding os_error_as_def by (rule frame_handle) (auto intro: framed)

lemma frame_fsync_directory [framed]: "keeps (frame S) (fsync_directory p)"
  unfolding fsync_directory_def by (intro frame_bind framed)

lemma frame_fstat [framed]: "keeps (frame S) (fstat_private p)"
  unfolding fstat_private_def by (rule framed)

lemma frame_case_prod: "(\<And>a b. keeps P (f a b)) \<Longrightarrow> keeps P (case x of (a, b) \<Rightarrow> f a b)"
  by (cases x) simp

lemma frame_if: "keeps P a \<Longrightarrow> keeps P b \<Longrightarrow> keeps P (if c then a else b)"
  by simp

lemmas frame_compose = frame_bind frame_case_prod frame_if frame_finally frame_handle

lemma frame_locked [framed]:
  "p \<in> S \<Longrightarrow> keeps (frame S) body \<Longrightarrow> keeps (frame S) (locked_file p body)"
  unfolding locked_file_def by (intro frame_compose framed) simp_all

lemma frame_append_jsonl [framed]: "p \<in> S \<Longrightarrow> keeps (frame S) (append_jsonl p payload hl lim mx ex)"
  unfolding append_jsonl_def Let_def by (intro frame_compose framed) simp_all

lemma frame_random [framed]: "keeps (frame S) random_hex" "keeps (frame S) now_text"
  by (rule keeps_eval, simp add: random_hex_def now_text_def frame_def same_env_def)+

lemma is_temp_name: "is_temp (d @ [CHR ''.'' # a @ ''.tmp-'' @ b])"
  by (auto simp: is_temp_def name_of_def)

lemma os_mkstemp_ok:
  "os_mkstemp start d w = (Inr t, w') \<Longrightarrow>
     (\<exists>s. t = d @ [start @ s]) \<and> w_node w t = None \<and> w_node w' = (w_node w)(t := Some (RegFile [] 384 1))"
  by (auto simp: os_mkstemp_def ioE Let_def random_hex_def syscall_def put_node_def
      split: if_splits prod.splits dest!: next_fault_node)

lemma frame_bind_val:
  assumes "keeps (frame S) m" "\<And>w x w'. m w = (Inr x, w') \<Longrightarrow> keeps (frame S) (f x)"
  shows "keeps (frame S) (bind m f)"
proof (rule keeps_eval)
  fix w
  obtain r w1 where 1: "m w = (r, w1)" by fastforce
  have st: "frame S w w1" using assms(1) 1 by (rule keepsD)
  show "frame S w (snd (bind m f w))"
  proof (cases r)
    case (Inl e)
    with 1 st show ?thesis by (simp add: bind_def)
  next
    case (Inr x)
    then have "keeps (frame S) (f x)" using 1 assms(2) by blast
    then have "frame S w1 (snd (f x w1))" by (simp add: keeps_def)
    with st 1 Inr transpD [OF frame_trans] show ?thesis by (auto simp: bind_def)
  qed
qed

lemma frame_mkstemp [framed]: "keeps (frame S) (os_mkstemp (CHR ''.'' # a @ ''.tmp-'') d)"
  unfolding os_mkstemp_def
proof (rule frame_bind)
  show "keeps (frame S) random_hex" by (rule framed)
  fix x
  show "keeps (frame S) (\<lambda>w. let p = d @ [(CHR ''.'' # a @ ''.tmp-'') @ x] in
     if w_node w p \<noteq> None \<or> \<not> is_dir w d then (Inl OSError, w)
     else bind (syscall (put_node p (Some (RegFile [] 384 1)))) (\<lambda>_. ret p) w)"
  proof (rule keeps_eval)
    fix w
    let ?p = "d @ [(CHR ''.'' # a @ ''.tmp-'') @ x]"
    have "is_temp ?p" using is_temp_name [of d a x] by simp
    then have "keeps (frame S) (bind (syscall (put_node ?p (Some (RegFile [] 384 1)))) (\<lambda>_. ret ?p))"
      by (intro frame_bind framed frame_syscall frame_put frame_self) simp
    then show "frame S w (snd (let p = ?p in
       if w_node w p \<noteq> None \<or> \<not> is_dir w d then (Inl OSError, w)
       else bind (syscall (put_node p (Some (RegFile [] 384 1)))) (\<lambda>_. ret p) w))"
      unfolding Let_def keeps_def by (simp add: frame_self)
  qed
qed

lemma frame_replace_with [framed]:
  assumes "p \<in> S"
  shows "keeps (frame S) (replace_with p m enc)"
  unfolding replace_with_def
proof (rule frame_bind_val, rule framed)
  fix w t w'
  assume "os_mkstemp (CHR ''.'' # name_of p @ ''.tmp-'') (parent p) w = (Inr t, w')"
  from os_mkstemp_ok [OF this] have t: "is_temp t" using is_temp_name by auto
  show "keeps (frame S) (bind (finally_do (handle
         (bind (os_chmod t m) (\<lambda>_. bind (write_all t enc) (\<lambda>_. bind os_fsync (\<lambda>_.
          bind (reading (\<lambda>w. reject_symlink_components w True p)) (\<lambda>_.
          bind (reading (\<lambda>w. if path_exists w p then bindE (regular_file_stat w p) (\<lambda>_. Inr ()) else Inr ())) (\<lambda>_.
          bind (os_replace t p) (\<lambda>_. fsync_directory (parent p))))))))
         (\<lambda>e. if e \<in> {OSError, StoreIOError, CorruptRecordError} then raise StoreIOError else raise e))
       (unlink_if_present t)) (\<lambda>_. ret (replace_metadata (name_of p) (length enc))))"
    using t assms by (intro frame_compose framed) simp_all
qed

lemma frame_publish_json [framed]: "p \<in> S \<Longrightarrow> keeps (frame S) (publish_json p d hl)"
  unfolding publish_json_def Let_def by (intro frame_compose framed)

lemma frame_publish_bytes [framed]: "p \<in> S \<Longrightarrow> keeps (frame S) (publish_bytes p d hl)"
  unfolding publish_bytes_def by (intro frame_compose framed)

section \<open>Appending\<close>

definition bytes_at :: "world \<Rightarrow> path \<Rightarrow> string" where
  "bytes_at w p = (case w_node w p of Some (RegFile b _ _) \<Rightarrow> b | _ \<Rightarrow> [])"

lemma os_write_result:
  assumes wr: "os_write p d w = (r, w')" and p: "w_node w p = Some (RegFile b m l)"
  shows "(\<exists>e. r = Inl e) \<and> w_node w' = w_node w
      \<or> (\<exists>n \<le> length d. r = Inr n \<and> w_node w' = (w_node w)(p := Some (RegFile (b @ take n d) m l)))"
proof -
  obtain f w1 where f: "next_fault w = (f, w1)" by fastforce
  have w1: "w_node w1 = w_node w" using next_fault_same [OF f] by simp
  have tk: "take (min n (length d)) d = take n d" for n by (simp add: min_def)
  show ?thesis
  proof (cases f)
    case Proceed
    then show ?thesis using wr f w1 p by (auto simp: os_write_def append_bytes_def)
  next
    case (Short n)
    then show ?thesis using wr f w1 p tk [of n]
      by (intro disjI2 exI [of _ "min n (length d)"]) (auto simp: os_write_def append_bytes_def)
  qed (use wr f w1 in \<open>auto simp: os_write_def\<close>)
qed


lemma write_all_result:
  assumes "write_all p d w = (r, w')" "w_node w p = Some (RegFile b m l)"
  shows "\<exists>k \<le> length d. w_node w' = (w_node w)(p := Some (RegFile (b @ take k d) m l)) \<and> (r = Inr () \<longrightarrow> k = length d)"
  using assms
proof (induction p d w arbitrary: b r w' rule: write_all.induct)
  case (1 p d w)
  show ?case
  proof (cases "d = []")
    case True
    with "1.prems" have "r = Inr ()" "w' = w" by (simp_all add: write_all.simps)
    with True "1.prems"(2) show ?thesis by (auto simp: fun_upd_idem)
  next
    case False
    obtain r1 w1 where wr: "os_write p d w = (r1, w1)" by fastforce
    have one: "(\<exists>e. r1 = Inl e) \<and> w_node w1 = w_node w
      \<or> (\<exists>n \<le> length d. r1 = Inr n \<and> w_node w1 = (w_node w)(p := Some (RegFile (b @ take n d) m l)))"
      using os_write_result [OF wr "1.prems"(2)] .
    show ?thesis
    proof (cases r1)
      case (Inl e)
      with one wr False "1.prems" have "r = Inl e" "w' = w1" "w_node w1 = w_node w"
        by (auto simp: write_all.simps [of p d w])
      with "1.prems"(2) show ?thesis by (intro exI [of _ 0]) (simp add: fun_upd_idem)
    next
      case (Inr n)
      with one have n: "n \<le> length d" "w_node w1 = (w_node w)(p := Some (RegFile (b @ take n d) m l))" by auto
      show ?thesis
      proof (cases "n = 0")
        case True
        with n wr Inr False "1.prems" show ?thesis
          by (intro exI [of _ 0]) (auto simp: write_all.simps [of p d w])
      next
        case nz: False
        have rest: "write_all p (drop n d) w1 = (r, w')"
          using "1.prems"(1) wr Inr False nz by (simp add: write_all.simps [of p d w])
        have wr': "(Inr n, w1) = os_write p d w" using wr Inr by simp
        have nd: "w_node w1 p = Some (RegFile (b @ take n d) m l)" using n by simp
        obtain k where k: "k \<le> length (drop n d)"
          "w_node w' = (w_node w1)(p := Some (RegFile ((b @ take n d) @ take k (drop n d)) m l))"
          "r = Inr () \<longrightarrow> k = length (drop n d)"
          using "1.IH" [OF False wr' refl nz rest nd] by blast
        show ?thesis
          using n k by (intro exI [of _ "n + k"]) (auto simp: take_add)
      qed
    qed
  qed
qed

text \<open>\<open>quiet p\<close>: only the mode of the file at \<open>p\<close> can change, or the empty file appear.\<close>

definition quiet :: "path \<Rightarrow> world \<Rightarrow> world \<Rightarrow> bool" where
  "quiet p w w' = (bytes_at w' p = bytes_at w p \<and> (\<forall>q. q \<noteq> p \<longrightarrow> w_node w' q = w_node w q))"

lemma quiet_refl: "reflp (quiet p)"
  by (simp add: reflp_def quiet_def)

lemma quiet_trans: "transp (quiet p)"
  by (rule transpI) (simp add: quiet_def)

lemma quiet_same: "w_node w' = w_node w \<Longrightarrow> quiet p w w'"
  by (simp add: quiet_def bytes_at_def)

lemmas quiet_pure = keeps_pure [OF quiet_refl]
lemmas quiet_bind = keeps_bind [OF quiet_trans]

lemma syscall_result:
  "syscall act w = (r, w') \<Longrightarrow>
     (\<exists>w1. w_node w1 = w_node w \<and> same_env w w1 \<and> (r = Inr () \<and> w' = act w1 \<or> (r = Inl OSError \<or> r = Inl Killed) \<and> w' = w1))"
  by (auto simp: syscall_def split: prod.splits if_splits dest: next_fault_same)

lemma quiet_open: "keeps (quiet p) (os_open_create p)"
proof (rule keeps_eval)
  fix w
  obtain r w' where run: "os_open_create p w = (r, w')" by fastforce
  have "quiet p w w'"
  proof (cases "w_node w p")
    case None
    then show ?thesis
      using run by (auto simp: os_open_create_def quiet_def bytes_at_def dest!: syscall_result split: if_splits)
  next
    case (Some n)
    then show ?thesis
      using run by (cases n) (auto simp: os_open_create_def intro!: quiet_same dest!: syscall_result)
  qed
  with run show "quiet p w (snd (os_open_create p w))" by simp
qed

lemma bytes_at_with_mode: "w_node w p = Some n \<Longrightarrow> w_node w' p = Some (with_mode m n) \<Longrightarrow> bytes_at w' p = bytes_at w p"
  by (cases n) (auto simp: bytes_at_def)

lemma quiet_chmod: "keeps (quiet p) (os_chmod p m)"
proof (rule keeps_eval)
  fix w
  obtain r w' where run: "os_chmod p m w = (r, w')" by fastforce
  from os_chmod_result [OF run] have "quiet p w w'"
    using bytes_at_with_mode [of w p _ w' m] by (auto simp: quiet_same) (auto simp: quiet_def)
  with run show "quiet p w (snd (os_chmod p m w))" by simp
qed

lemma syscall_id: "syscall id w = (r, w') \<Longrightarrow> w_node w' = w_node w"
  by (auto dest: syscall_result)

lemma keeps_syscall_id:
  assumes "\<And>w w'. w_node w' = w_node w \<Longrightarrow> P w w'"
  shows "keeps P (syscall id)" "keeps P os_fsync"
proof -
  show "keeps P (syscall id)"
  proof (rule keeps_eval)
    fix w
    obtain r w' where run: "syscall id w = (r, w')" by fastforce
    from assms [OF syscall_id [OF run]] run show "P w (snd (syscall id w))" by simp
  qed
  then show "keeps P os_fsync" by (simp add: os_fsync_def)
qed

lemma quiet_fsync: "keeps (quiet p) (syscall id)" "keeps (quiet p) os_fsync"
  by (rule keeps_syscall_id, erule quiet_same)+

lemma quiet_os_error_as: "keeps (quiet p) m \<Longrightarrow> keeps (quiet p) (os_error_as e m)"
  unfolding os_error_as_def by (rule keeps_handle [OF quiet_trans]) (auto intro: quiet_pure)

lemma quiet_fstat: "keeps (quiet p) (fstat_private p)"
  unfolding fstat_private_def by (rule quiet_pure)

lemma quiet_fsync_directory: "keeps (quiet p) (fsync_directory d)"
  unfolding fsync_directory_def by (intro quiet_bind quiet_os_error_as quiet_fsync)

lemmas quiet_ops = quiet_pure quiet_open quiet_chmod quiet_fsync quiet_os_error_as quiet_fstat quiet_fsync_directory

definition append_open :: "path \<Rightarrow> string \<Rightarrow> nat \<Rightarrow> nat option \<Rightarrow> nat option \<Rightarrow> nat option \<Rightarrow> bool io" where
  "append_open p encoded hard_limit total_hard_limit max_records existing_records =
     bind (guard (length encoded > hard_limit) StoreIOError) (\<lambda>_.
     bind (reading (\<lambda>w. safe_directory w (parent p))) (\<lambda>_.
     bind (reading (\<lambda>w. reject_symlink_components w True p)) (\<lambda>_.
     bind (reading (\<lambda>w. Inr (path_exists w p))) (\<lambda>existed.
     bind (reading (\<lambda>w. if existed then bindE (regular_file_stat w p) (\<lambda>_. Inr ()) else Inr ())) (\<lambda>_.
     bind (os_error_as StoreIOError (os_open_create p)) (\<lambda>_.
     bind (fstat_private p) (\<lambda>(b, m).
     bind (guard (case total_hard_limit of None \<Rightarrow> False | Some n \<Rightarrow> length b + length encoded > n) StoreIOError) (\<lambda>_.
     bind (guard (case (max_records, existing_records) of (Some n, Some k) \<Rightarrow> k \<ge> n | _ \<Rightarrow> False) StoreIOError) (\<lambda>_.
     bind (os_chmod p (private_mode m)) (\<lambda>_. ret existed))))))))))"

lemma bind_ret: "bind (ret x) f = f x"
  by (simp add: bind_def ret_def fun_eq_iff)

lemma bind_case_prod: "bind (case x of (a, b) \<Rightarrow> f a b) g = (case x of (a, b) \<Rightarrow> bind (f a b) g)"
  by (cases x) simp

lemma append_jsonl_split:
  "append_jsonl p payload hl lim mx ex =
     (let encoded = utf8_encode (canonical_json (PDict payload) @ [CHR 0x0A]) in
      bind (append_open p encoded hl lim mx ex) (\<lambda>existed.
      bind (write_all p encoded) (\<lambda>_.
      bind (bind os_fsync (\<lambda>_. if existed then ret () else fsync_directory (parent p))) (\<lambda>_.
      ret (append_metadata (name_of p) (length encoded))))))"
  unfolding append_jsonl_def append_open_def Let_def bind_assoc bind_case_prod bind_ret ..

lemma quiet_append_open: "keeps (quiet p) (append_open p enc hl lim mx ex)"
  unfolding append_open_def by (intro quiet_bind frame_case_prod quiet_ops)

lemma append_open_ok:
  assumes "append_open p enc hl lim mx ex w = (Inr existed, w')" and p: "p \<noteq> []"
  shows "length enc \<le> hl \<and> no_links w p
    \<and> (\<exists>m. w_node w' p = Some (RegFile (bytes_at w p) (private_mode m) 1))
    \<and> (\<forall>n. lim = Some n \<longrightarrow> length (bytes_at w p) + length enc \<le> n)
    \<and> (\<forall>n k. mx = Some n \<longrightarrow> ex = Some k \<longrightarrow> k < n)"
proof -
  obtain w1 b m where len: "length enc \<le> hl" and nl: "no_links w p"
    and op: "os_error_as StoreIOError (os_open_create p) w = (Inr (), w1)"
    and st: "fstat_private p w1 = (Inr (b, m), w1)"
    and l1: "\<not> (case lim of None \<Rightarrow> False | Some n \<Rightarrow> length b + length enc > n)"
    and l2: "\<not> (case (mx, ex) of (Some n, Some k) \<Rightarrow> k \<ge> n | _ \<Rightarrow> False)"
    and ch: "os_chmod p (private_mode m) w1 = (Inr (), w')"
    using assms(1) by (auto simp: append_open_def bind_Inr guardE_eq_Inr reject_missing_ok fstat_private_def)
  have op': "os_open_create p w = (Inr (), w1)"
    using op by (auto simp: os_error_as_def handle_def split: prod.splits sum.splits if_splits)
  have q: "bytes_at w1 p = bytes_at w p"
    using quiet_open [of p, THEN keepsD, OF op'] by (simp add: quiet_def)
  have n1: "w_node w1 p = Some (RegFile b m 1)"
    using st by (auto simp: fstat_private_def split: option.splits node.splits if_splits)
  with q have b: "b = bytes_at w p" by (simp add: bytes_at_def)
  have "w_node w' p = Some (RegFile (bytes_at w p) (private_mode m) 1)"
    using os_chmod_result [OF ch] n1 p b by auto
  then show ?thesis
    using b len nl l1 l2 by (auto split: option.splits)
qed

definition still :: "world \<Rightarrow> world \<Rightarrow> bool" where
  "still w w' = (w_node w' = w_node w)"

lemma still_preorder: "reflp still" "transp still"
  by (auto simp: reflp_def transp_def still_def)

lemmas still_bind = keeps_bind [OF still_preorder(2)]

lemma still_fsync: "keeps still (syscall id)" "keeps still os_fsync"
  by (rule keeps_syscall_id, simp add: still_def)+

lemma still_fsync_directory: "keeps still (fsync_directory d)"
  unfolding fsync_directory_def os_error_as_def
  by (intro still_bind still_fsync keeps_handle [OF still_preorder(2)] frame_if keeps_pure still_preorder)

lemmas still_ops = keeps_pure [OF still_preorder(1)] still_fsync still_fsync_directory

text \<open>
  Whatever fails: the file has gained an initial part of the new line, all
  other files are as they were; and a successful append adds exactly the line.
\<close>

definition json_line :: "pdict \<Rightarrow> string" where
  "json_line d = utf8_encode (canonical_json (PDict d) @ [CHR 0x0A])"

lemma append_jsonl_result:
  assumes run: "append_jsonl p d hl lim mx ex w = (r, w')" and p: "p \<noteq> []"
  shows "\<exists>k \<le> length (json_line d). bytes_at w' p = bytes_at w p @ take k (json_line d)
    \<and> (\<forall>q. q \<noteq> p \<longrightarrow> w_node w' q = w_node w q)
    \<and> (\<forall>md. r = Inr md \<longrightarrow> k = length (json_line d) \<and> md = append_metadata (name_of p) (length (json_line d))
         \<and> length (json_line d) \<le> hl
         \<and> (\<exists>m. w_node w' p = Some (RegFile (bytes_at w p @ json_line d) (private_mode m) 1))
         \<and> (\<forall>n. lim = Some n \<longrightarrow> length (bytes_at w p @ json_line d) \<le> n)
         \<and> (\<forall>n k. mx = Some n \<longrightarrow> ex = Some k \<longrightarrow> k < n))"
proof -
  let ?line = "json_line d"
  obtain r1 w1 where pre: "append_open p ?line hl lim mx ex w = (r1, w1)" by fastforce
  have q1: "quiet p w w1" using quiet_append_open pre by (rule keepsD)
  show ?thesis
  proof (cases r1)
    case (Inl e)
    then have "r = Inl e" "w' = w1"
      using run pre by (simp_all add: append_jsonl_split json_line_def Let_def bind_def)
    with q1 show ?thesis by (intro exI [of _ 0]) (simp add: quiet_def)
  next
    case (Inr existed)
    note pre_ok = append_open_ok [OF pre [unfolded Inr] p]
    then obtain m where n1: "w_node w1 p = Some (RegFile (bytes_at w p) (private_mode m) 1)" by blast
    obtain r2 w2 where wr: "write_all p ?line w1 = (r2, w2)" by fastforce
    obtain k where k: "k \<le> length ?line" "r2 = Inr () \<longrightarrow> k = length ?line"
      and n2: "w_node w2 = (w_node w1)(p := Some (RegFile (bytes_at w p @ take k ?line) (private_mode m) 1))"
      using write_all_result [OF wr n1] by blast
    have b2: "bytes_at w2 p = bytes_at w p @ take k ?line" using n2 by (simp add: bytes_at_def)
    have o2: "w_node w2 q = w_node w q" if "q \<noteq> p" for q using n2 q1 that by (simp add: quiet_def)
    show ?thesis
    proof (cases r2)
      case (Inl e)
      then have "r = Inl e" "w' = w2"
        using run pre Inr wr by (simp_all add: append_jsonl_split json_line_def Let_def bind_def)
      with k b2 o2 show ?thesis by (intro exI [of _ k]) simp
    next
      case ok2: (Inr u)
      let ?post = "bind os_fsync (\<lambda>_. if existed then ret () else fsync_directory (parent p))"
      obtain r3 w3 where po: "?post w2 = (r3, w3)" by fastforce
      have fin: "w' = w3" "r = (case r3 of Inl e \<Rightarrow> Inl e | Inr _ \<Rightarrow> Inr (append_metadata (name_of p) (length ?line)))"
        using run po
        unfolding append_jsonl_split Let_def json_line_def [symmetric]
          bind_step [where m = "append_open p ?line hl lim mx ex", OF pre [unfolded Inr]]
          bind_step [where m = "write_all p ?line", OF wr [unfolded ok2]]
        by (auto simp: bind_def [of ?post] split: sum.splits)
      have same: "w_node w3 = w_node w2"
      proof
        fix q
        have "keeps still ?post" by (intro still_bind frame_if still_ops)
        then show "w_node w3 q = w_node w2 q" using po by (auto simp: still_def dest: keepsD)
      qed
      then have "bytes_at w3 p = bytes_at w2 p" by (simp add: bytes_at_def)
      with fin k b2 o2 same n2 ok2 pre_ok show ?thesis
        by (intro exI [of _ k]) (auto split: sum.splits)
    qed
  qed
qed

section \<open>Atomic replacement\<close>

definition replace_steps :: "path \<Rightarrow> path \<Rightarrow> nat \<Rightarrow> string \<Rightarrow> unit io" where
  "replace_steps t p m encoded =
     bind (os_chmod t m) (\<lambda>_. bind (write_all t encoded) (\<lambda>_. bind os_fsync (\<lambda>_.
     bind (reading (\<lambda>w. reject_symlink_components w True p)) (\<lambda>_.
     bind (reading (\<lambda>w. if path_exists w p then bindE (regular_file_stat w p) (\<lambda>_. Inr ()) else Inr ())) (\<lambda>_.
     bind (os_replace t p) (\<lambda>_. fsync_directory (parent p)))))))"

lemma os_replace_result:
  assumes "os_replace t p w = (r, w')" "w_node w t = Some n"
  shows "(r = Inr () \<and> w_node w' = (w_node w)(p := Some n, t := None)) \<or> (\<exists>e. r = Inl e) \<and> w_node w' = w_node w"
  using assms by (auto simp: os_replace_def split: if_splits dest!: syscall_result)

lemma bind_cases:
  assumes "bind m f w = (r, w')"
  obtains (fails) e where "m w = (Inl e, w')" "r = Inl e"
    | (goes) x w1 where "m w = (Inr x, w1)" "f x w1 = (r, w')"
  using assms by (auto simp: bind_def split: prod.splits sum.splits)

lemma bind_readingE:
  assumes "bind (reading f) g w = (r, w')"
  obtains e where "r = Inl e" "w' = w" | x where "f w = Inr x" "g x w = (r, w')"
  using assms by (auto simp: bind_def split: sum.splits)

lemma replace_steps_result:
  assumes run: "replace_steps t p m enc w = (r, w')" and tp: "t \<noteq> p" "t \<noteq> []"
    and t: "w_node w t = Some (RegFile [] m0 1)"
  shows "(\<forall>q. q \<noteq> t \<longrightarrow> q \<noteq> p \<longrightarrow> w_node w' q = w_node w q)
    \<and> (w_node w' p = w_node w p \<or> w_node w' p = Some (RegFile enc m 1))
    \<and> (r = Inr () \<longrightarrow> w_node w' p = Some (RegFile enc m 1))"
  using run unfolding replace_steps_def
proof (cases rule: bind_cases)
  case (fails e)
  with os_chmod_result [OF fails(1)] show ?thesis by auto
next
  case (goes u w1)
  have t1: "w_node w1 t = Some (RegFile [] m 1)" and o1: "\<And>q. q \<noteq> t \<Longrightarrow> w_node w1 q = w_node w q"
    using os_chmod_result [OF goes(1)] t tp by auto
  from goes(2) show ?thesis
  proof (cases rule: bind_cases)
    case (fails e)
    with write_all_result [OF fails(1) t1] o1 tp show ?thesis by auto
  next
    case (goes u2 w2)
    have t2: "w_node w2 t = Some (RegFile enc m 1)" and o2: "\<And>q. q \<noteq> t \<Longrightarrow> w_node w2 q = w_node w q"
      using write_all_result [OF goes(1) t1] o1 by auto
    from goes(2) show ?thesis
    proof (cases rule: bind_cases)
      case (fails e)
      with still_fsync(2) [THEN keepsD, OF fails(1)] o2 tp show ?thesis by (simp add: still_def)
    next
      case (goes u3 w3)
      have s3: "w_node w3 = w_node w2" using still_fsync(2) [THEN keepsD, OF goes(1)] by (simp add: still_def)
      obtain r4 w4 where rest: "bind (os_replace t p) (\<lambda>_. fsync_directory (parent p)) w3 = (r4, w4)" by fastforce
      have alt: "w' = w3 \<and> (\<exists>e. r = Inl e) \<or> r = r4 \<and> w' = w4"
        using goes(2) rest by (elim bind_readingE [where 'a = unit]) auto
      from rest have "(\<forall>q. q \<noteq> t \<longrightarrow> q \<noteq> p \<longrightarrow> w_node w4 q = w_node w3 q)
          \<and> (w_node w4 p = w_node w3 p \<or> w_node w4 p = Some (RegFile enc m 1))
          \<and> (r4 = Inr () \<longrightarrow> w_node w4 p = Some (RegFile enc m 1))"
      proof (cases rule: bind_cases)
        case (fails e)
        with os_replace_result [OF fails(1)] t2 s3 show ?thesis by auto
      next
        case (goes u5 w5)
        have "w_node w5 = (w_node w3)(p := Some (RegFile enc m 1), t := None)"
          using os_replace_result [OF goes(1)] t2 s3 by auto
        moreover have "w_node w4 = w_node w5"
          using still_fsync_directory [THEN keepsD, OF goes(2)] by (simp add: still_def)
        ultimately show ?thesis using tp by auto
      qed
      with alt s3 o2 tp show ?thesis by auto
    qed
  qed
qed

lemma still_mkstemp_failure: "os_mkstemp start d w = (Inl e, w') \<Longrightarrow> w_node w' = w_node w"
  by (auto simp: os_mkstemp_def bind_Inl Let_def random_hex_def dest!: syscall_result split: if_splits)

lemma replace_with_result:
  assumes run: "replace_with p m enc w = (r, w')" and nt: "\<not> is_temp p"
  shows "(w_node w' p = w_node w p \<or> w_node w' p = Some (RegFile enc m 1))
    \<and> (\<forall>md. r = Inr md \<longrightarrow> w_node w' p = Some (RegFile enc m 1) \<and> md = replace_metadata (name_of p) (length enc))
    \<and> (r \<noteq> Inl Killed \<longrightarrow> (\<forall>q. q \<noteq> p \<longrightarrow> w_node w' q = w_node w q))"
  using run unfolding replace_with_def replace_steps_def [symmetric]
proof (cases rule: bind_cases)
  case (fails e)
  with still_mkstemp_failure [OF fails(1)] show ?thesis by simp
next
  case (goes t w1)
  obtain s where ts: "t = parent p @ [(CHR ''.'' # name_of p @ ''.tmp-'') @ s]" and t0: "w_node w t = None"
    and w1: "w_node w1 = (w_node w)(t := Some (RegFile [] 384 1))"
    using os_mkstemp_ok [OF goes(1)] by auto
  have "is_temp t" using is_temp_name [of "parent p" "name_of p" s] by (simp add: ts)
  then have tp: "t \<noteq> p" "t \<noteq> []" using nt by (auto simp: ts)
  obtain r2 w2 where st: "replace_steps t p m enc w1 = (r2, w2)" by fastforce
  have t1: "w_node w1 t = Some (RegFile [] 384 1)" using w1 by simp
  note res = replace_steps_result [OF st tp t1]
  let ?h = "\<lambda>e. if e \<in> {OSError, StoreIOError, CorruptRecordError} then raise StoreIOError else raise e :: unit io"
  have hw: "handle (replace_steps t p m enc) ?h w1 = (case r2 of Inr u \<Rightarrow> Inr u
     | Inl e \<Rightarrow> if e \<in> {OSError, StoreIOError, CorruptRecordError} then Inl StoreIOError else Inl e, w2)"
    using st by (auto simp: handle_def split: sum.splits)
  have p1: "w_node w1 p = w_node w p" using w1 tp by simp
  show ?thesis
  proof (cases "r2 = Inl Killed")
    case True
    then have "r = Inl Killed" "w' = w2"
      using goes(2) hw by (simp_all add: bind_def finally_do_def)
    with res p1 show ?thesis by simp
  next
    case False
    then have w': "w' = put_node t None w2" and
      r: "r = (case r2 of Inr u \<Rightarrow> Inr (replace_metadata (name_of p) (length enc))
     | Inl e \<Rightarrow> if e \<in> {OSError, StoreIOError, CorruptRecordError} then Inl StoreIOError else Inl e)"
      using goes(2) hw by (auto simp: bind_def finally_do_def unlink_if_present_def split: sum.splits if_splits)
    have "w_node w' q = w_node w q" if "q \<noteq> p" for q
      using that res w1 t0 by (cases "q = t") (simp_all add: w')
    with res p1 tp r show ?thesis by (auto simp: w' split: sum.splits if_splits)
  qed
qed

lemma private_mode_private [simp]: "private_mode m AND 63 = 0"
proof -
  have "(m AND 384) AND 63 = m AND (384 AND 63 :: nat)" by (simp add: ac_simps)
  also have "(384 AND 63 :: nat) = 0" by simp
  finally show ?thesis by (simp add: private_mode_def)
qed

lemma safe_directory_ok:
  "safe_directory w d = Inr u \<longleftrightarrow> no_links w d \<and> all_present w d \<and> (d = [] \<and> \<not> w_bad w [] \<or> (\<exists>m. w_node w d = Some (Dir m) \<and> \<not> w_bad w d \<and> d \<noteq> []))"
  by (auto simp: safe_directory_def resE reject_present directory_stat_def lstat_def
      split: lstat_result.splits node.splits if_splits option.splits)

lemma prefix_parent: "p \<noteq> [] \<Longrightarrow> prefix q p \<Longrightarrow> q = p \<or> prefix q (parent p)"
  by (metis append_butlast_last_id parent_def prefix_snoc)

lemma readable_intro:
  assumes nl: "no_links w p" and p: "p \<noteq> []" and dir: "all_present w (parent p)" and env: "same_env w w'"
    and others: "\<And>q. q \<noteq> p \<Longrightarrow> w_node w' q = w_node w q"
    and fl: "w_node w' p = Some (RegFile b m 1)" and priv: "m AND 63 = 0" and rd: "\<not> w_noread w p"
  shows "readable w' p b"
proof -
  have bad: "w_bad w' = w_bad w" "w_noread w' = w_noread w" using env by (auto simp: same_env_def)
  have plain: "plain_at w' q" if "plain_at w q" for q
    using that others [of q] fl bad p by (cases "q = p") (auto simp: plain_at_def lstat_def)
  have "no_links w' p" using nl plain by (auto simp: no_links_def)
  moreover have "all_present w' p"
    using dir others fl prefix_parent [OF p]
    by (simp add: all_present_def) (metis option.distinct(1))
  ultimately show ?thesis using p fl priv rd bad by (auto simp: readable_def)
qed

definition json_bytes :: "pdict \<Rightarrow> string" where
  "json_bytes d = utf8_encode (canonical_json (PDict d))"

lemma publish_json_result:
  assumes run: "publish_json p d hl w = (r, w')" and nt: "\<not> is_temp p" and p: "p \<noteq> []"
  shows "(w_node w' p = w_node w p \<or> (\<exists>m. w_node w' p = Some (RegFile (json_bytes d) (private_mode m) 1)))
    \<and> (r \<noteq> Inl Killed \<longrightarrow> (\<forall>q. q \<noteq> p \<longrightarrow> w_node w' q = w_node w q))
    \<and> (\<forall>md. r = Inr md \<longrightarrow>
         (\<exists>m. w_node w' p = Some (RegFile (json_bytes d) m 1) \<and> m AND 63 = 0)
         \<and> length (json_bytes d) \<le> hl \<and> all_present w (parent p)
         \<and> (md = no_write \<and> w' = w \<or> md = replace_metadata (name_of p) (length (json_bytes d))))"
proof -
  let ?enc = "json_bytes d"
  have m384: "private_mode 384 = 384" by (simp add: private_mode_def)
  from run show ?thesis
    unfolding publish_json_def Let_def json_bytes_def [symmetric]
  proof (cases rule: bind_cases)
    case (fails e)
    then have "w' = w" by simp
    with fails(2) show ?thesis by simp
  next
    case (goes u w0)
    then have len: "length ?enc \<le> hl" and w0: "w0 = w" by (auto simp: guardE_eq_Inr)
    from goes(2) [unfolded w0] show ?thesis
    proof (cases rule: bind_readingE)
      case (2 u2)
      then have pres: "all_present w (parent p)" by (simp add: safe_directory_ok)
      from 2(2) show ?thesis
      proof (cases rule: bind_readingE)
        case (2 x)
        obtain existing mode where x: "x = (existing, mode)" by (cases x)
        have ex: "(existing = None \<and> mode = private_mode 384)
          \<or> (\<exists>b m. existing = Some b \<and> mode = private_mode m \<and> w_node w p = Some (RegFile b m 1) \<and> m AND 63 = 0)"
          using 2(1) x m384
          by (auto simp: resE regular_file_stat_ok read_bytes_ok readable_def split: if_splits)
        show ?thesis
        proof (cases "existing = Some ?enc")
          case True
          with 2(2) x have "r = Inr no_write" "w' = w" by auto
          with ex True len pres show ?thesis by auto
        next
          case False
          with 2(2) x have "replace_with p mode ?enc w = (r, w')" by simp
          from replace_with_result [OF this nt] ex len pres show ?thesis by auto
        qed
      qed (simp_all)
    qed simp_all
  qed
qed

lemma publish_readable:
  assumes run: "publish_json p d hl w = (Inr md, w')" and nt: "\<not> is_temp p" and p: "p \<noteq> []"
    and nl: "no_links w p" and rd: "\<not> w_noread w p"
  shows "readable w' p (json_bytes d)"
proof -
  note res = publish_json_result [OF run nt p]
  then obtain m where m: "w_node w' p = Some (RegFile (json_bytes d) m 1)" "m AND 63 = 0" by auto
  have "same_env w w'"
    using frame_publish_json [of p "{p}" d hl, THEN keepsD, OF _ run] by (simp add: frame_def)
  then show ?thesis using res m nl rd p by (intro readable_intro [of w p w']) auto
qed

lemma append_readable:
  assumes run: "append_jsonl p d hl lim mx ex w = (Inr md, w')" and p: "p \<noteq> []" and rd: "\<not> w_noread w p"
  shows "readable w' p (bytes_at w p @ json_line d)"
proof -
  obtain existed w1 where pre: "append_open p (json_line d) hl lim mx ex w = (Inr existed, w1)"
    using run by (auto simp: append_jsonl_split json_line_def Let_def bind_Inr)
  have nl: "no_links w p" using append_open_ok [OF pre p] by simp
  have pres: "all_present w (parent p)"
    using pre by (auto simp: append_open_def bind_Inr safe_directory_ok)
  note res = append_jsonl_result [OF run p]
  then obtain m where "w_node w' p = Some (RegFile (bytes_at w p @ json_line d) (private_mode m) 1)" by auto
  moreover have "same_env w w'"
    using frame_append_jsonl [of p "{p}" d hl lim mx ex, THEN keepsD, OF _ run] by (simp add: frame_def)
  ultimately show ?thesis using res nl pres rd p by (intro readable_intro [of w p w']) auto
qed

end
