(* ===== verification/Journal.thy ===== *)
theory Journal
  imports StoreIO
begin

text \<open>
  The journal format of \<open>io.py\<close>: one canonical JSON record per line.  Writing a
  record as a line and decoding it gives the record back, and appending a line
  to a journal that reads as \<open>recs\<close> gives a journal that reads as
  \<open>recs @ [record]\<close>.
\<close>

section \<open>Journals are read back line by line\<close>

lemma json_line_loads: "wf_py v \<Longrightarrow> json_loads (canonical_json v @ [CHR 0x0A]) = Some v"
proof -
  assume wf: "wf_py v"
  let ?s = "canonical_json v @ [CHR 0x0A]"
  have "p_value (2 * length ?s + 2) ?s = Some (v, [CHR 0x0A])"
    using p_value_canonical [OF wf] by (intro reads_backD) (auto simp: num_end_def)
  then show ?thesis
    using skip_ws_canonical [OF wf, of "[CHR 0x0A]"] by (simp add: json_loads_def skip_ws_def json_ws_def del: p_value.simps)
qed

lemma decode_json_line:
  "wf_py (PDict d) \<Longrightarrow> decode_record v (json_line d) = v (PDict d)"
  by (simp only: decode_record_def json_line_def utf8_decode_encode option.case json_line_loads s_object_def py.case bindE_Inr)

lemma decode_json_bytes: "wf_py (PDict d) \<Longrightarrow> decode_record v (json_bytes d) = v (PDict d)"
  by (simp only: decode_record_def json_bytes_def utf8_decode_encode option.case json_roundtrip s_object_def py.case bindE_Inr)

lemma utf8_char_line: "c \<noteq> CHR 0x0A \<Longrightarrow> c \<noteq> CHR 0x0D \<Longrightarrow> one_line (utf8_char c)"
proof -
  assume c: "c \<noteq> CHR 0x0A" "c \<noteq> CHR 0x0D"
  have "char_of (128 + n :: nat) \<noteq> CHR 0x0A \<and> char_of (128 + n) \<noteq> CHR 0x0D" if "n < 128" for n :: nat
  proof -
    have o: "ordc (char_of (128 + n) :: char) = (128 + n :: nat)" using that by simp
    have "char_of (128 + n) \<noteq> d" if "ordc d < (128 :: nat)" for d
      using that o by (metis not_add_less1)
    from this [of "CHR 0x0A"] this [of "CHR 0x0D"] show ?thesis by simp
  qed
  moreover have "(ordc c :: nat) < 256" by (metis mod_less_divisor of_char_mod_256 zero_less_numeral)
  then have "64 + (ordc c :: nat) div 64 < 128" by linarith
  moreover have "(ordc c :: nat) mod 64 < 128" by (rule less_trans [of _ 64]) simp_all
  ultimately have "char_of (128 + (64 + ordc c div 64)) \<noteq> CHR 0x0A \<and> char_of (128 + (64 + ordc c div 64)) \<noteq> CHR 0x0D"
    "char_of (128 + ordc c mod 64) \<noteq> CHR 0x0A \<and> char_of (128 + ordc c mod 64) \<noteq> CHR 0x0D" by blast+
  with c show ?thesis by (simp add: utf8_char_def)
qed

lemma utf8_line: "one_line s \<Longrightarrow> one_line (utf8_encode s)"
  by (induction s) (auto simp: utf8_char_line)

lemma json_line_shape: "wf_py (PDict d) \<Longrightarrow> \<exists>l. json_line d = l @ [CHR 0x0A] \<and> one_line l \<and> l \<noteq> []"
  by (rule exI [of _ "json_bytes d"])
    (simp add: json_line_def json_bytes_def utf8_line one_line_json utf8_char_def del: canonical_json.simps, simp add: utf8_char_def)

lemma byte_lines_line: "one_line l \<Longrightarrow> byte_lines acc (l @ CHR 0x0A # s) = (rev acc @ l @ [CHR 0x0A]) # byte_lines [] s"
  by (induction l arbitrary: acc) auto

lemma concat_byte_lines: "concat (byte_lines acc b) = rev acc @ b"
  by (induction acc b rule: byte_lines.induct) (auto split: list.splits)

lemma byte_lines_append:
  "b = [] \<and> acc = [] \<or> (b \<noteq> [] \<and> last b = CHR 0x0A) \<Longrightarrow> byte_lines acc (b @ x) = byte_lines acc b @ byte_lines [] x"
proof (induction acc b rule: byte_lines.induct)
  case (1 acc)
  then show ?case by simp
next
  case (2 acc c s)
  then have l: "last (c # s) = CHR 0x0A" by simp
  consider (lf) "c = CHR 0x0A" | (crlf) s' where "c = CHR 0x0D" "s = CHR 0x0A # s'"
    | (cr) d s' where "c = CHR 0x0D" "s = d # s'" "d \<noteq> CHR 0x0A" | (other) "c \<noteq> CHR 0x0A" "c \<noteq> CHR 0x0D"
    using l by (cases s) (auto split: if_splits)
  then show ?case
  proof cases
    case lf
    with l have "s = [] \<or> s \<noteq> [] \<and> last s = CHR 0x0A" by (auto split: if_splits)
    with lf "2.IH"(1) show ?thesis by auto
  next
    case crlf
    with l have "s' = [] \<or> s' \<noteq> [] \<and> last s' = CHR 0x0A" by (auto split: if_splits)
    with crlf "2.IH"(2) [of "CHR 0x0A" s'] show ?thesis by auto
  next
    case cr
    with l have "s \<noteq> [] \<and> last s = CHR 0x0A" by auto
    with cr "2.IH"(3) [of d s'] show ?thesis by auto
  next
    case other
    with l have "s \<noteq> [] \<and> last s = CHR 0x0A" by (auto split: if_splits)
    with other "2.IH"(4) show ?thesis by auto
  qed
qed

definition terminated :: "string list \<Rightarrow> bool" where
  "terminated ls = list_all (\<lambda>l. l \<noteq> [] \<and> last l = CHR 0x0A) ls"

lemma ends_with_newline: "ends_with l [CHR 0x0A] \<longleftrightarrow> l \<noteq> [] \<and> last l = CHR 0x0A"
  by (cases l rule: rev_cases) (auto simp: ends_with_def)

lemma terminated_concat: "terminated ls \<Longrightarrow> concat ls = [] \<or> last (concat ls) = CHR 0x0A"
  by (induction ls) (auto simp: terminated_def last_append)

lemma jsonl_loop_terminated: "jsonl_loop v mx acc ls = Inr (recs, False) \<Longrightarrow> terminated ls"
  by (induction v mx acc ls rule: jsonl_loop.induct)
    (auto simp: terminated_def ends_with_newline split: if_splits sum.splits)

lemma jsonl_loop_append:
  "jsonl_loop v mx acc ls = Inr (recs, False) \<Longrightarrow> jsonl_loop v mx acc (ls @ ms) = jsonl_loop v mx recs ms"
  by (induction v mx acc ls rule: jsonl_loop.induct) (auto split: if_splits sum.splits)

lemma jsonl_append_line:
  assumes loop: "jsonl_loop v mx [] (byte_lines [] b) = Inr (recs, False)"
    and wf: "wf_py (PDict d)" and v: "v (PDict d) = Inr d" and len: "length recs < mx"
  shows "jsonl_loop v mx [] (byte_lines [] (b @ json_line d)) = Inr (recs @ [d], False)"
proof -
  obtain l where l: "json_line d = l @ [CHR 0x0A]" "one_line l" "l \<noteq> []" using json_line_shape [OF wf] by blast
  have "b = [] \<or> last b = CHR 0x0A"
    using terminated_concat [OF jsonl_loop_terminated [OF loop]] by (simp add: concat_byte_lines)
  then have "byte_lines [] (b @ json_line d) = byte_lines [] b @ byte_lines [] (json_line d)"
    by (intro byte_lines_append) auto
  also have "byte_lines [] (json_line d) = [json_line d]"
    using byte_lines_line [OF l(2), of "[]" "[]"] l(1) by simp
  finally have "jsonl_loop v mx [] (byte_lines [] (b @ json_line d)) = jsonl_loop v mx recs [json_line d]"
    using jsonl_loop_append [OF loop] by simp
  moreover have "\<not> blank_bytes (json_line d)"
    by (simp add: json_line_def blank_bytes_def utf8_char_def)
  moreover have "ends_with (json_line d) [CHR 0x0A]" by (simp add: l(1) ends_with_newline)
  ultimately show ?thesis using decode_json_line [OF wf] len v by simp
qed

end
