(* ===== verification/StoreData.thy ===== *)
theory StoreData
  imports Journal
begin

text \<open>
  The pure part of \<open>.codex/hooks/shared/implementation_store/store.py\<close>: how an
  event is built from a state, how a state follows from an event, the checks on
  a journal and on the ownership of a record, and the payload whose digest
  identifies an operation.  The lemmas make the journal an event log: every
  applied event advances the cursor and the generation by one, and a journal
  with a valid hash chain is determined by its last hash.
\<close>

section \<open>Identities and provenance\<close>

definition path_str :: "path \<Rightarrow> string" where
  "path_str p = CHR ''/'' # join ''/'' p"

definition repo_identity :: "env \<Rightarrow> path \<Rightarrow> string" where
  "repo_identity E primary = ''repo-'' @ take 24 (env_sha E (utf8_encode (path_str primary)))"

text \<open>\<open>dict(v or {})\<close>; a list of pairs as argument is not modelled.\<close>

definition py_dict :: "py \<Rightarrow> pdict res" where
  "py_dict v = (if \<not> truthy v then Inr [] else case v of
     PDict d \<Rightarrow> Inr d | PStr _ \<Rightarrow> Inl ValueError | PList _ \<Rightarrow> Inl ValueError | _ \<Rightarrow> Inl TypeError)"

definition provenance_fields :: "pdict option \<Rightarrow> pdict res" where
  "provenance_fields provenance =
     (let source = (case provenance of None \<Rightarrow> [] | Some d \<Rightarrow> d) in
      bindE (py_dict (dget source ''git'' PNone)) (\<lambda>git.
      Inr (mk_dict [
        (''git'', PDict git),
        (''writer_session_id'', dget source ''writer_session_id'' (PStr [])),
        (''model_family'', dget source ''model_family'' (PStr ''unknown'')),
        (''model_source'', dget source ''model_source'' (PStr ''unknown'')),
        (''model_verified'', dget source ''model_verified'' (PBool False)),
        (''origin'', dget source ''origin'' (PStr ''implementation-progress'')),
        (''intent'', dget source ''intent'' (PStr ''progress-maintenance''))])))"

definition provenance_for_store :: "env \<Rightarrow> store_paths \<Rightarrow> pdict option \<Rightarrow> pdict res" where
  "provenance_for_store E P provenance =
     bindE (provenance_fields provenance) (\<lambda>fs.
     bindE (py_dict (dget fs ''git'' PNone)) (\<lambda>git.
     let expected = PStr (repo_identity E (primary_root P)); supplied = dget git ''repository_id'' (PStr []) in
     bindE (guardE (truthy supplied \<and> supplied \<noteq> expected) StoreError) (\<lambda>_.
     bindE (guardE (dget fs ''origin'' PNone \<noteq> PStr ''implementation-progress''
                    \<or> dget fs ''intent'' PNone \<noteq> PStr ''progress-maintenance'') StoreError) (\<lambda>_.
     Inr (dset ''git'' (PDict (dset ''repository_id'' expected git)) fs)))))"

definition repository_id_of :: "pdict \<Rightarrow> py" where
  "repository_id_of rec = dget (dict_of (dget rec ''git'' (PDict []))) ''repository_id'' (PStr [])"

definition validate_ownership :: "env \<Rightarrow> store_paths \<Rightarrow> pdict \<Rightarrow> unit res" where
  "validate_ownership E P state =
     guardE (truthy (repository_id_of state)
             \<and> repository_id_of state \<noteq> PStr (repo_identity E (primary_root P))) IntegrityError"

definition validate_event_ownership :: "env \<Rightarrow> store_paths \<Rightarrow> pdict list \<Rightarrow> unit res" where
  "validate_event_ownership E P events =
     guardE (list_ex (\<lambda>ev. truthy (repository_id_of ev)
             \<and> repository_id_of ev \<noteq> PStr (repo_identity E (primary_root P))) events) IntegrityError"

section \<open>Journal checks\<close>

fun validate_chain :: "env \<Rightarrow> int \<Rightarrow> py \<Rightarrow> pdict list \<Rightarrow> unit res" where
  "validate_chain E expected previous [] = Inr ()"
| "validate_chain E expected previous (ev # events) =
     bindE (guardE (dget ev ''sequence'' PNone \<noteq> PInt expected) IntegrityError) (\<lambda>_.
     bindE (guardE (dget ev ''previous_event_hash'' (PStr []) \<noteq> previous) IntegrityError) (\<lambda>_.
     bindE (guardE (\<not> truthy (dget ev ''record_hash'' PNone)
                    \<or> dget ev ''record_hash'' PNone \<noteq> PStr (event_record_hash E ev)) IntegrityError) (\<lambda>_.
     validate_chain E (expected + 1) (dget ev ''record_hash'' PNone) events)))"

definition validate_sequence_and_hashes :: "env \<Rightarrow> pdict list \<Rightarrow> unit res" where
  "validate_sequence_and_hashes E events = validate_chain E 1 (PStr []) events"

definition cursor :: "pdict \<Rightarrow> int" where
  "cursor state = int_of_py (dget state ''last_event_sequence'' (PInt 0))"

definition validate_state_cursor :: "pdict \<Rightarrow> pdict list \<Rightarrow> unit res" where
  "validate_state_cursor state events =
     (let sequence = cursor state in
      if sequence > int (length events) then Inl IntegrityError
      else if sequence = 0 then guardE (truthy (dget state ''last_event_hash'' (PStr []))) IntegrityError
      else guardE (dget state ''last_event_hash'' PNone
                   \<noteq> dget (events ! nat (sequence - 1)) ''record_hash'' PNone) IntegrityError)"

section \<open>From an event to the next state\<close>

definition expected_of :: "py \<Rightarrow> string option" where
  "expected_of v = (case v of PNone \<Rightarrow> None | PStr s \<Rightarrow> Some s | _ \<Rightarrow> Some [])"

text \<open>\<open>for field in fields: if field in event: result[field] = event[field]\<close>\<close>

fun copy_fields :: "string list \<Rightarrow> pdict \<Rightarrow> pdict \<Rightarrow> pdict" where
  "copy_fields [] ev result = result"
| "copy_fields (k # ks) ev result =
     copy_fields ks ev (case map_of ev k of None \<Rightarrow> result | Some v \<Rightarrow> dset k v result)"

definition after_event_raw :: "pdict \<Rightarrow> pdict \<Rightarrow> string \<Rightarrow> pdict" where
  "after_event_raw state ev timestamp =
     (let r0 = dset ''semantic_hash'' (PStr []) state;
          r1 = dupdate r0 [
            (''generation'', PInt (int_of_py (dget state ''generation'' (PInt 0)) + 1)),
            (''last_operation_id'', dget ev ''operation_id'' PNone),
            (''last_event_sequence'', dget ev ''sequence'' PNone),
            (''last_event_hash'', dget ev ''record_hash'' PNone),
            (''updated_at'', PStr timestamp)];
          patch = dict_of (py_or (dget ev ''state_patch'' PNone) (PDict []));
          r2 = (if patch \<noteq> [] then dupdate r1 patch else r1);
          r3 = copy_fields [''status'', ''classification'', ''phase'', ''next_action''] ev r2;
          r4 = (if truthy (dget ev ''plan_path'' PNone) then dset ''plan_path'' (dget ev ''plan_path'' PNone) r3 else r3);
          r5 = (if truthy (dget ev ''git'' PNone) then dset ''git'' (dget ev ''git'' PNone) r4 else r4);
          r6 = copy_fields [''writer_session_id'', ''model_family'', ''model_source'', ''model_verified'',
                 ''origin'', ''intent''] ev r5
      in if dget ev ''kind'' PNone = PStr ''decision''
         then dset ''latest_decision'' (PDict (mk_dict [(''event_id'', dget ev ''event_id'' PNone),
                (''summary'', dget ev ''summary'' (PStr []))])) r6
         else r6)"

definition state_after_event :: "env \<Rightarrow> pdict \<Rightarrow> pdict \<Rightarrow> string \<Rightarrow> pdict res" where
  "state_after_event E state ev timestamp =
     (let result = after_event_raw state ev timestamp in
      validate_state E (expected_of (py_or (dget ev ''plan_id'' PNone) (dget result ''plan_id'' PNone)))
        STATE_HARD_LIMIT_BYTES (PDict result))"

fun apply_events :: "env \<Rightarrow> string \<Rightarrow> pdict \<Rightarrow> pdict list \<Rightarrow> pdict res" where
  "apply_events E timestamp state [] = Inr state"
| "apply_events E timestamp state (ev # events) =
     bindE (state_after_event E state ev timestamp) (\<lambda>state'. apply_events E timestamp state' events)"

definition reconcile_state :: "env \<Rightarrow> pdict \<Rightarrow> pdict list \<Rightarrow> string \<Rightarrow> (pdict \<times> bool) res" where
  "reconcile_state E state events timestamp =
     bindE (validate_state_cursor state events) (\<lambda>_.
     if cursor state = int (length events) then Inr (state, False)
     else bindE (apply_events E timestamp state (drop (nat (cursor state)) events)) (\<lambda>recovered.
          bindE (validate_state E (expected_of (dget state ''plan_id'' PNone)) STATE_HARD_LIMIT_BYTES (PDict recovered))
            (\<lambda>r. Inr (r, True))))"

definition reconstruct_state :: "env \<Rightarrow> string \<Rightarrow> pdict list \<Rightarrow> string \<Rightarrow> pdict res" where
  "reconstruct_state E plan_id events timestamp =
     (case events of [] \<Rightarrow> Inl StoreError
      | first # _ \<Rightarrow>
        bindE (new_state E plan_id (dget first ''plan_path'' (PStr [])) timestamp (mk_dict [
          (''status'', dget first ''status'' (PStr ''planned'')),
          (''classification'', dget first ''classification'' (PStr ''GREEN'')),
          (''phase'', dget first ''phase'' (PStr [])),
          (''git'', dget first ''git'' (PDict [])),
          (''writer_session_id'', dget first ''writer_session_id'' (PStr [])),
          (''model_family'', dget first ''model_family'' (PStr ''unknown'')),
          (''model_source'', dget first ''model_source'' (PStr ''unknown'')),
          (''model_verified'', dget first ''model_verified'' (PBool False)),
          (''origin'', dget first ''origin'' (PStr ''implementation-progress'')),
          (''intent'', dget first ''intent'' (PStr ''progress-maintenance''))])) (\<lambda>state.
        bindE (apply_events E timestamp state events) (\<lambda>state'.
        validate_state E (Some plan_id) STATE_HARD_LIMIT_BYTES (PDict state'))))"

section \<open>From a state and an update to an event\<close>

definition DERIVED_KEYS :: "string list" where
  "DERIVED_KEYS = [''schema_version'', ''plan_id'', ''semantic_hash'', ''generation'', ''last_operation_id'',
     ''last_event_sequence'', ''last_event_hash'', ''created_at'', ''updated_at'']"

definition git_update :: "pdict \<Rightarrow> pdict \<Rightarrow> pdict" where
  "git_update result value =
     (let existing = dget (dict_of (py_or (dget result ''git'' PNone) (PDict []))) ''repository_id'' (PStr []) in
      if truthy existing \<and> \<not> dhas ''repository_id'' value then dset ''repository_id'' existing value else value)"

fun apply_items :: "pdict \<Rightarrow> pdict \<Rightarrow> pdict res" where
  "apply_items [] result = Inr result"
| "apply_items ((key, v) # items) result =
     (if key \<in> set DERIVED_KEYS then Inl SchemaError
      else apply_items items (dset key
        (if key = ''git'' then (case v of PDict d \<Rightarrow> PDict (git_update result d) | _ \<Rightarrow> v) else v) result))"

definition apply_update :: "pdict \<Rightarrow> py \<Rightarrow> string \<Rightarrow> string \<Rightarrow> string \<Rightarrow> pdict res" where
  "apply_update state updates kind summary next_action =
     bindE (s_object updates) (\<lambda>items.
     bindE (apply_items items (dset ''semantic_hash'' (PStr []) state)) (\<lambda>r0.
     let r1 = (if next_action \<noteq> [] then dset ''next_action'' (PStr next_action) r0 else r0);
         r2 = (if kind = ''decision'' \<and> summary \<noteq> []
               then dset ''latest_decision'' (PDict (mk_dict [(''event_id'', PStr ''pending''),
                      (''summary'', PStr summary)])) r1 else r1) in
     Inr (if kind = ''completed'' then dset ''status'' (PStr ''completed'') r2
          else if kind = ''reopened'' then dset ''status'' (PStr ''reopened'') r2
          else if kind = ''blocker_opened'' then dset ''status'' (PStr ''blocked'') r2
          else if kind = ''blocker_resolved'' \<and> dget r2 ''status'' PNone = PStr ''blocked''
            then dset ''status'' (PStr ''active'') r2
          else r2)))"

definition operation_state_hash :: "env \<Rightarrow> pdict \<Rightarrow> string" where
  "operation_state_hash E state = state_semantic_hash E (ddels [''semantic_hash'', ''generation'',
     ''last_operation_id'', ''last_event_sequence'', ''last_event_hash'', ''updated_at'', ''created_at'',
     ''writer_session_id''] state)"

definition material_state_patch :: "pdict \<Rightarrow> pdict \<Rightarrow> bool \<Rightarrow> pdict" where
  "material_state_patch before after include_all =
     mk_dict (map (\<lambda>k. (k, dget after k PNone))
       (filter (\<lambda>k. include_all \<or> dget before k PNone \<noteq> dget after k PNone) STATE_PATCH_KEYS))"

definition registration_operation_payload :: "pdict \<Rightarrow> string \<Rightarrow> string \<Rightarrow> py list \<Rightarrow> py list \<Rightarrow> pdict" where
  "registration_operation_payload state summary reason references evidence_codes = mk_dict [
     (''kind'', PStr ''started''), (''summary'', PStr summary), (''reason'', PStr reason),
     (''references'', PList references), (''evidence_codes'', PList evidence_codes),
     (''plan_path'', dget state ''plan_path'' (PStr [])), (''status'', dget state ''status'' (PStr ''planned'')),
     (''classification'', dget state ''classification'' (PStr ''GREEN'')),
     (''phase'', dget state ''phase'' (PStr [])), (''objective'', dget state ''objective'' (PStr [])),
     (''next_action'', dget state ''next_action'' (PStr [])), (''git'', dget state ''git'' (PDict [])),
     (''model_family'', dget state ''model_family'' (PStr ''unknown'')),
     (''model_source'', dget state ''model_source'' (PStr ''unknown'')),
     (''model_verified'', dget state ''model_verified'' (PBool False))]"

definition record_operation_payload ::
    "string \<Rightarrow> string \<Rightarrow> string \<Rightarrow> string \<Rightarrow> py list \<Rightarrow> py list \<Rightarrow> pdict \<Rightarrow> pdict \<Rightarrow> pdict" where
  "record_operation_payload kind summary reason next_action references evidence_codes state_update provenance =
     mk_dict [(''kind'', PStr kind), (''summary'', PStr summary), (''reason'', PStr reason),
       (''next_action'', PStr next_action), (''references'', PList references),
       (''evidence_codes'', PList evidence_codes), (''state_update'', PDict state_update),
       (''provenance'', PDict provenance)]"

text \<open>
  \<open>_build_event\<close>.  Its fallback \<open>_event_payload_from_fields(event)\<close> for an empty
  payload reads \<open>event\<close> inside the display that is being bound to it.
\<close>

definition event_id_for :: "env \<Rightarrow> pdict \<Rightarrow> string" where
  "event_id_for E material = ''evt-'' @ take 32 (env_sha E (utf8_encode (canonical_json (PDict material))))"

definition event_base ::
    "env \<Rightarrow> string \<Rightarrow> pdict \<Rightarrow> string \<Rightarrow> string \<Rightarrow> string \<Rightarrow> string \<Rightarrow> string \<Rightarrow> py list \<Rightarrow> py list \<Rightarrow> string
     \<Rightarrow> py \<Rightarrow> py \<Rightarrow> pdict \<Rightarrow> pdict \<Rightarrow> pdict" where
  "event_base E plan_id state operation_id kind summary reason next_action references evidence_codes
     timestamp sequence previous_event_hash state_patch operation_payload =
     mk_dict [
       (''schema_version'', PInt 1), (''sequence'', sequence),
       (''event_id'', PStr (event_id_for E (mk_dict [
          (''plan_id'', PStr plan_id), (''kind'', PStr kind), (''operation_id'', PStr operation_id),
          (''sequence'', sequence), (''summary'', PStr summary), (''reason'', PStr reason),
          (''next_action'', PStr next_action), (''references'', PList references),
          (''evidence_codes'', PList evidence_codes)]))),
       (''operation_id'', PStr operation_id), (''timestamp'', PStr timestamp), (''kind'', PStr kind),
       (''summary'', PStr summary), (''reason'', PStr reason), (''next_action'', PStr next_action),
       (''status'', dget state ''status'' (PStr ''planned'')),
       (''classification'', dget state ''classification'' (PStr ''GREEN'')),
       (''phase'', dget state ''phase'' (PStr [])), (''plan_id'', PStr plan_id),
       (''plan_path'', dget state ''plan_path'' (PStr [])), (''references'', PList references),
       (''evidence_codes'', PList evidence_codes), (''git'', dget state ''git'' (PDict [])),
       (''writer_session_id'', dget state ''writer_session_id'' (PStr [])),
       (''model_family'', dget state ''model_family'' (PStr ''unknown'')),
       (''model_source'', dget state ''model_source'' (PStr ''unknown'')),
       (''model_verified'', dget state ''model_verified'' (PBool False)),
       (''origin'', dget state ''origin'' (PStr ''implementation-progress'')),
       (''intent'', dget state ''intent'' (PStr ''progress-maintenance'')),
       (''state_patch'', PDict state_patch),
       (''operation_payload_hash'', PStr (digest E (PDict operation_payload))),
       (''state_semantic_hash'', PStr (operation_state_hash E state)),
       (''previous_event_hash'', previous_event_hash), (''record_hash'', PStr [])]"

definition build_event ::
    "env \<Rightarrow> string \<Rightarrow> pdict \<Rightarrow> string \<Rightarrow> string \<Rightarrow> string \<Rightarrow> string \<Rightarrow> string \<Rightarrow> py list \<Rightarrow> py list \<Rightarrow> string
     \<Rightarrow> py \<Rightarrow> py \<Rightarrow> pdict \<Rightarrow> pdict \<Rightarrow> pdict res" where
  "build_event E plan_id state operation_id kind summary reason next_action references evidence_codes
     timestamp sequence previous_event_hash state_patch operation_payload =
     (if operation_payload = [] then Inl UnboundLocalError
      else let ev = event_base E plan_id state operation_id kind summary reason next_action references
                      evidence_codes timestamp sequence previous_event_hash state_patch operation_payload in
        bindE (validate_event E (Some plan_id) False 0 True (PDict ev)) (\<lambda>unhashed.
        validate_event E (Some plan_id) False 0 False
          (PDict (dset ''record_hash'' (PStr (event_record_hash E unhashed)) ev))))"

definition unplanned_event_base ::
    "env \<Rightarrow> pdict \<Rightarrow> string \<Rightarrow> string \<Rightarrow> py list \<Rightarrow> py list \<Rightarrow> string \<Rightarrow> int \<Rightarrow> py \<Rightarrow> pdict" where
  "unplanned_event_base E fs operation summary references evidence_codes timestamp sequence previous_event_hash =
     mk_dict [
       (''schema_version'', PInt 1), (''sequence'', PInt sequence),
       (''event_id'', PStr (''evt-'' @ take 32 (env_sha E (utf8_encode (''loose:'' @ operation @ '':'' @ int_str sequence))))),
       (''operation_id'', PStr operation), (''timestamp'', PStr timestamp),
       (''kind'', PStr ''loose_commit_recorded''), (''summary'', PStr summary), (''reason'', PStr []),
       (''next_action'', PStr []), (''status'', PStr ''planned''), (''classification'', PStr ''GREEN''),
       (''phase'', PStr []), (''plan_id'', PStr []), (''plan_path'', PStr []), (''references'', PList references),
       (''evidence_codes'', PList evidence_codes), (''git'', dget fs ''git'' (PDict [])),
       (''writer_session_id'', dget fs ''writer_session_id'' (PStr [])),
       (''model_family'', dget fs ''model_family'' (PStr ''unknown'')),
       (''model_source'', dget fs ''model_source'' (PStr ''unknown'')),
       (''model_verified'', dget fs ''model_verified'' (PBool False)),
       (''origin'', PStr ''implementation-progress''), (''intent'', PStr ''progress-maintenance''),
       (''operation_payload_hash'', PStr (digest E (PDict (mk_dict [
          (''kind'', PStr ''loose_commit_recorded''), (''summary'', PStr summary),
          (''references'', PList references), (''evidence_codes'', PList evidence_codes)])))),
       (''state_semantic_hash'', PStr []), (''previous_event_hash'', previous_event_hash),
       (''record_hash'', PStr [])]"

definition build_unplanned_event ::
    "env \<Rightarrow> store_paths \<Rightarrow> string \<Rightarrow> string \<Rightarrow> py list \<Rightarrow> py list \<Rightarrow> string \<Rightarrow> int \<Rightarrow> py \<Rightarrow> pdict option \<Rightarrow> pdict res" where
  "build_unplanned_event E P operation summary references evidence_codes timestamp sequence
     previous_event_hash provenance =
     bindE (provenance_for_store E P provenance) (\<lambda>fs.
     let ev = unplanned_event_base E fs operation summary references evidence_codes timestamp sequence
                previous_event_hash in
     bindE (validate_event E None True 0 True (PDict ev)) (\<lambda>unhashed.
     validate_event E None True 0 False
       (PDict (dset ''record_hash'' (PStr (event_record_hash E unhashed)) ev))))"

section \<open>Idempotency\<close>

definition operation_event_from_records :: "pdict list \<Rightarrow> string \<Rightarrow> pdict option" where
  "operation_event_from_records events operation =
     first_match (\<lambda>ev. dget ev ''operation_id'' PNone = PStr operation) events"

definition SAME_OPERATION_IGNORED :: "string list" where
  "SAME_OPERATION_IGNORED = [''event_id'', ''timestamp'', ''record_hash'', ''state_semantic_hash'',
     ''operation_payload_hash'', ''status'', ''classification'', ''phase'', ''plan_path'', ''git'',
     ''writer_session_id'', ''model_family'', ''model_source'', ''model_verified'', ''origin'', ''intent'']"

definition assert_same_operation :: "pdict \<Rightarrow> py option \<Rightarrow> py \<Rightarrow> pdict option \<Rightarrow> unit res" where
  "assert_same_operation existing kind summary candidate_event =
     (case candidate_event of
        Some candidate \<Rightarrow>
          let left_hash = dget existing ''operation_payload_hash'' (PStr []);
              right_hash = dget candidate ''operation_payload_hash'' (PStr []) in
          if truthy left_hash \<and> truthy right_hash then guardE (left_hash \<noteq> right_hash) IdempotencyError
          else guardE (ddels SAME_OPERATION_IGNORED existing \<noteq> ddels SAME_OPERATION_IGNORED candidate) IdempotencyError
      | None \<Rightarrow>
          guardE (case kind of None \<Rightarrow> False
                  | Some k \<Rightarrow> dget existing ''kind'' PNone \<noteq> k \<or> dget existing ''summary'' PNone \<noteq> summary)
            IdempotencyError)"

section \<open>The manifest candidate\<close>

definition pointer_for :: "store_paths \<Rightarrow> pdict \<Rightarrow> pdict" where
  "pointer_for P state = mk_dict [
     (''plan_id'', dget state ''plan_id'' PNone), (''plan_path'', dget state ''plan_path'' (PStr [])),
     (''state_path'', PStr (join ''/'' (drop (length (primary_root P))
        (root P @ [''plans''] @ path_parts (str_of (dget state ''plan_id'' PNone)) @ [''state.json''])))),
     (''status'', dget state ''status'' PNone),
     (''branch'', dget (dict_of (dget state ''git'' (PDict []))) ''branch'' (PStr [])),
     (''workspace_instance_id'', dget (dict_of (dget state ''git'' (PDict []))) ''workspace_instance_id'' (PStr [])),
     (''semantic_hash'', dget state ''semantic_hash'' (PStr [])),
     (''last_event_sequence'', dget state ''last_event_sequence'' (PInt 0))]"

fun find_index :: "('a \<Rightarrow> bool) \<Rightarrow> 'a list \<Rightarrow> nat option" where
  "find_index p [] = None"
| "find_index p (x # xs) = (if p x then Some 0 else map_option Suc (find_index p xs))"

definition pointer_sequence :: "py \<Rightarrow> int" where
  "pointer_sequence v = int_of_py (dget (dict_of v) ''last_event_sequence'' (PInt 0))"

definition bump_manifest :: "env \<Rightarrow> pdict \<Rightarrow> bool \<Rightarrow> py list \<Rightarrow> (pdict \<times> bool) res" where
  "bump_manifest E current changed plans =
     bindE (validate_manifest E MANIFEST_HARD_LIMIT_BYTES (PDict (dupdate current [
        (''generation'', PInt (int_of_py (dget current ''generation'' (PInt 0)) + (if changed then 1 else 0))),
        (''plans'', PList plans)]))) (\<lambda>candidate. Inr (candidate, changed))"

definition manifest_candidate :: "env \<Rightarrow> store_paths \<Rightarrow> pdict \<Rightarrow> pdict \<Rightarrow> bool \<Rightarrow> (pdict \<times> bool) res" where
  "manifest_candidate E P current state force =
     (let pointer = pointer_for P state;
          plans = (case dget current ''plans'' (PList []) of PList xs \<Rightarrow> xs | _ \<Rightarrow> []) in
      case find_index (\<lambda>item. dget (dict_of item) ''plan_id'' PNone = dget pointer ''plan_id'' PNone) plans of
        None \<Rightarrow> bump_manifest E current True (plans @ [PDict pointer])
      | Some found \<Rightarrow>
          let existing = plans ! found in
          if pointer_sequence existing > pointer_sequence (PDict pointer)
          then bindE (validate_manifest E MANIFEST_HARD_LIMIT_BYTES (PDict current)) (\<lambda>m. Inr (m, False))
          else if dget (dict_of existing) ''status'' PNone \<noteq> dget pointer ''status'' PNone
                  \<or> (force \<and> existing \<noteq> PDict pointer)
          then bump_manifest E current True (plans[found := PDict pointer])
          else bump_manifest E current False plans)"

end
