(* ===== verification/Store.thy ===== *)
theory Store
  imports StoreData
begin

text \<open>
  The operations of \<open>ImplementationStore\<close>
  (\<open>.codex/hooks/shared/implementation_store/store.py\<close>) over the file tree of
  \<open>World\<close>.  A method is a computation in the monad of \<open>World\<close>; its \<open>self.paths\<close>
  is the argument \<open>P\<close> and the hash and sensitivity functions are \<open>E\<close>.  String
  parameters with the default \<open>None\<close> are empty strings here: the code treats
  both alike (\<open>now or _now()\<close>, \<open>if value\<close>, \<open>references or []\<close>).
\<close>

record store_result =
  sr_changed :: bool
  sr_operation_id :: string
  sr_event_id :: string
  sr_metadata :: write_metadata
  sr_state :: "pdict option"
  sr_manifest :: "pdict option"
  sr_reason :: string

definition store_result_base :: "bool \<Rightarrow> string \<Rightarrow> store_result" where
  "store_result_base changed operation = \<lparr>sr_changed = changed, sr_operation_id = operation, sr_event_id = [],
     sr_metadata = no_write, sr_state = None, sr_manifest = None, sr_reason = []\<rparr>"

record emission_result =
  er_emitted :: bool
  er_metadata :: write_metadata
  er_reason :: string

definition now_or :: "string \<Rightarrow> string io" where
  "now_or now = (if now \<noteq> [] then ret now else now_text)"

definition operation_id_or_new :: "env \<Rightarrow> string \<Rightarrow> string io" where
  "operation_id_or_new E v =
     (if v \<noteq> [] then bind (lift (validate_operation_id E (PStr v))) (\<lambda>x. ret (str_of x))
      else bind random_hex (\<lambda>h. ret (''op-'' @ h)))"

section \<open>Reads\<close>

definition read_manifest :: "env \<Rightarrow> store_paths \<Rightarrow> world \<Rightarrow> (pdict option) res" where
  "read_manifest E P w = read_json w (validate_manifest E MANIFEST_HARD_LIMIT_BYTES) MANIFEST_HARD_LIMIT_BYTES (manifest P)"

definition read_state_file :: "env \<Rightarrow> plan_paths \<Rightarrow> world \<Rightarrow> (pdict option) res" where
  "read_state_file E plan w =
     read_json w (validate_state E (Some (pp_plan_id plan)) STATE_HARD_LIMIT_BYTES) (8 * 1024) (pp_state plan)"

definition read_plan_events :: "env \<Rightarrow> store_paths \<Rightarrow> plan_paths \<Rightarrow> bool \<Rightarrow> world \<Rightarrow> (pdict list) res" where
  "read_plan_events E P plan reject_partial w =
     bindE (case read_jsonl w (validate_event E (Some (pp_plan_id plan)) False 0 False)
              PLAN_JOURNAL_MAX_BYTES PLAN_JOURNAL_MAX_RECORDS (pp_events plan) of
              Inl e \<Rightarrow> if e = CorruptRecordError then Inl IntegrityError else Inl e
            | Inr r \<Rightarrow> Inr r) (\<lambda>(records, partial).
     bindE (guardE (reject_partial \<and> partial) IntegrityError) (\<lambda>_.
     bindE (validate_sequence_and_hashes E records) (\<lambda>_.
     bindE (validate_event_ownership E P records) (\<lambda>_. Inr records))))"

definition read_state :: "env \<Rightarrow> store_paths \<Rightarrow> string \<Rightarrow> world \<Rightarrow> (pdict option) res" where
  "read_state E P plan_id w =
     bindE (for_plan w P plan_id) (\<lambda>plan.
     bindE (read_state_file E plan w) (\<lambda>st.
     case st of
       None \<Rightarrow> Inr None
     | Some state \<Rightarrow>
         bindE (read_plan_events E P plan False w) (\<lambda>events.
         bindE (validate_ownership E P state) (\<lambda>_.
         bindE (validate_state_cursor state events) (\<lambda>_. Inr (Some state))))))"

definition read_state_identity :: "env \<Rightarrow> store_paths \<Rightarrow> string \<Rightarrow> world \<Rightarrow> (pdict option) res" where
  "read_state_identity E P plan_id w =
     bindE (for_plan w P plan_id) (\<lambda>plan.
     bindE (read_state_file E plan w) (\<lambda>st.
     case st of
       None \<Rightarrow> Inr None
     | Some state \<Rightarrow> bindE (validate_ownership E P state) (\<lambda>_. Inr (Some state))))"

definition read_events :: "env \<Rightarrow> store_paths \<Rightarrow> string \<Rightarrow> world \<Rightarrow> (pdict list) res" where
  "read_events E P plan_id w =
     bindE (for_plan w P plan_id) (\<lambda>plan. read_plan_events E P plan False w)"

definition read_unplanned_jsonl :: "env \<Rightarrow> store_paths \<Rightarrow> world \<Rightarrow> (pdict list \<times> bool) res" where
  "read_unplanned_jsonl E P w = read_jsonl w (validate_event E None True 0 False)
     UNPLANNED_JOURNAL_MAX_BYTES UNPLANNED_JOURNAL_MAX_RECORDS (unplanned_events P)"

definition read_unplanned_events :: "env \<Rightarrow> store_paths \<Rightarrow> world \<Rightarrow> (pdict list) res" where
  "read_unplanned_events E P w =
     bindE (read_unplanned_jsonl E P w) (\<lambda>(records, partial).
     bindE (validate_sequence_and_hashes E records) (\<lambda>_.
     bindE (validate_event_ownership E P records) (\<lambda>_. Inr records)))"

section \<open>The context ledger\<close>

definition ledger_key :: "env \<Rightarrow> pdict \<Rightarrow> (py list) res" where
  "ledger_key E record0 = context_ledger_key E (PDict record0)"

fun ledger_unique :: "env \<Rightarrow> py list list \<Rightarrow> pdict list \<Rightarrow> unit res" where
  "ledger_unique E seen [] = Inr ()"
| "ledger_unique E seen (r # rs) =
     bindE (ledger_key E r) (\<lambda>key.
     if key \<in> set seen then Inl IntegrityError else ledger_unique E (key # seen) rs)"

text \<open>\<open>any(context_ledger_key(existing) == key for existing in records)\<close>\<close>

fun ledger_hit :: "env \<Rightarrow> py list \<Rightarrow> pdict list \<Rightarrow> bool res" where
  "ledger_hit E key [] = Inr False"
| "ledger_hit E key (r # rs) =
     bindE (ledger_key E r) (\<lambda>k. if k = key then Inr True else ledger_hit E key rs)"

definition read_ledger_jsonl :: "env \<Rightarrow> store_paths \<Rightarrow> world \<Rightarrow> (pdict list) res" where
  "read_ledger_jsonl E P w =
     bindE (read_jsonl w (validate_context_ledger_record E CONTEXT_LEDGER_HARD_LIMIT_BYTES)
       CONTEXT_LEDGER_MAX_BYTES CONTEXT_LEDGER_MAX_RECORDS (context_ledger P)) (\<lambda>(records, partial).
     bindE (guardE partial IntegrityError) (\<lambda>_. Inr records))"

definition read_context_ledger :: "env \<Rightarrow> store_paths \<Rightarrow> world \<Rightarrow> (pdict list) res" where
  "read_context_ledger E P w =
     bindE (read_ledger_jsonl E P w) (\<lambda>records.
     bindE (ledger_unique E [] records) (\<lambda>_. Inr records))"

definition has_context_emission :: "env \<Rightarrow> store_paths \<Rightarrow> py \<Rightarrow> world \<Rightarrow> bool res" where
  "has_context_emission E P record0 w =
     bindE (validate_context_ledger_record E CONTEXT_LEDGER_HARD_LIMIT_BYTES record0) (\<lambda>normalized.
     bindE (ledger_key E normalized) (\<lambda>key.
     if \<not> path_exists w (context_ledger P) then Inr False
     else bindE (read_context_ledger E P w) (\<lambda>records. ledger_hit E key records)))"

definition ledger_hit_result :: emission_result where
  "ledger_hit_result = \<lparr>er_emitted = False, er_metadata = no_write, er_reason = ''ledger hit''\<rparr>"

definition claim_context_emission :: "env \<Rightarrow> store_paths \<Rightarrow> py \<Rightarrow> emission_result io" where
  "claim_context_emission E P record0 =
     bind (lift (validate_context_ledger_record E CONTEXT_LEDGER_HARD_LIMIT_BYTES record0)) (\<lambda>normalized.
     bind (lift (ledger_key E normalized)) (\<lambda>key.
     bind (reading (\<lambda>w. if path_exists w (context_ledger P)
             then bindE (read_context_ledger E P w) (\<lambda>records. ledger_hit E key records) else Inr False)) (\<lambda>hit.
     if hit then ret ledger_hit_result
     else
       bind (ensure_store_layout P) (\<lambda>_.
       locked_file (context_ledger_lock P)
        (bind (reading (read_ledger_jsonl E P)) (\<lambda>records.
         bind (lift (ledger_hit E key records)) (\<lambda>hit.
         if hit then ret ledger_hit_result
         else
           bind (append_jsonl (context_ledger P) normalized CONTEXT_LEDGER_HARD_LIMIT_BYTES
                  (Some CONTEXT_LEDGER_MAX_BYTES) (Some CONTEXT_LEDGER_MAX_RECORDS) (Some (length records))) (\<lambda>md.
           ret \<lparr>er_emitted = True, er_metadata = md, er_reason = ''emitted''\<rparr>))))))))"

section \<open>Loading for a write\<close>

definition load_state_for_write :: "env \<Rightarrow> plan_paths \<Rightarrow> (pdict option) io" where
  "load_state_for_write E plan =
     handle (reading (read_state_file E plan)) (\<lambda>e.
       if e = CorruptRecordError then
         bind (reading (\<lambda>w. Inr (path_exists w (pp_state plan)))) (\<lambda>there.
         bind (if there then bind (quarantine_file E (pp_state plan)) (\<lambda>_. ret ()) else ret ()) (\<lambda>_.
         ret None))
       else raise e)"

definition empty_manifest :: "env \<Rightarrow> store_paths \<Rightarrow> pdict" where
  "empty_manifest E P = mk_dict [(''schema_version'', PInt 1),
     (''canonical_repo_identity'', PStr (repo_identity E (primary_root P))),
     (''generation'', PInt 0), (''plans'', PList [])]"

definition read_manifest_locked :: "env \<Rightarrow> store_paths \<Rightarrow> pdict io" where
  "read_manifest_locked E P =
     bind (handle (reading (read_manifest E P)) (\<lambda>e.
       if e = CorruptRecordError then
         bind (reading (\<lambda>w. Inr (path_exists w (manifest P)))) (\<lambda>there.
         bind (if there then bind (quarantine_file E (manifest P)) (\<lambda>_. ret ()) else ret ()) (\<lambda>_.
         ret None))
       else raise e)) (\<lambda>current.
     ret (case current of Some m \<Rightarrow> if m \<noteq> [] then m else empty_manifest E P | None \<Rightarrow> empty_manifest E P))"

definition publish_manifest_pointer_locked ::
    "env \<Rightarrow> store_paths \<Rightarrow> pdict \<Rightarrow> bool \<Rightarrow> pdict option \<Rightarrow> (pdict \<times> write_metadata) io" where
  "publish_manifest_pointer_locked E P state force current_manifest =
     bind (case current_manifest of Some m \<Rightarrow> ret m | None \<Rightarrow> read_manifest_locked E P) (\<lambda>current.
     bind (lift (manifest_candidate E P current state force)) (\<lambda>(candidate, changed).
     if \<not> changed then ret (candidate, no_write)
     else bind (publish_json (manifest P) candidate MANIFEST_HARD_LIMIT_BYTES) (\<lambda>md. ret (candidate, md))))"

definition publish_manifest_pointer ::
    "env \<Rightarrow> store_paths \<Rightarrow> pdict \<Rightarrow> bool \<Rightarrow> (pdict \<times> write_metadata) io" where
  "publish_manifest_pointer E P state force =
     bind (ensure_store_layout P) (\<lambda>_.
     locked_file (manifest_lock P) (publish_manifest_pointer_locked E P state force None))"

definition publish_if :: "bool \<Rightarrow> plan_paths \<Rightarrow> pdict \<Rightarrow> write_metadata io" where
  "publish_if recovery_needed plan state =
     (if recovery_needed then publish_json (pp_state plan) state (8 * 1024) else ret no_write)"

text \<open>
  The opening of every locked operation on a plan: the state on disk brought to
  the end of the journal, \<open>None\<close> when there is neither; and whether it must be
  published.
\<close>

definition load_current ::
    "env \<Rightarrow> store_paths \<Rightarrow> plan_paths \<Rightarrow> string \<Rightarrow> (pdict list \<times> (pdict \<times> bool) option) io" where
  "load_current E P plan timestamp =
     bind (load_state_for_write E plan) (\<lambda>current.
     bind (reading (read_plan_events E P plan True)) (\<lambda>events.
     case current of
       None \<Rightarrow>
         if events = [] then ret (events, None)
         else bind (lift (reconstruct_state E (pp_plan_id plan) events timestamp)) (\<lambda>st.
              ret (events, Some (st, True)))
     | Some state \<Rightarrow>
         bind (lift (validate_ownership E P state)) (\<lambda>_.
         bind (lift (reconcile_state E state events timestamp)) (\<lambda>(st, recovery_needed).
         ret (events, Some (st, recovery_needed))))))"

definition append_event :: "plan_paths \<Rightarrow> pdict \<Rightarrow> nat \<Rightarrow> write_metadata io" where
  "append_event plan ev existing = append_jsonl (pp_events plan) ev EVENT_HARD_LIMIT_BYTES
     (Some PLAN_JOURNAL_MAX_BYTES) (Some PLAN_JOURNAL_MAX_RECORDS) (Some existing)"

section \<open>Registration\<close>

definition initial_fields :: "pdict \<Rightarrow> string \<Rightarrow> string \<Rightarrow> string \<Rightarrow> string \<Rightarrow> pdict" where
  "initial_fields provenance status objective phase next_action = dupdate provenance [
     (''status'', PStr status), (''objective'', PStr objective), (''phase'', PStr phase),
     (''next_action'', PStr next_action)]"

definition register_plan ::
    "env \<Rightarrow> store_paths \<Rightarrow> string \<Rightarrow> string \<Rightarrow> string \<Rightarrow> string \<Rightarrow> pdict option \<Rightarrow> string \<Rightarrow> string \<Rightarrow> string \<Rightarrow> string
     \<Rightarrow> string \<Rightarrow> string \<Rightarrow> py list \<Rightarrow> py list \<Rightarrow> store_result io" where
  "register_plan E P plan_id plan_path operation_id now provenance objective phase next_action status
     summary reason references evidence_codes =
     bind (reading (\<lambda>w. for_plan w P plan_id)) (\<lambda>plan.
     bind (operation_id_or_new E operation_id) (\<lambda>operation.
     bind (now_or now) (\<lambda>timestamp.
     bind (lift (provenance_for_store E P provenance)) (\<lambda>prov.
     bind (lift (new_state E (pp_plan_id plan) (PStr plan_path) timestamp
             (initial_fields prov status objective phase next_action))) (\<lambda>initial_state.
     bind (ensure_store_layout P) (\<lambda>_.
     bind (ensure_directory_chain 448 (pp_root plan)) (\<lambda>_.
     locked_file (pp_state_lock plan) (locked_file (manifest_lock P)
      (bind (read_manifest_locked E P) (\<lambda>manifest_current.
       bind (load_current E P plan timestamp) (\<lambda>(events, current).
       let event_at = (\<lambda>sequence previous. build_event E (pp_plan_id plan) initial_state operation ''started''
             summary reason next_action references evidence_codes timestamp sequence previous
             (material_state_patch [] initial_state True)
             (registration_operation_payload initial_state summary reason references evidence_codes)) in
       case current of
         Some (state, recovery_needed) \<Rightarrow>
           (case operation_event_from_records events operation of
              None \<Rightarrow> raise StoreError
            | Some existing \<Rightarrow>
                bind (lift (event_at (dget existing ''sequence'' PNone) (dget existing ''previous_event_hash'' PNone))) (\<lambda>expected.
                bind (lift (assert_same_operation existing None PNone (Some expected))) (\<lambda>_.
                bind (publish_if recovery_needed plan state) (\<lambda>md.
                bind (publish_manifest_pointer_locked E P state False (Some manifest_current)) (\<lambda>(m, manifest_md).
                ret ((store_result_base False operation)\<lparr>sr_event_id := str_of (dget existing ''event_id'' PNone),
                  sr_metadata := wm_plus md manifest_md, sr_reason := ''idempotent retry'',
                  sr_state := Some state, sr_manifest := Some m\<rparr>))))))
       | None \<Rightarrow>
           bind (lift (event_at (PInt 1) (PStr []))) (\<lambda>ev.
           bind (lift (state_after_event E initial_state ev timestamp)) (\<lambda>next_state.
           bind (lift (manifest_candidate E P manifest_current next_state True)) (\<lambda>_.
           bind (append_event plan ev (length events)) (\<lambda>md1.
           bind (publish_json (pp_state plan) next_state (8 * 1024)) (\<lambda>md2.
           bind (publish_manifest_pointer_locked E P next_state True (Some manifest_current)) (\<lambda>(m, md3).
           ret ((store_result_base True operation)\<lparr>sr_event_id := str_of (dget ev ''event_id'' PNone),
             sr_metadata := wm_plus (wm_plus md1 md2) md3, sr_state := Some next_state,
             sr_manifest := Some m\<rparr>))))))))))))))))))"

section \<open>Recording an event\<close>

text \<open>The preview of \<open>record_event\<close>: validation of the caller's input before anything is created.\<close>

definition with_provenance :: "pdict option \<Rightarrow> pdict \<Rightarrow> pdict" where
  "with_provenance fs candidate = (case fs of None \<Rightarrow> candidate | Some p \<Rightarrow> dupdate candidate p)"

definition candidate_state ::
    "env \<Rightarrow> store_paths \<Rightarrow> string \<Rightarrow> pdict \<Rightarrow> py \<Rightarrow> string \<Rightarrow> string \<Rightarrow> string \<Rightarrow> pdict option \<Rightarrow> pdict res" where
  "candidate_state E P plan_id state updates kind summary next_action fs =
     bindE (apply_update state updates kind summary next_action) (\<lambda>c.
     bindE (validate_state E (Some plan_id) STATE_HARD_LIMIT_BYTES (PDict (with_provenance fs c))) (\<lambda>candidate.
     bindE (validate_ownership E P candidate) (\<lambda>_. Inr candidate)))"

definition preview_ownership ::
    "env \<Rightarrow> store_paths \<Rightarrow> string \<Rightarrow> pdict \<Rightarrow> py \<Rightarrow> string \<Rightarrow> string \<Rightarrow> string \<Rightarrow> pdict option \<Rightarrow> unit res" where
  "preview_ownership E P plan_id state updates kind summary next_action fs =
     bindE (apply_update state updates kind summary next_action) (\<lambda>c.
     bindE (validate_state E (Some plan_id) STATE_HARD_LIMIT_BYTES (PDict (with_provenance fs c))) (\<lambda>_.
     validate_ownership E P (with_provenance fs c)))"

definition preview_state_for :: "env \<Rightarrow> store_paths \<Rightarrow> string \<Rightarrow> plan_paths \<Rightarrow> (pdict option) io" where
  "preview_state_for E P plan_id plan =
     handle (reading (read_state E P plan_id)) (\<lambda>e.
       if e \<noteq> CorruptRecordError then raise e
       else bind (handle (bind (reading (read_state_file E plan)) (\<lambda>_. ret True))
                   (\<lambda>e2. if e2 = CorruptRecordError then ret False else raise e2)) (\<lambda>state_is_fine.
         if state_is_fine then raise CorruptRecordError
         else
           bind (ensure_store_layout P) (\<lambda>_.
           bind (ensure_directory_chain 448 (pp_root plan)) (\<lambda>_.
           bind (locked_file (pp_state_lock plan) (bind (load_state_for_write E plan) (\<lambda>_. ret ()))) (\<lambda>_.
           raise StoreError)))))"

definition record_event ::
    "env \<Rightarrow> store_paths \<Rightarrow> string \<Rightarrow> string \<Rightarrow> string \<Rightarrow> string \<Rightarrow> string \<Rightarrow> string \<Rightarrow> py list \<Rightarrow> py list \<Rightarrow> py \<Rightarrow> string
     \<Rightarrow> pdict option \<Rightarrow> store_result io" where
  "record_event E P plan_id kind operation_id summary reason next_action references evidence_codes
     state_update now provenance =
     (let updates = py_or state_update (PDict []) in
     bind (reading (\<lambda>w. for_plan w P plan_id)) (\<lambda>plan.
     bind (guard (kind \<notin> set MATERIAL_EVENT_KINDS \<or> kind = ''loose_commit_recorded'') SchemaError) (\<lambda>_.
     bind (operation_id_or_new E operation_id) (\<lambda>operation.
     bind (now_or now) (\<lambda>timestamp.
     bind (lift (case provenance of None \<Rightarrow> Inr None
                 | Some _ \<Rightarrow> bindE (provenance_for_store E P provenance) (\<lambda>f. Inr (Some f)))) (\<lambda>fs.
     bind (preview_state_for E P plan_id plan) (\<lambda>preview.
     case preview of
       None \<Rightarrow> raise StoreError
     | Some preview_state \<Rightarrow>
       bind (lift (preview_ownership E P (pp_plan_id plan) preview_state updates kind summary next_action fs)) (\<lambda>_.
       bind (ensure_store_layout P) (\<lambda>_.
       bind (ensure_directory_chain 448 (pp_root plan)) (\<lambda>_.
       bind (locked_file (pp_state_lock plan)
        (bind (load_current E P plan timestamp) (\<lambda>(events, current).
         case current of
           None \<Rightarrow> raise StoreError
         | Some (state, recovery_needed) \<Rightarrow>
           bind (lift (candidate_state E P (pp_plan_id plan) state updates kind summary next_action fs)) (\<lambda>candidate.
           let existing = operation_event_from_records events operation;
               payload = record_operation_payload kind summary reason next_action references evidence_codes
                           (dict_of updates) (case fs of None \<Rightarrow> [] | Some f \<Rightarrow> f);
               event_at = (\<lambda>sequence previous. build_event E (pp_plan_id plan) candidate operation kind summary reason
                 next_action references evidence_codes timestamp sequence previous
                 (material_state_patch state candidate False) payload) in
           bind (lift (event_at (PInt 1) (PStr []))) (\<lambda>_.
           case existing of
             Some ex \<Rightarrow>
               bind (lift (event_at (dget ex ''sequence'' PNone) (dget ex ''previous_event_hash'' PNone))) (\<lambda>cand_ev.
               bind (lift (assert_same_operation ex None PNone (Some cand_ev))) (\<lambda>_.
               bind (publish_if recovery_needed plan state) (\<lambda>md.
               ret (Inl ((store_result_base False operation)\<lparr>sr_event_id := str_of (dget ex ''event_id'' PNone),
                 sr_metadata := md, sr_reason := ''idempotent retry'', sr_state := Some state\<rparr>)))))
           | None \<Rightarrow>
               if state_semantic_hash E candidate = state_semantic_hash E state then
                 bind (publish_if recovery_needed plan state) (\<lambda>md.
                 ret (Inl ((store_result_base False operation)\<lparr>sr_metadata := md,
                   sr_reason := ''semantic state unchanged'', sr_state := Some state\<rparr>)))
               else
                 bind (lift (event_at (PInt (int (length events) + 1))
                   (if events = [] then PStr [] else dget (last events) ''record_hash'' PNone))) (\<lambda>ev.
                 bind (append_event plan ev (length events)) (\<lambda>md1.
                 bind (lift (state_after_event E candidate ev timestamp)) (\<lambda>next_state.
                 bind (publish_json (pp_state plan) next_state (8 * 1024)) (\<lambda>md2.
                 if dget next_state ''status'' PNone \<noteq> dget state ''status'' PNone then
                   bind (publish_manifest_pointer E P next_state False) (\<lambda>(m, md3).
                   ret (Inr (ev, next_state, wm_plus md1 md2, Some m, md3)))
                 else ret (Inr (ev, next_state, wm_plus md1 md2, None, no_write))))))))))) (\<lambda>outcome.
       case outcome of
         Inl r \<Rightarrow> ret r
       | Inr (ev, next_state, md, m, md3) \<Rightarrow>
         bind (case m of Some x \<Rightarrow> ret (Some x) | None \<Rightarrow> reading (read_manifest E P)) (\<lambda>mf.
         ret ((store_result_base True operation)\<lparr>sr_event_id := str_of (dget ev ''event_id'' PNone),
           sr_metadata := wm_plus md md3, sr_state := Some next_state, sr_manifest := mf\<rparr>)))))))))))))"

definition update_state ::
    "env \<Rightarrow> store_paths \<Rightarrow> string \<Rightarrow> pdict \<Rightarrow> string \<Rightarrow> string \<Rightarrow> string \<Rightarrow> string \<Rightarrow> pdict option \<Rightarrow> store_result io" where
  "update_state E P plan_id updates operation_id kind summary now provenance =
     record_event E P plan_id kind operation_id summary [] [] [] [] (PDict updates) now provenance"

section \<open>Loose commits\<close>

definition append_unplanned_commit ::
    "env \<Rightarrow> store_paths \<Rightarrow> string \<Rightarrow> string \<Rightarrow> py list \<Rightarrow> py list \<Rightarrow> string \<Rightarrow> pdict option \<Rightarrow> store_result io" where
  "append_unplanned_commit E P operation_id summary references evidence_codes now provenance =
     bind (operation_id_or_new E operation_id) (\<lambda>operation.
     bind (now_or now) (\<lambda>timestamp.
     bind (lift (build_unplanned_event E P operation summary references evidence_codes timestamp 1 (PStr []) provenance)) (\<lambda>_.
     bind (ensure_store_layout P) (\<lambda>_.
     locked_file (manifest_lock P)
      (bind (reading (read_unplanned_jsonl E P)) (\<lambda>(events, partial).
       bind (guard partial IntegrityError) (\<lambda>_.
       bind (lift (validate_sequence_and_hashes E events)) (\<lambda>_.
       case operation_event_from_records events operation of
         Some existing \<Rightarrow>
           bind (lift (build_unplanned_event E P operation summary references evidence_codes timestamp
                   (int_of_py (dget existing ''sequence'' PNone)) (dget existing ''previous_event_hash'' PNone) provenance)) (\<lambda>candidate.
           bind (lift (assert_same_operation existing None PNone (Some candidate))) (\<lambda>_.
           ret ((store_result_base False operation)\<lparr>sr_event_id := str_of (dget existing ''event_id'' PNone),
             sr_reason := ''idempotent retry''\<rparr>)))
       | None \<Rightarrow>
           bind (lift (build_unplanned_event E P operation summary references evidence_codes timestamp
                   (int (length events) + 1)
                   (if events = [] then PStr [] else dget (last events) ''record_hash'' PNone) provenance)) (\<lambda>ev.
           bind (append_jsonl (unplanned_events P) ev UNPLANNED_EVENT_HARD_LIMIT_BYTES
                  (Some UNPLANNED_JOURNAL_MAX_BYTES) (Some UNPLANNED_JOURNAL_MAX_RECORDS) (Some (length events))) (\<lambda>md.
           ret ((store_result_base True operation)\<lparr>sr_event_id := str_of (dget ev ''event_id'' PNone),
             sr_metadata := md\<rparr>)))))))))))"

section \<open>Replay\<close>

definition replay_plan :: "env \<Rightarrow> store_paths \<Rightarrow> string \<Rightarrow> string \<Rightarrow> store_result io" where
  "replay_plan E P plan_id now =
     bind (reading (\<lambda>w. for_plan w P plan_id)) (\<lambda>plan.
     bind (ensure_store_layout P) (\<lambda>_.
     bind (ensure_directory_chain 448 (pp_root plan)) (\<lambda>_.
     bind (now_or now) (\<lambda>timestamp.
     locked_file (pp_state_lock plan)
      (bind (load_current E P plan timestamp) (\<lambda>(events, current).
       case current of
         None \<Rightarrow> ret ((store_result_base False [])\<lparr>sr_reason := ''no state to replay''\<rparr>)
       | Some (state, recovery_needed) \<Rightarrow>
           if \<not> recovery_needed then
             ret ((store_result_base False [])\<lparr>sr_state := Some state, sr_reason := ''already current''\<rparr>)
           else
             bind (publish_json (pp_state plan) state (8 * 1024)) (\<lambda>md.
             ret ((store_result_base True (str_of (dget state ''last_operation_id'' (PStr []))))\<lparr>
               sr_metadata := md, sr_state := Some state, sr_reason := ''replayed journal''\<rparr>))))))))"

section \<open>Derived views\<close>

text \<open>
  \<open>_ensure_derived_parent\<close>: the walk stops at the primary checkout or at the
  first existing directory.  Above the root there is nothing to walk to; the
  loop of the code would then not end, which no caller reaches because the
  target was proven to lie below the checkout.
\<close>

function derived_missing :: "world \<Rightarrow> path \<Rightarrow> path \<Rightarrow> path list \<times> path" where
  "derived_missing w primary current =
     (if current = primary \<or> path_exists w current \<or> current = [] then ([], current)
      else case derived_missing w primary (parent current) of (ms, c) \<Rightarrow> (current # ms, c))"
  by pat_completeness auto
termination
  by (relation "measure (\<lambda>(w, q, p). length p)") (auto simp: parent_def)

declare derived_missing.simps [simp del]

fun make_derived :: "path list \<Rightarrow> unit io" where
  "make_derived [] = ret ()"
| "make_derived (d # ds) =
     bind (os_mkdir d 448) (\<lambda>_.
     bind (reading (\<lambda>w. directory_stat w d)) (\<lambda>_.
     bind (os_chmod d 448) (\<lambda>_. make_derived ds)))"

definition ensure_derived_parent :: "path \<Rightarrow> path \<Rightarrow> unit io" where
  "ensure_derived_parent p primary =
     bind (reading (\<lambda>w. reject_symlink_components w True p)) (\<lambda>_.
     bind (reading (\<lambda>w. Inr (derived_missing w primary p))) (\<lambda>(missing, current).
     bind (guard (\<not> relative_to current primary) StorePathError) (\<lambda>_.
     bind (reading (\<lambda>w. directory_stat w current)) (\<lambda>_.
     make_derived (rev missing)))))"

definition nlink_of :: "world \<Rightarrow> path \<Rightarrow> nat" where
  "nlink_of w p = (case follow 41 w p of Some (RegFile _ _ n) \<Rightarrow> n | Some _ \<Rightarrow> 2 | None \<Rightarrow> 0)"

definition is_symlink :: "world \<Rightarrow> path \<Rightarrow> bool" where
  "is_symlink w p = (case lstat w p of LNode (Symlink _) \<Rightarrow> True | _ \<Rightarrow> False)"

definition publish_scoped_view ::
    "store_paths \<Rightarrow> path \<Rightarrow> path \<Rightarrow> string \<Rightarrow> nat \<Rightarrow> write_metadata io" where
  "publish_scoped_view P target allowed_root content hard_limit =
     bind (guard (\<not> relative_to target allowed_root) StorePathError) (\<lambda>_.
     bind (guard (target = allowed_root) StorePathError) (\<lambda>_.
     bind (reading (\<lambda>w. reject_symlink_components w True (parent target))) (\<lambda>_.
     bind (reading (\<lambda>w. guardE (path_exists w target \<and> is_symlink w target) StorePathError)) (\<lambda>_.
     bind (reading (\<lambda>w. guardE (path_exists w target \<and> nlink_of w target \<noteq> 1) StorePathError)) (\<lambda>_.
     bind (ensure_derived_parent (parent target) (primary_root P)) (\<lambda>_.
     publish_bytes target (utf8_encode content) hard_limit))))))"

definition publish_derived_view :: "store_paths \<Rightarrow> path \<Rightarrow> string \<Rightarrow> nat \<Rightarrow> write_metadata io" where
  "publish_derived_view P target content hard_limit =
     publish_scoped_view P target (root P @ [''exports'']) content hard_limit"

definition publish_compatibility_view :: "store_paths \<Rightarrow> path \<Rightarrow> string \<Rightarrow> nat \<Rightarrow> write_metadata io" where
  "publish_compatibility_view P target content hard_limit =
     publish_scoped_view P target (primary_root P @ [''.ralph'', ''plans'']) content hard_limit"

end
