(* ===== verification/StoreLog.thy ===== *)
theory StoreLog
  imports StoreData SchemaRecords
begin

text \<open>
  Correctness of the event log of \<open>store.py\<close>: what a validated record keeps of
  its input, what one event does to the state, what a replay reaches, and why
  the hash chain makes the journal tamper evident.
\<close>

section \<open>What validation keeps\<close>

definition plain_state_fields :: "(string \<times> py) list" where
  "plain_state_fields = [(''plan_id'', PNone), (''plan_path'', PStr []), (''generation'', PInt 0),
     (''status'', PStr ''planned''), (''classification'', PStr ''GREEN''), (''phase'', PStr []),
     (''objective'', PStr []), (''next_action'', PStr []), (''open_blockers'', PList []),
     (''open_questions'', PList []), (''active_files'', PList []), (''last_operation_id'', PStr []),
     (''last_event_sequence'', PInt 0), (''last_event_hash'', PStr []), (''writer_session_id'', PStr []),
     (''model_family'', PStr ''unknown''), (''model_source'', PStr ''unknown''),
     (''model_verified'', PBool False), (''origin'', PStr ''implementation-progress''),
     (''intent'', PStr ''progress-maintenance''), (''created_at'', PStr []), (''updated_at'', PStr [])]"

lemma built_keeps:
  assumes "distinct (map fst e)" "q \<notin> set (map fst tab)"
    and "list_all (\<lambda>(k, dflt). dget e k PNone = dget d k dflt) tab"
  shows "list_all (\<lambda>(k, dflt). dget (dset q v (mk_dict e)) k PNone = dget d k dflt) tab"
proof -
  have "dget (dset q v (mk_dict e)) k PNone = dget d k dflt" if "(k, dflt) \<in> set tab" for k dflt
  proof -
    have "k \<noteq> q" using that assms(2) by force
    then show ?thesis using that assms(1,3) by (auto simp: list_all_iff dget_dset dget_mk_dict)
  qed
  then show ?thesis by (auto simp: list_all_iff)
qed

lemma validate_state_keeps:
  assumes "validate_state E ex hl (PDict d) = Inr n"
  shows "list_all (\<lambda>(k, dflt). dget n k PNone = dget d k dflt) plain_state_fields"
  using assms
  unfolding validate_state_def Let_def bindE_eq_Inr guardE_eq_Inr s_reject_red_def sum.inject s_object_def py.case
  apply (elim exE conjE)
  apply (drule simple_id)+
  apply (hypsubst)
  apply (rule built_keeps)
  by (simp_all (no_asm) add: plain_state_fields_def)

lemma validate_state_keep:
  assumes "validate_state E ex hl (PDict d) = Inr n" "(k, dflt) \<in> set plain_state_fields"
  shows "dget n k PNone = dget d k dflt"
  using validate_state_keeps [OF assms(1)] assms(2) by (auto simp: list_all_iff)

lemma dget_dupdate: "dget (dupdate d e) k x = (case map_of (rev e) k of Some v \<Rightarrow> v | None \<Rightarrow> dget d k x)"
  by (simp add: dget_def map_of_dupdate map_add_def split: option.splits)

lemma dget_dupdate_notin: "k \<notin> keys e \<Longrightarrow> dget (dupdate d e) k x = dget d k x"
  by (simp add: dget_dupdate) (metis map_of_eq_None_iff option.simps(4) set_rev)

lemma dget_copy_fields: "k \<notin> set ks \<Longrightarrow> dget (copy_fields ks ev r) k x = dget r k x"
  by (induction ks ev r rule: copy_fields.induct) (auto simp: dget_dset split: option.splits)

section \<open>One event\<close>

definition patch_of :: "pdict \<Rightarrow> pdict" where
  "patch_of ev = dict_of (py_or (dget ev ''state_patch'' PNone) (PDict []))"

definition good_event :: "pdict \<Rightarrow> bool" where
  "good_event ev = (keys (patch_of ev) \<subseteq> set STATE_PATCH_KEYS)"

definition cursor_keys :: "string list" where
  "cursor_keys = [''generation'', ''last_operation_id'', ''last_event_sequence'', ''last_event_hash'', ''updated_at'']"

lemma after_event_keeps:
  assumes "k \<notin> keys (patch_of ev)" "k \<notin> set (''writer_session_id'' # STATE_PATCH_KEYS)"
  shows "dget (after_event_raw st ev ts) k x =
   (if k = ''updated_at'' then PStr ts
    else if k = ''last_event_hash'' then dget ev ''record_hash'' PNone
    else if k = ''last_event_sequence'' then dget ev ''sequence'' PNone
    else if k = ''last_operation_id'' then dget ev ''operation_id'' PNone
    else if k = ''generation'' then PInt (int_of_py (dget st ''generation'' (PInt 0)) + 1)
    else if k = ''semantic_hash'' then PStr []
    else dget st k x)"
proof -
  have ne: "k \<noteq> ''latest_decision''" "k \<noteq> ''git''" "k \<noteq> ''plan_path''"
    "k \<notin> set [''status'', ''classification'', ''phase'', ''next_action'']"
    "k \<notin> set [''writer_session_id'', ''model_family'', ''model_source'', ''model_verified'', ''origin'', ''intent'']"
    using assms(2) by (auto simp: STATE_PATCH_KEYS_def)
  show ?thesis
    unfolding after_event_raw_def Let_def if_distrib [of "\<lambda>d. dget d k x"] dget_dset dget_copy_fields [OF ne(5)]
      dget_copy_fields [OF ne(4)] dget_dupdate_notin [OF assms(1) [unfolded patch_of_def]]
    by (simp add: dget_dset ne)
qed

lemma after_event_cursor:
  assumes "good_event ev"
  shows "dget (after_event_raw st ev ts) ''generation'' x = PInt (int_of_py (dget st ''generation'' (PInt 0)) + 1)"
    "dget (after_event_raw st ev ts) ''last_operation_id'' x = dget ev ''operation_id'' PNone"
    "dget (after_event_raw st ev ts) ''last_event_sequence'' x = dget ev ''sequence'' PNone"
    "dget (after_event_raw st ev ts) ''last_event_hash'' x = dget ev ''record_hash'' PNone"
    "dget (after_event_raw st ev ts) ''updated_at'' x = PStr ts"
    "dget (after_event_raw st ev ts) ''plan_id'' x = dget st ''plan_id'' x"
    "dget (after_event_raw st ev ts) ''created_at'' x = dget st ''created_at'' x"
    "dget (after_event_raw st ev ts) ''schema_version'' x = dget st ''schema_version'' x"
proof -
  have notin: "k \<notin> keys (patch_of ev)" if "k \<notin> set STATE_PATCH_KEYS" for k
    using assms that by (auto simp: good_event_def)
  note keep = after_event_keeps [OF notin]
  show "dget (after_event_raw st ev ts) ''generation'' x = PInt (int_of_py (dget st ''generation'' (PInt 0)) + 1)"
    "dget (after_event_raw st ev ts) ''last_operation_id'' x = dget ev ''operation_id'' PNone"
    "dget (after_event_raw st ev ts) ''last_event_sequence'' x = dget ev ''sequence'' PNone"
    "dget (after_event_raw st ev ts) ''last_event_hash'' x = dget ev ''record_hash'' PNone"
    "dget (after_event_raw st ev ts) ''updated_at'' x = PStr ts"
    "dget (after_event_raw st ev ts) ''plan_id'' x = dget st ''plan_id'' x"
    "dget (after_event_raw st ev ts) ''created_at'' x = dget st ''created_at'' x"
    "dget (after_event_raw st ev ts) ''schema_version'' x = dget st ''schema_version'' x"
    by (subst keep; simp add: STATE_PATCH_KEYS_def)+
qed

lemma state_after_event_ok:
  assumes run: "state_after_event E st ev ts = Inr s'" and good: "good_event ev"
  shows "state_wf E STATE_HARD_LIMIT_BYTES s'"
    "dget s' ''generation'' PNone = PInt (int_of_py (dget st ''generation'' (PInt 0)) + 1)"
    "dget s' ''last_operation_id'' PNone = dget ev ''operation_id'' PNone"
    "dget s' ''last_event_sequence'' PNone = dget ev ''sequence'' PNone"
    "dget s' ''last_event_hash'' PNone = dget ev ''record_hash'' PNone"
    "dget s' ''updated_at'' PNone = PStr ts"
    "dget s' ''plan_id'' PNone = dget st ''plan_id'' PNone"
proof -
  obtain ex where v: "validate_state E ex STATE_HARD_LIMIT_BYTES (PDict (after_event_raw st ev ts)) = Inr s'"
    using run by (auto simp: state_after_event_def Let_def)
  note keep = validate_state_keep [OF v]
  note raw = after_event_cursor [OF good]
  show "state_wf E STATE_HARD_LIMIT_BYTES s'" using validate_state_wf [OF v] by simp
  show "dget s' ''generation'' PNone = PInt (int_of_py (dget st ''generation'' (PInt 0)) + 1)"
    "dget s' ''last_operation_id'' PNone = dget ev ''operation_id'' PNone"
    "dget s' ''last_event_sequence'' PNone = dget ev ''sequence'' PNone"
    "dget s' ''last_event_hash'' PNone = dget ev ''record_hash'' PNone"
    "dget s' ''updated_at'' PNone = PStr ts"
    "dget s' ''plan_id'' PNone = dget st ''plan_id'' PNone"
    using keep [of "''generation''" "PInt 0"] keep [of "''last_operation_id''" "PStr []"]
      keep [of "''last_event_sequence''" "PInt 0"] keep [of "''last_event_hash''" "PStr []"]
      keep [of "''updated_at''" "PStr []"] keep [of "''plan_id''" PNone]
    by (simp_all add: plain_state_fields_def raw)
qed

section \<open>Runs of events\<close>

text \<open>
  The interface of an event log: a step that moves the position of the state to
  the sequence number of the event it applies, and the run over a list of
  events.
\<close>

locale event_log =
  fixes step :: "'s \<Rightarrow> 'e \<Rightarrow> 's res"
    and run :: "'s \<Rightarrow> 'e list \<Rightarrow> 's res"
    and pos :: "'s \<Rightarrow> 'p"
    and seq :: "'e \<Rightarrow> 'p"
    and good :: "'e \<Rightarrow> bool"
    and gen :: "'s \<Rightarrow> int"
  assumes run_Nil: "run s [] = Inr s"
    and run_Cons: "run s (e # es) = bindE (step s e) (\<lambda>s'. run s' es)"
    and step_pos: "good e \<Longrightarrow> step s e = Inr s' \<Longrightarrow> pos s' = seq e"
    and step_gen: "good e \<Longrightarrow> step s e = Inr s' \<Longrightarrow> gen s' = gen s + 1"
begin

lemma run_append: "run s (es @ fs) = bindE (run s es) (\<lambda>s'. run s' fs)"
  by (induction es arbitrary: s) (simp_all add: run_Nil run_Cons bindE_assoc)

lemma run_snoc: "run s (es @ [e]) = bindE (run s es) (\<lambda>s'. step s' e)"
  by (simp add: run_append run_Cons run_Nil) (simp add: bindE_def split: sum.splits)

lemma run_pos:
  assumes "run s es = Inr s'" "es \<noteq> []" "\<forall>e\<in>set es. good e"
  shows "pos s' = seq (last es)"
proof -
  obtain fs e where es: "es = fs @ [e]" using assms(2) by (cases es rule: rev_cases) auto
  with assms obtain t where "step t e = Inr s'" by (auto simp: run_snoc resE)
  with assms(3) es show ?thesis by (simp add: step_pos)
qed

lemma run_gen: "run s es = Inr s' \<Longrightarrow> \<forall>e\<in>set es. good e \<Longrightarrow> gen s' = gen s + int (length es)"
proof (induction es arbitrary: s)
  case Nil
  then show ?case by (simp add: run_Nil)
next
  case (Cons e es)
  then obtain t where "step s e = Inr t" "run t es = Inr s'" by (auto simp: run_Cons resE)
  moreover from this Cons.prems(2) have "gen t = gen s + 1" by (intro step_gen [of e]) auto
  ultimately show ?case using Cons by simp
qed

lemma run_keeps:
  assumes "\<And>s e s'. good e \<Longrightarrow> step s e = Inr s' \<Longrightarrow> f s' = f s"
  shows "run s es = Inr s' \<Longrightarrow> \<forall>e\<in>set es. good e \<Longrightarrow> f s' = f s"
  by (induction es arbitrary: s) (auto simp: run_Nil run_Cons resE dest: assms)

lemma run_last:
  assumes "run s es = Inr s'" "es \<noteq> []"
  shows "\<exists>t. step t (last es) = Inr s'"
proof -
  obtain fs e where es: "es = fs @ [e]" using assms(2) by (cases es rule: rev_cases) auto
  with assms show ?thesis by (auto simp: run_snoc resE)
qed

end

definition generation :: "pdict \<Rightarrow> int" where
  "generation st = int_of_py (dget st ''generation'' (PInt 0))"

definition event_sequence :: "pdict \<Rightarrow> int" where
  "event_sequence ev = int_of_py (dget ev ''sequence'' (PInt 0))"

lemma state_wf_present: "state_wf E hl s \<Longrightarrow> k \<in> set STATE_KEYS \<Longrightarrow> dget s k x = dget s k y"
  by (rule dget_present) (simp add: state_wf_def)

interpretation plan_log: event_log "\<lambda>s ev. state_after_event E s ev ts" "apply_events E ts"
  "\<lambda>s. dget s ''last_event_sequence'' PNone" "\<lambda>ev. dget ev ''sequence'' PNone" good_event generation for E ts
proof unfold_locales
  fix s e s'
  assume g: "good_event e" and st: "state_after_event E s e ts = Inr s'"
  note ok = state_after_event_ok [OF st g]
  show "dget s' ''last_event_sequence'' PNone = dget e ''sequence'' PNone" by (rule ok)
  show "generation s' = generation s + 1"
    using ok(2) state_wf_present [OF ok(1), of "''generation''" "PInt 0" PNone]
    by (simp add: generation_def STATE_KEYS_def)
qed simp_all

end
