(* ===== verification/StoreChain.thy ===== *)
theory StoreChain
  imports StoreLog
begin

text \<open>
  The hash chain of the journals of \<open>store.py\<close> and what a replay over a checked
  journal reaches: the declarative reading of \<open>_validate_sequence_and_hashes\<close>,
  why two checked journals that end in the same hash are the same journal, and
  the state that \<open>_reconcile_state\<close> and \<open>_reconstruct_state\<close> return.
\<close>

section \<open>The chain, record by record\<close>

definition record_hash_of :: "pdict \<Rightarrow> py" where
  "record_hash_of ev = dget ev ''record_hash'' PNone"

definition chained :: "env \<Rightarrow> int \<Rightarrow> py \<Rightarrow> pdict list \<Rightarrow> bool" where
  "chained E base previous events = (\<forall>i < length events.
     dget (events ! i) ''sequence'' PNone = PInt (base + int i)
     \<and> dget (events ! i) ''previous_event_hash'' (PStr []) = (if i = 0 then previous else record_hash_of (events ! (i - 1)))
     \<and> truthy (record_hash_of (events ! i))
     \<and> record_hash_of (events ! i) = PStr (event_record_hash E (events ! i)))"

lemma chained_Nil [simp]: "chained E b p []"
  by (simp add: chained_def)

lemma chained_Cons:
  "chained E b p (ev # evs) \<longleftrightarrow> dget ev ''sequence'' PNone = PInt b \<and> dget ev ''previous_event_hash'' (PStr []) = p
     \<and> truthy (record_hash_of ev) \<and> record_hash_of ev = PStr (event_record_hash E ev)
     \<and> chained E (b + 1) (record_hash_of ev) evs" (is "?l \<longleftrightarrow> ?r")
proof
  assume l: ?l
  have "chained E (b + 1) (record_hash_of ev) evs"
    unfolding chained_def
  proof (intro allI impI)
    fix i assume "i < length evs"
    then have "Suc i < length (ev # evs)" by simp
    with l show "dget (evs ! i) ''sequence'' PNone = PInt (b + 1 + int i)
      \<and> dget (evs ! i) ''previous_event_hash'' (PStr []) = (if i = 0 then record_hash_of ev else record_hash_of (evs ! (i - 1)))
      \<and> truthy (record_hash_of (evs ! i)) \<and> record_hash_of (evs ! i) = PStr (event_record_hash E (evs ! i))"
      unfolding chained_def by (drule_tac x = "Suc i" in spec) (cases i, auto simp: algebra_simps)
  qed
  moreover from l have "dget ev ''sequence'' PNone = PInt b \<and> dget ev ''previous_event_hash'' (PStr []) = p
     \<and> truthy (record_hash_of ev) \<and> record_hash_of ev = PStr (event_record_hash E ev)"
    unfolding chained_def by (drule_tac x = 0 in spec) auto
  ultimately show ?r by blast
next
  assume r: ?r
  show ?l
    unfolding chained_def
  proof (intro allI impI)
    fix i assume "i < length (ev # evs)"
    with r show "dget ((ev # evs) ! i) ''sequence'' PNone = PInt (b + int i)
      \<and> dget ((ev # evs) ! i) ''previous_event_hash'' (PStr []) = (if i = 0 then p else record_hash_of ((ev # evs) ! (i - 1)))
      \<and> truthy (record_hash_of ((ev # evs) ! i)) \<and> record_hash_of ((ev # evs) ! i) = PStr (event_record_hash E ((ev # evs) ! i))"
      unfolding chained_def by (cases i) (auto simp: nth_Cons' algebra_simps)
  qed
qed

lemma validate_chain_iff: "validate_chain E b p evs = Inr () \<longleftrightarrow> chained E b p evs"
  by (induction E b p evs rule: validate_chain.induct) (auto simp: chained_Cons resE record_hash_of_def)

lemma validate_chain_error: "validate_chain E b p evs = Inl e \<Longrightarrow> e = IntegrityError"
  by (induction E b p evs rule: validate_chain.induct) (auto simp: bindE_def guardE_def split: if_splits)

lemma validate_sequence_and_hashes_iff: "validate_sequence_and_hashes E evs = Inr () \<longleftrightarrow> chained E 1 (PStr []) evs"
  by (simp add: validate_sequence_and_hashes_def validate_chain_iff)

lemma validate_sequence_and_hashes_not: "validate_sequence_and_hashes E evs = Inl e \<longleftrightarrow> e = IntegrityError \<and> \<not> chained E 1 (PStr []) evs"
  by (metis Inl_Inr_False old.sum.exhaust old.unit.exhaust validate_chain_error validate_sequence_and_hashes_def
      validate_sequence_and_hashes_iff)

lemma chained_append:
  "chained E b p (xs @ ys) \<longleftrightarrow> chained E b p xs
     \<and> chained E (b + int (length xs)) (if xs = [] then p else record_hash_of (last xs)) ys"
  by (induction xs arbitrary: b p) (auto simp: chained_Cons algebra_simps)

lemma chained_snoc:
  "chained E b p (xs @ [ev]) \<longleftrightarrow> chained E b p xs \<and> dget ev ''sequence'' PNone = PInt (b + int (length xs))
     \<and> dget ev ''previous_event_hash'' (PStr []) = (if xs = [] then p else record_hash_of (last xs))
     \<and> truthy (record_hash_of ev) \<and> record_hash_of ev = PStr (event_record_hash E ev)"
  by (simp add: chained_append chained_Cons)

lemma chained_hash: "chained E b p evs \<Longrightarrow> ev \<in> set evs \<Longrightarrow> record_hash_of ev = PStr (event_record_hash E ev)"
  by (auto simp: chained_def in_set_conv_nth)

section \<open>The last hash determines the journal\<close>

definition collision :: "env \<Rightarrow> py \<Rightarrow> py \<Rightarrow> bool" where
  "collision E x y = (canonical_json x \<noteq> canonical_json y
     \<and> env_sha E (utf8_encode (canonical_json x)) = env_sha E (utf8_encode (canonical_json y)))"

text \<open>What the record hash of an event is computed from.\<close>

definition hashed_part :: "pdict \<Rightarrow> py" where
  "hashed_part ev = PDict (ddel ''record_hash'' ev)"

lemma digest_collision: "digest E v = digest E u \<Longrightarrow> wf_py v \<Longrightarrow> wf_py u \<Longrightarrow> v \<noteq> u \<Longrightarrow> collision E v u"
  unfolding collision_def digest_def
  by (metis append_eq_append_conv canonical_json_inj)

lemma wf_ddel: "wf_py (PDict d) \<Longrightarrow> wf_py (PDict (ddel k d))"
  by (auto simp: list_all_iff dict_ok_ddel) (auto simp: ddel_def)

lemma record_hash_inj:
  assumes "event_record_hash E a = event_record_hash E b" "wf_py (PDict a)" "wf_py (PDict b)"
    and "record_hash_of a = PStr (event_record_hash E a)" "record_hash_of b = PStr (event_record_hash E b)"
    and "''record_hash'' \<in> keys a" "''record_hash'' \<in> keys b"
  shows "a = b \<or> collision E (hashed_part a) (hashed_part b)"
proof (cases "ddel ''record_hash'' a = ddel ''record_hash'' b")
  case False
  with assms digest_collision [of E "PDict (ddel ''record_hash'' a)" "PDict (ddel ''record_hash'' b)"]
  show ?thesis by (simp add: event_record_hash_def hashed_part_def wf_ddel del: wf_py.simps)
next
  case True
  have ok: "dict_ok a" "dict_ok b" using assms(2,3) by simp_all
  have r: "map_of a ''record_hash'' = map_of b ''record_hash''"
    using assms(1,4-7) by (simp add: record_hash_of_def map_of_present [where x = PNone])
  have "map_of a k = map_of b k" for k
  proof (cases "k = ''record_hash''")
    case False
    from fun_cong [OF arg_cong [OF True, of map_of], of k] False show ?thesis by simp
  qed (simp add: r)
  with ok show ?thesis by (auto intro!: dict_ext)
qed

lemma event_wf_hash_key: "event_wf E u hl a n \<Longrightarrow> ''record_hash'' \<in> keys n"
  by (simp add: event_wf_def EVENT_KEYS_def)

lemma event_wf_get: "event_wf E u hl a n \<Longrightarrow> k \<in> set EVENT_KEYS \<Longrightarrow> dget n k x = dget n k y"
  by (rule dget_present) (simp add: event_wf_def)

lemma chained_determined:
  assumes "chained E b p xs" "chained E b p ys" "\<forall>ev\<in>set (xs @ ys). event_wf E u hl False ev"
    and "xs \<noteq> []" "ys \<noteq> []" "record_hash_of (last xs) = record_hash_of (last ys)"
  shows "xs = ys \<or> (\<exists>a\<in>set xs. \<exists>b\<in>set ys. collision E (hashed_part a) (hashed_part b))"
  using assms
proof (induction xs arbitrary: ys rule: rev_induct)
  case Nil
  then show ?case by simp
next
  case (snoc x xs)
  obtain zs y where ys: "ys = zs @ [y]" using snoc.prems(5) by (cases ys rule: rev_cases) auto
  note cx = snoc.prems(1) [unfolded chained_snoc] and cy = snoc.prems(2) [unfolded ys chained_snoc]
  have wf: "event_wf E u hl False x" "event_wf E u hl False y" using snoc.prems(3) ys by auto
  have "x = y \<or> collision E (hashed_part x) (hashed_part y)"
    using cx cy snoc.prems(6) ys wf by (intro record_hash_inj) (auto intro: event_wf_json event_wf_hash_key simp del: wf_py.simps)
  then show ?case
  proof
    assume xy: "x = y"
    with cx cy have len: "length xs = length zs" by simp
    show ?thesis
    proof (cases "xs = []")
      case False
      with len have "zs \<noteq> []" by auto
      with False cx cy xy have "record_hash_of (last xs) = record_hash_of (last zs)" by simp
      with snoc.IH [of zs] snoc.prems(3) cx cy False \<open>zs \<noteq> []\<close> show ?thesis by (auto simp: ys xy)
    qed (use len ys xy in auto)
  qed (use ys in auto)
qed

section \<open>What a replay reaches\<close>

lemma event_wf_good: "event_wf E u hl a ev \<Longrightarrow> good_event ev"
proof -
  assume wf: "event_wf E u hl a ev"
  have "checked (s_state_patch E) (dget ev ''state_patch'' PNone)"
    unfolding checked_def using wf by (intro fields_okD) (auto simp: event_wf_def event_table_def)
  then obtain r where "dget ev ''state_patch'' PNone = PDict r" "s_unknown_keys r STATE_PATCH_KEYS = Inr ()"
    by (auto simp: checked_def s_state_patch_def s_object_def resE split: py.splits)
  then show ?thesis
    by (auto simp: good_event_def patch_of_def s_unknown_keys_ok py_or_def)
qed

lemma state_wf_cursor:
  assumes "state_wf E hl st"
  shows "dget st ''last_event_sequence'' x = PInt (cursor st)" "0 \<le> cursor st"
    "dget st ''generation'' x = PInt (generation st)" "0 \<le> generation st"
proof -
  have fs: "fields_ok (state_table E) st" and ks: "keys st = set STATE_KEYS" using assms by (auto simp: state_wf_def)
  have "s_integer 0 (dget st ''last_event_sequence'' PNone) = Inr (dget st ''last_event_sequence'' PNone)"
    "s_integer 0 (dget st ''generation'' PNone) = Inr (dget st ''generation'' PNone)"
    by (rule fields_okD [OF fs], simp add: state_table_def)+
  then obtain i j where ij: "dget st ''last_event_sequence'' PNone = PInt i" "0 \<le> i"
      "dget st ''generation'' PNone = PInt j" "0 \<le> j"
    by (auto simp: s_integer_def split: py.splits if_splits)
  have "dget st ''last_event_sequence'' y = PInt i" "dget st ''generation'' y = PInt j" for y
    using ij dget_present [of "''last_event_sequence''" st y PNone] dget_present [of "''generation''" st y PNone]
    by (simp_all add: ks STATE_KEYS_def)
  with ij show "dget st ''last_event_sequence'' x = PInt (cursor st)" "0 \<le> cursor st"
    "dget st ''generation'' x = PInt (generation st)" "0 \<le> generation st"
    by (simp_all add: cursor_def generation_def)
qed

lemma chained_last:
  "chained E b p evs \<Longrightarrow> evs \<noteq> [] \<Longrightarrow> dget (last evs) ''sequence'' PNone = PInt (b + int (length evs) - 1)"
  unfolding chained_def by (drule spec [of _ "length evs - 1"]) (cases evs, auto simp: last_conv_nth)

text \<open>A state sits at the end of a journal: its cursor and hash are those of the last record.\<close>

definition at_end :: "pdict \<Rightarrow> pdict list \<Rightarrow> bool" where
  "at_end st evs = (cursor st = int (length evs)
     \<and> dget st ''last_event_hash'' PNone = (if evs = [] then dget st ''last_event_hash'' PNone else record_hash_of (last evs)))"

lemma apply_events_end:
  assumes run: "apply_events E ts st (drop n evs) = Inr s'" and chain: "chained E 1 (PStr []) evs"
    and good: "\<forall>ev\<in>set evs. good_event ev" and n: "n < length evs"
  shows "at_end s' evs" "generation s' = generation st + int (length evs - n)"
    "state_wf E STATE_HARD_LIMIT_BYTES s'" "dget s' ''updated_at'' PNone = PStr ts"
    "dget s' ''last_operation_id'' PNone = dget (last evs) ''operation_id'' PNone"
    "dget s' ''plan_id'' PNone = dget st ''plan_id'' PNone"
proof -
  have ne: "drop n evs \<noteq> []" and gd: "\<forall>ev\<in>set (drop n evs). good_event ev"
    using n good by (auto dest: in_set_dropD)
  have l: "last (drop n evs) = last evs" using n by simp
  obtain t where t: "state_after_event E t (last evs) ts = Inr s'" using plan_log.run_last [OF run ne] l by auto
  have gl: "good_event (last evs)" using good n last_in_set [of evs] by (cases evs) auto
  note ok = state_after_event_ok [OF t gl]
  show wf: "state_wf E STATE_HARD_LIMIT_BYTES s'" by (rule ok)
  show "at_end s' evs"
    using ok(4,5) chained_last [OF chain] state_wf_cursor(1) [OF wf, of PNone] n
    by (auto simp: at_end_def record_hash_of_def)
  show "generation s' = generation st + int (length evs - n)"
    using plan_log.run_gen [OF run gd] by simp
  show "dget s' ''updated_at'' PNone = PStr ts"
    "dget s' ''last_operation_id'' PNone = dget (last evs) ''operation_id'' PNone" by (rule ok)+
  show "dget s' ''plan_id'' PNone = dget st ''plan_id'' PNone"
    by (rule plan_log.run_keeps [OF _ run gd]) (rule state_after_event_ok)
qed

definition checked_journal :: "env \<Rightarrow> pdict list \<Rightarrow> bool" where
  "checked_journal E evs = (chained E 1 (PStr []) evs \<and> (\<forall>ev\<in>set evs. good_event ev))"

lemma nat_pred [simp]: "nat (int n - 1) = n - Suc 0"
  by (cases n) simp_all

lemma validate_state_cursor_iff:
  assumes "state_wf E hl st"
  shows "validate_state_cursor st evs = Inr () \<longleftrightarrow> cursor st \<le> int (length evs)
    \<and> (if cursor st = 0 then \<not> truthy (dget st ''last_event_hash'' (PStr []))
       else dget st ''last_event_hash'' PNone = record_hash_of (evs ! nat (cursor st - 1)))"
  by (auto simp: validate_state_cursor_def Let_def resE record_hash_of_def)

lemma at_end_cursor: "at_end st evs \<Longrightarrow> evs \<noteq> [] \<Longrightarrow> validate_state_cursor st evs = Inr ()"
  by (auto simp: validate_state_cursor_def Let_def resE at_end_def record_hash_of_def last_conv_nth)

lemma plain_fields_keys: "list_all (\<lambda>(k, d). k \<in> set STATE_KEYS) plain_state_fields"
  by code_simp

lemma revalidate_keeps:
  assumes "validate_state E ex hl (PDict t) = Inr s" "state_wf E hl' t" "(k, d) \<in> set plain_state_fields"
  shows "dget s k PNone = dget t k PNone"
proof -
  have "k \<in> keys t" using plain_fields_keys assms(2,3) by (auto simp: list_all_iff state_wf_def)
  from dget_present [OF this, of d PNone] show ?thesis using validate_state_keep [OF assms(1,3)] by simp
qed

lemma revalidated:
  assumes v: "validate_state E ex hl (PDict t) = Inr s" and wf: "state_wf E hl' t"
  shows "at_end t evs \<Longrightarrow> at_end s evs" "generation s = generation t" "cursor s = cursor t"
    "dget s ''plan_id'' PNone = dget t ''plan_id'' PNone"
proof -
  have k: "dget s ''generation'' PNone = dget t ''generation'' PNone"
    "dget s ''last_event_sequence'' PNone = dget t ''last_event_sequence'' PNone"
    "dget s ''last_event_hash'' PNone = dget t ''last_event_hash'' PNone"
    "dget s ''plan_id'' PNone = dget t ''plan_id'' PNone"
    by (rule revalidate_keeps [OF v wf, of _ "PInt 0"] revalidate_keeps [OF v wf, of _ "PStr []"]
        revalidate_keeps [OF v wf, of _ PNone], simp add: plain_state_fields_def; fail)+
  note s = validate_state_wf(1) [OF v]
  show c: "cursor s = cursor t" "generation s = generation t"
    using k state_wf_cursor(1,3) [OF s, of PNone] state_wf_cursor(1,3) [OF wf, of PNone] by auto
  show "at_end t evs \<Longrightarrow> at_end s evs" using c k by (auto simp: at_end_def)
  show "dget s ''plan_id'' PNone = dget t ''plan_id'' PNone" using k by auto
qed

lemma reconcile_state_result:
  assumes run: "reconcile_state E st evs ts = Inr (s', needed)" and wf: "state_wf E STATE_HARD_LIMIT_BYTES st"
    and j: "checked_journal E evs"
  shows "state_wf E STATE_HARD_LIMIT_BYTES s'" "at_end s' evs"
    "needed \<longleftrightarrow> cursor st < int (length evs)" "\<not> needed \<Longrightarrow> s' = st"
    "generation s' = generation st + (int (length evs) - cursor st)"
    "dget s' ''plan_id'' PNone = dget st ''plan_id'' PNone"
proof -
  have chain: "chained E 1 (PStr []) evs" and good: "\<forall>ev\<in>set evs. good_event ev"
    using j by (auto simp: checked_journal_def)
  note c = state_wf_cursor [OF wf]
  have vc: "validate_state_cursor st evs = Inr ()" using run by (auto simp: reconcile_state_def resE)
  note cur = vc [unfolded validate_state_cursor_iff [OF wf]]
  have "state_wf E STATE_HARD_LIMIT_BYTES s' \<and> at_end s' evs \<and> (needed \<longleftrightarrow> cursor st < int (length evs))
    \<and> (\<not> needed \<longrightarrow> s' = st) \<and> generation s' = generation st + (int (length evs) - cursor st)
    \<and> dget s' ''plan_id'' PNone = dget st ''plan_id'' PNone"
  proof (cases "cursor st = int (length evs)")
    case True
    then have "s' = st" "\<not> needed" using run vc by (auto simp: reconcile_state_def)
    with True cur wf show ?thesis
      by (cases "evs = []") (auto simp: at_end_def last_conv_nth)
  next
    case False
    define n where "n = nat (cursor st)"
    have n: "n < length evs" "int n = cursor st" using False cur c(2) by (auto simp: n_def)
    from False run vc obtain t ex where t: "apply_events E ts st (drop n evs) = Inr t"
        "validate_state E ex STATE_HARD_LIMIT_BYTES (PDict t) = Inr s'" "needed"
      by (auto simp: reconcile_state_def resE n_def)
    note e = apply_events_end [OF t(1) chain good n(1)]
    note s = validate_state_wf(1) [OF t(2)]
    show ?thesis using e s t(3) n revalidated [OF t(2) e(3)] by auto
  qed
  then show "state_wf E STATE_HARD_LIMIT_BYTES s'" "at_end s' evs"
    "needed \<longleftrightarrow> cursor st < int (length evs)" "\<not> needed \<Longrightarrow> s' = st"
    "generation s' = generation st + (int (length evs) - cursor st)"
    "dget s' ''plan_id'' PNone = dget st ''plan_id'' PNone" by auto
qed

lemma reconcile_at_end:
  assumes "state_wf E hl st" "at_end st evs" "evs \<noteq> []"
  shows "reconcile_state E st evs ts = Inr (st, False)"
  using assms at_end_cursor [of st evs] by (simp add: reconcile_state_def at_end_def)

end
