(* ===== verification/StoreEvents.thy ===== *)
theory StoreEvents
  imports StoreChain
begin

text \<open>
  Events on their way into the journal: what \<open>_build_event\<close> puts into a record,
  that such a record extends the chain, which updates \<open>_apply_update\<close> refuses,
  which retries \<open>_assert_same_operation\<close> accepts, and what
  \<open>_manifest_candidate\<close> does to the list of plans.
\<close>

section \<open>What event validation keeps\<close>

definition plain_event_fields :: "(string \<times> py) list" where
  "plain_event_fields = [(''sequence'', PInt 0), (''event_id'', PNone), (''operation_id'', PNone),
     (''timestamp'', PNone), (''kind'', PNone), (''plan_id'', PStr []), (''plan_path'', PStr []),
     (''summary'', PStr []), (''reason'', PStr []), (''next_action'', PStr []), (''status'', PStr ''planned''),
     (''classification'', PStr ''GREEN''), (''phase'', PStr []), (''references'', PList []),
     (''evidence_codes'', PList []), (''operation_payload_hash'', PStr []), (''state_semantic_hash'', PStr []),
     (''previous_event_hash'', PStr []), (''record_hash'', PStr [])]"

lemma built_event_keeps:
  assumes "distinct (map fst e)" "list_all (\<lambda>(k, dflt). dget e k PNone = dget d k dflt) tab"
  shows "list_all (\<lambda>(k, dflt). dget (mk_dict e) k PNone = dget d k dflt) tab"
  using assms by (simp add: dget_mk_dict)

lemma validate_event_keeps:
  assumes "validate_event E ex u hl a (PDict d) = Inr n"
  shows "list_all (\<lambda>(k, dflt). dget n k PNone = dget d k dflt) plain_event_fields"
  using assms
  unfolding validate_event_def Let_def bindE_eq_Inr guardE_eq_Inr s_reject_red_def sum.inject s_object_def py.case
  apply (elim exE conjE)
  apply (drule simple_id)+
  apply (hypsubst)
  apply (rule built_event_keeps)
  by (simp_all (no_asm) add: plain_event_fields_def)

lemma validate_event_keep:
  assumes "validate_event E ex u hl a (PDict d) = Inr n" "(k, dflt) \<in> set plain_event_fields"
  shows "dget n k PNone = dget d k dflt"
  using validate_event_keeps [OF assms(1)] assms(2) by (auto simp: list_all_iff)

section \<open>Built events\<close>

lemma event_wf_hash:
  assumes "event_wf E u hl False n"
  shows "truthy (record_hash_of n)" "record_hash_of n = PStr (event_record_hash E n)"
  using assms by (simp_all add: event_wf_def record_hash_of_def)

lemma build_event_result:
  assumes "build_event E plan st op kind summary reason next refs codes ts sq prev patch payload = Inr ev"
  shows "event_wf E False 0 False ev" "dget ev ''sequence'' PNone = sq"
    "dget ev ''previous_event_hash'' PNone = prev" "dget ev ''operation_id'' PNone = PStr op"
    "dget ev ''kind'' PNone = PStr kind" "dget ev ''plan_id'' PNone = PStr plan"
    "dget ev ''timestamp'' PNone = PStr ts" "dget ev ''summary'' PNone = PStr summary"
    "dget ev ''operation_payload_hash'' PNone = PStr (digest E (PDict payload))"
    "dget ev ''state_semantic_hash'' PNone = PStr (operation_state_hash E st)"
proof -
  let ?b = "event_base E plan st op kind summary reason next refs codes ts sq prev patch payload"
  obtain h where v: "validate_event E (Some plan) False 0 False (PDict (dset ''record_hash'' h ?b)) = Inr ev"
    using assms by (auto simp: build_event_def resE Let_def split: if_splits)
  show "event_wf E False 0 False ev" by (rule validate_event_wf [OF v])
  note keep = validate_event_keep [OF v]
  have get: "dget ev k PNone = w"
    if "(k, d) \<in> set plain_event_fields" "k \<noteq> ''record_hash''" "dget ?b k d = w" for k d w
    using keep [OF that(1)] that(2,3) by (simp add: dget_dset)
  note fld = event_base_def dget_mk_dict plain_event_fields_def
  show "dget ev ''sequence'' PNone = sq" by (rule get [of _ "PInt 0"]; simp add: fld)
  show "dget ev ''previous_event_hash'' PNone = prev" by (rule get [of _ "PStr []"]; simp add: fld)
  show "dget ev ''operation_id'' PNone = PStr op" by (rule get [of _ PNone]; simp add: fld)
  show "dget ev ''kind'' PNone = PStr kind" by (rule get [of _ PNone]; simp add: fld)
  show "dget ev ''plan_id'' PNone = PStr plan" by (rule get [of _ "PStr []"]; simp add: fld)
  show "dget ev ''timestamp'' PNone = PStr ts" by (rule get [of _ PNone]; simp add: fld)
  show "dget ev ''summary'' PNone = PStr summary" by (rule get [of _ "PStr []"]; simp add: fld)
  show "dget ev ''operation_payload_hash'' PNone = PStr (digest E (PDict payload))"
    by (rule get [of _ "PStr []"]; simp add: fld)
  show "dget ev ''state_semantic_hash'' PNone = PStr (operation_state_hash E st)"
    by (rule get [of _ "PStr []"]; simp add: fld)
qed

definition next_previous :: "pdict list \<Rightarrow> py" where
  "next_previous events = (if events = [] then PStr [] else dget (last events) ''record_hash'' PNone)"

lemma build_event_extends:
  assumes "build_event E plan st op kind summary reason next refs codes ts
      (PInt (int (length events) + 1)) (next_previous events) patch payload = Inr ev"
    and "checked_journal E events"
  shows "checked_journal E (events @ [ev])"
proof -
  note ev = build_event_result [OF assms(1)]
  have "dget ev ''previous_event_hash'' (PStr []) = next_previous events"
    using ev(3) event_wf_get [OF ev(1), of "''previous_event_hash''" "PStr []" PNone] by (simp add: EVENT_KEYS_def)
  with ev(2) event_wf_hash [OF ev(1)] assms(2) event_wf_good [OF ev(1)] show ?thesis
    unfolding checked_journal_def chained_snoc by (simp add: next_previous_def record_hash_of_def)
qed

section \<open>Updates\<close>

lemma apply_items_derived:
  "apply_items items r = Inr s \<Longrightarrow> keys items \<inter> set DERIVED_KEYS = {}
     \<and> (\<forall>k\<in>set DERIVED_KEYS. \<forall>x. dget s k x = dget r k x)"
proof (induction items r rule: apply_items.induct)
  case (2 key v items r)
  from "2.prems" have new: "key \<notin> set DERIVED_KEYS" by (auto split: if_splits)
  with "2.prems" have "apply_items items (dset key
     (if key = ''git'' then (case v of PDict d \<Rightarrow> PDict (git_update r d) | _ \<Rightarrow> v) else v) r) = Inr s" by simp
  from "2.IH" [OF new this] new show ?case by (auto simp: dget_dset)
qed simp

lemma apply_update_derived:
  assumes "apply_update st upd kind summary next = Inr c"
  shows "\<exists>d. upd = PDict d \<and> keys d \<inter> set DERIVED_KEYS = {}"
    "k \<in> set DERIVED_KEYS \<Longrightarrow> k \<noteq> ''semantic_hash'' \<Longrightarrow> dget c k x = dget st k x"
proof -
  obtain d r where d: "upd = PDict d" "apply_items d (dset ''semantic_hash'' (PStr []) st) = Inr r"
    using assms by (auto simp: apply_update_def resE s_object_def split: py.splits)
  note items = apply_items_derived [OF d(2)]
  then show "\<exists>d. upd = PDict d \<and> keys d \<inter> set DERIVED_KEYS = {}" using d(1) by blast
  assume k: "k \<in> set DERIVED_KEYS" "k \<noteq> ''semantic_hash''"
  then have ne: "k \<noteq> ''next_action''" "k \<noteq> ''latest_decision''" "k \<noteq> ''status''" by (auto simp: DERIVED_KEYS_def)
  have "dget c k x = dget r k x"
    using assms ne unfolding apply_update_def d s_object_def Let_def
    by (simp add: d(2)) (auto simp: dget_dset split: if_splits)
  then show "dget c k x = dget st k x" using items k by (simp add: dget_dset)
qed

definition kind_status :: "string \<Rightarrow> string option" where
  "kind_status kind = (if kind = ''completed'' then Some ''completed'' else if kind = ''reopened'' then Some ''reopened''
     else if kind = ''blocker_opened'' then Some ''blocked'' else None)"

lemma apply_update_status:
  assumes "apply_update st upd kind summary next = Inr c" "kind_status kind = Some s"
  shows "dget c ''status'' x = PStr s"
proof -
  obtain r where "c = (if kind = ''completed'' then dset ''status'' (PStr ''completed'') r
      else if kind = ''reopened'' then dset ''status'' (PStr ''reopened'') r
      else if kind = ''blocker_opened'' then dset ''status'' (PStr ''blocked'') r
      else if kind = ''blocker_resolved'' \<and> dget r ''status'' PNone = PStr ''blocked''
        then dset ''status'' (PStr ''active'') r else r)"
    using assms(1) unfolding apply_update_def Let_def bindE_eq_Inr sum.inject by blast
  with assms(2) show ?thesis
    by (cases "kind = ''completed''"; cases "kind = ''reopened''"; cases "kind = ''blocker_opened''")
      (auto simp: kind_status_def dget_dset)
qed

section \<open>Retries\<close>

lemma assert_same_operation_hash:
  assumes "dget a ''operation_payload_hash'' PNone = PStr x" "dget b ''operation_payload_hash'' PNone = PStr y"
    "x \<noteq> []" "y \<noteq> []"
  shows "assert_same_operation a kd sm (Some b) = guardE (x \<noteq> y) IdempotencyError"
proof -
  have "dget d k PNone = PStr z \<Longrightarrow> dget d k w = PStr z" for d k z w
    by (auto simp: dget_def split: option.splits)
  with assms have "dget a ''operation_payload_hash'' (PStr []) = PStr x" "dget b ''operation_payload_hash'' (PStr []) = PStr y"
    by blast+
  with assms show ?thesis by (simp add: assert_same_operation_def Let_def)
qed

lemma digest_ne [simp]: "digest E v \<noteq> []"
  by (simp add: digest_def)

text \<open>
  Two events built for operations with payloads \<open>p\<close> and \<open>q\<close> count as the same
  operation exactly when the payloads agree, whatever else changed between them
  (state, time, position, provenance), or their digests collide.
\<close>

lemma built_same_operation:
  assumes "build_event E plan st op kind summary reason next refs codes ts sq prev patch p = Inr a"
    and "build_event E plan' st' op' kind' summary' reason' next' refs' codes' ts' sq' prev' patch' q = Inr b"
  shows "assert_same_operation a kd sm (Some b) = guardE (digest E (PDict p) \<noteq> digest E (PDict q)) IdempotencyError"
  using assert_same_operation_hash [OF build_event_result(9) [OF assms(1)] build_event_result(9) [OF assms(2)]] by simp

lemma retry_accepted:
  assumes "build_event E plan st op kind summary reason next refs codes ts sq prev patch p = Inr a"
    and "build_event E plan' st' op' kind' summary' reason' next' refs' codes' ts' sq' prev' patch' p = Inr b"
  shows "assert_same_operation a kd sm (Some b) = Inr ()"
  by (simp add: built_same_operation [OF assms])

lemma changed_retry_rejected:
  assumes "build_event E plan st op kind summary reason next refs codes ts sq prev patch p = Inr a"
    and "build_event E plan' st' op' kind' summary' reason' next' refs' codes' ts' sq' prev' patch' q = Inr b"
    and "wf_py (PDict p)" "wf_py (PDict q)" "p \<noteq> q" "\<not> collision E (PDict p) (PDict q)"
  shows "assert_same_operation a kd sm (Some b) = Inl IdempotencyError"
proof -
  have "digest E (PDict p) \<noteq> digest E (PDict q)"
    using digest_collision [of E "PDict p" "PDict q"] assms(3-6) by blast
  then show ?thesis by (simp add: built_same_operation [OF assms(1,2)])
qed

end
