(* ===== verification/StoreManifest.thy ===== *)
theory StoreManifest
  imports StoreEvents
begin

text \<open>
  The manifest of \<open>store.py\<close>: what \<open>_manifest_candidate\<close> does to the list of
  plan pointers.  A registered plan keeps exactly one pointer, no pointer of
  another plan is touched, a pointer never moves back in its journal, and the
  generation counts the changes.
\<close>

section \<open>Pointers that pass unchanged\<close>

definition plain_pointer :: "pdict \<Rightarrow> bool" where
  "plain_pointer p = (dict_ok p \<and> keys p = fst ` set (pointer_table undefined))"

lemma plain_pointer_def': "plain_pointer p \<longleftrightarrow> dict_ok p \<and> keys p = {''plan_id'', ''plan_path'', ''state_path'',
    ''status'', ''branch'', ''workspace_instance_id'', ''semantic_hash'', ''last_event_sequence''}"
  by (simp add: plain_pointer_def pointer_table_def)

lemma pointer_wf_plain: "pointer_wf E p \<Longrightarrow> plain_pointer p"
  by (simp add: pointer_wf_def plain_pointer_def pointer_table_def)

lemma validate_pointer_same:
  assumes v: "validate_pointer E (PDict p) = Inr q" and p: "plain_pointer p"
  shows "q = p"
proof -
  have get: "dget p k x = dget p k PNone"
    if "k \<in> {''plan_id'', ''plan_path'', ''state_path'', ''status'', ''branch'', ''workspace_instance_id'',
       ''semantic_hash'', ''last_event_sequence''}" for k x
    using p that by (intro dget_present) (simp add: plain_pointer_def')
  have q: "q = mk_dict [(''plan_id'', dget p ''plan_id'' PNone), (''plan_path'', dget p ''plan_path'' (PStr [])),
      (''state_path'', dget p ''state_path'' (PStr [])), (''status'', dget p ''status'' (PStr ''planned'')),
      (''branch'', dget p ''branch'' (PStr [])),
      (''workspace_instance_id'', dget p ''workspace_instance_id'' (PStr [])),
      (''semantic_hash'', dget p ''semantic_hash'' (PStr [])),
      (''last_event_sequence'', dget p ''last_event_sequence'' (PInt 0))]"
    using v unfolding validate_pointer_def s_object_def py.case bindE_eq_Inr sum.inject
    apply (elim exE conjE)
    apply (drule simple_id)+
    by simp
  show ?thesis
    unfolding q
  proof (rule mk_dict_eqI)
    show "dict_ok p" using p by (simp add: plain_pointer_def')
    have "keys p = {''plan_id'', ''plan_path'', ''state_path'', ''status'', ''branch'', ''workspace_instance_id'',
       ''semantic_hash'', ''last_event_sequence''}" using p by (simp only: plain_pointer_def')
    then show "set (map fst [(''plan_id'', dget p ''plan_id'' PNone), (''plan_path'', dget p ''plan_path'' (PStr [])),
      (''state_path'', dget p ''state_path'' (PStr [])), (''status'', dget p ''status'' (PStr ''planned'')),
      (''branch'', dget p ''branch'' (PStr [])),
      (''workspace_instance_id'', dget p ''workspace_instance_id'' (PStr [])),
      (''semantic_hash'', dget p ''semantic_hash'' (PStr [])),
      (''last_event_sequence'', dget p ''last_event_sequence'' (PInt 0))]) = keys p" by (simp only: list.map fst_conv set_simps)
  qed (simp_all add: get [of _ "PStr []"] get [of _ "PStr ''planned''"] get [of _ "PInt 0"])
qed

lemma validate_pointers_same:
  "validate_pointers E seen ps = Inr qs \<Longrightarrow> \<forall>v\<in>set ps. \<exists>p. v = PDict p \<and> plain_pointer p \<Longrightarrow> qs = ps"
  by (induction E seen ps arbitrary: qs rule: validate_pointers.induct)
    (auto simp: resE Let_def split: if_splits dest: validate_pointer_same)

lemma pointer_for_plain: "plain_pointer (pointer_for P st)"
  by (simp add: plain_pointer_def' pointer_for_def)

section \<open>The list of plans\<close>

definition plans_of :: "pdict \<Rightarrow> py list" where
  "plans_of m = (case dget m ''plans'' (PList []) of PList xs \<Rightarrow> xs | _ \<Rightarrow> [])"

definition pointer_id :: "py \<Rightarrow> py" where
  "pointer_id v = pointer_of v ''plan_id''"

definition others :: "py \<Rightarrow> py list \<Rightarrow> py list" where
  "others pid ps = filter (\<lambda>v. pointer_id v \<noteq> pid) ps"

lemma manifest_wf_plans:
  assumes "manifest_wf E hl m"
  shows "\<forall>v\<in>set (plans_of m). \<exists>p. v = PDict p \<and> pointer_wf E p" "distinct (map pointer_id (plans_of m))"
    "length (plans_of m) \<le> 64" "\<exists>g. \<forall>x. dget m ''generation'' x = PInt g"
proof -
  obtain ps where ps: "dget m ''plans'' PNone = PList ps" "length ps \<le> 64"
      "list_all (\<lambda>v. \<exists>p. v = PDict p \<and> pointer_wf E p) ps" "distinct (map (\<lambda>v. pointer_of v ''plan_id'') ps)"
    and ks: "keys m = {''schema_version'', ''canonical_repo_identity'', ''generation'', ''plans''}"
    and g: "checked (s_integer 0) (dget m ''generation'' PNone)"
    using assms unfolding manifest_wf_def by blast
  have get: "dget m k x = dget m k PNone" if "k \<in> {''generation'', ''plans''}" for k x
    using that ks by (intro dget_present) auto
  have "plans_of m = ps" using ps(1) by (simp add: plans_of_def get [of "''plans''" "PList []"])
  with ps show "\<forall>v\<in>set (plans_of m). \<exists>p. v = PDict p \<and> pointer_wf E p" "distinct (map pointer_id (plans_of m))"
    "length (plans_of m) \<le> 64"
    unfolding list_all_iff pointer_id_def [abs_def] by simp_all
  show "\<exists>g. \<forall>x. dget m ''generation'' x = PInt g"
    using g get [of "''generation''"] by (cases "dget m ''generation'' PNone") (auto simp: checked_def s_integer_def)
qed

lemma validate_manifest_parts:
  assumes "validate_manifest E hl (PDict d) = Inr n"
  shows "\<exists>identity raw qs. s_identifier E True (dget d ''canonical_repo_identity'' (PStr [])) = Inr identity
    \<and> dget d ''plans'' (PList []) = PList raw \<and> validate_pointers E [] raw = Inr qs
    \<and> n = mk_dict [(''schema_version'', PInt 1), (''canonical_repo_identity'', identity),
       (''generation'', dget d ''generation'' (PInt 0)), (''plans'', PList qs)]"
  using assms
  by (auto simp: validate_manifest_def Let_def resE plans_case s_object_def dest: s_integer_id)

lemma bump_manifest_result:
  assumes b: "bump_manifest E m changed plans = Inr (c, ch)" and wf: "manifest_wf E hl m"
    and plain: "\<forall>v\<in>set plans. \<exists>p. v = PDict p \<and> plain_pointer p"
  shows "manifest_wf E MANIFEST_HARD_LIMIT_BYTES c" "ch = changed" "plans_of c = plans"
    "generation c = generation m + (if changed then 1 else 0)"
    "dget c ''canonical_repo_identity'' PNone = dget m ''canonical_repo_identity'' PNone"
proof -
  let ?g = "PInt (int_of_py (dget m ''generation'' (PInt 0)) + (if changed then 1 else 0))"
  let ?d = "dupdate m [(''generation'', ?g), (''plans'', PList plans)]"
  have v: "validate_manifest E MANIFEST_HARD_LIMIT_BYTES (PDict ?d) = Inr c" and ch: "ch = changed"
    using b by (auto simp: bump_manifest_def resE simp del: dupdate.simps)
  show "manifest_wf E MANIFEST_HARD_LIMIT_BYTES c" by (rule validate_manifest_wf [OF v])
  show "ch = changed" by (rule ch)
  have ok: "keys m = {''schema_version'', ''canonical_repo_identity'', ''generation'', ''plans''}"
    using wf by (simp add: manifest_wf_def)
  have get: "dget ?d ''generation'' (PInt 0) = ?g" "dget ?d ''plans'' (PList []) = PList plans"
    "dget ?d ''canonical_repo_identity'' (PStr []) = dget m ''canonical_repo_identity'' PNone"
    using dget_present [of "''canonical_repo_identity''" m "PStr []" PNone] ok by (simp_all add: dget_dset)
  obtain identity raw qs where id: "s_identifier E True (dget ?d ''canonical_repo_identity'' (PStr [])) = Inr identity"
    and raw: "dget ?d ''plans'' (PList []) = PList raw" and qs: "validate_pointers E [] raw = Inr qs"
    and c: "c = mk_dict [(''schema_version'', PInt 1), (''canonical_repo_identity'', identity),
       (''generation'', dget ?d ''generation'' (PInt 0)), (''plans'', PList qs)]"
    using validate_manifest_parts [OF v] by blast
  note id = id [unfolded get] and raw = raw [unfolded get py.inject] and c = c [unfolded get]
  have "qs = plans" by (rule validate_pointers_same [OF qs [folded raw] plain])
  moreover have "identity = dget m ''canonical_repo_identity'' PNone" using simple_id(5) [OF id] by simp
  ultimately show "plans_of c = plans" "generation c = generation m + (if changed then 1 else 0)"
    "dget c ''canonical_repo_identity'' PNone = dget m ''canonical_repo_identity'' PNone"
    by (simp_all add: c plans_of_def generation_def dget_mk_dict)
qed

lemma find_index_Some: "find_index p xs = Some i \<Longrightarrow> i < length xs \<and> p (xs ! i) \<and> (\<forall>j<i. \<not> p (xs ! j))"
  by (induction p xs arbitrary: i rule: find_index.induct)
    (auto simp: nth_Cons less_Suc_eq_0_disj split: if_splits nat.splits)

lemma find_index_None: "find_index p xs = None \<longleftrightarrow> (\<forall>x\<in>set xs. \<not> p x)"
  by (induction p xs rule: find_index.induct) auto

lemma others_update:
  "i < length ps \<Longrightarrow> pointer_id (ps ! i) = pid \<Longrightarrow> pointer_id v = pid \<Longrightarrow> others pid (ps[i := v]) = others pid ps"
  by (induction ps arbitrary: i) (auto simp: others_def nth_Cons split: nat.splits)

section \<open>The candidate\<close>

lemma others_append: "pointer_id v = pid \<Longrightarrow> others pid (ps @ [v]) = others pid ps"
  by (simp add: others_def)

lemma plain_pointer_id: "pointer_id (PDict (pointer_for P st)) = dget st ''plan_id'' PNone"
  by (simp add: pointer_id_def pointer_of_def pointer_for_def dget_mk_dict)

text \<open>What a manifest says of a plan: the journal position of its pointer, 0 when it has none.\<close>

definition position_of :: "py \<Rightarrow> py list \<Rightarrow> int" where
  "position_of pid ps = (case first_match (\<lambda>v. pointer_id v = pid) ps of None \<Rightarrow> 0 | Some v \<Rightarrow> pointer_sequence v)"

lemma find_index_first_match:
  "find_index p xs = Some i \<Longrightarrow> first_match p xs = Some (xs ! i)"
  by (induction p xs arbitrary: i rule: find_index.induct) (auto split: if_splits)

lemma first_match_update:
  "find_index p xs = Some i \<Longrightarrow> p v \<Longrightarrow> first_match p (xs[i := v]) = Some v"
  by (induction p xs arbitrary: i rule: find_index.induct) (auto split: if_splits)

lemma manifest_candidate_result:
  assumes run: "manifest_candidate E P m st force = Inr (c, changed)"
    and wf: "manifest_wf E MANIFEST_HARD_LIMIT_BYTES m" and seq: "0 \<le> pointer_sequence (PDict (pointer_for P st))"
  shows "manifest_wf E MANIFEST_HARD_LIMIT_BYTES c \<and> generation c = generation m + (if changed then 1 else 0)
    \<and> others (dget st ''plan_id'' PNone) (plans_of c) = others (dget st ''plan_id'' PNone) (plans_of m)
    \<and> position_of (dget st ''plan_id'' PNone) (plans_of m) \<le> position_of (dget st ''plan_id'' PNone) (plans_of c)
    \<and> dget st ''plan_id'' PNone \<in> pointer_id ` set (plans_of c)
    \<and> dget c ''canonical_repo_identity'' PNone = dget m ''canonical_repo_identity'' PNone
    \<and> (\<not> changed \<longrightarrow> plans_of c = plans_of m)"
proof -
  let ?p = "PDict (pointer_for P st)" and ?pid = "dget st ''plan_id'' PNone"
  let ?f = "\<lambda>v. pointer_id v = ?pid"
  have pred: "(\<lambda>item. dget (dict_of item) ''plan_id'' PNone = dget (pointer_for P st) ''plan_id'' PNone) = ?f"
    using plain_pointer_id [of P st] by (simp add: pointer_id_def pointer_of_def)
  have plain: "\<forall>v\<in>set (plans_of m). \<exists>p. v = PDict p \<and> plain_pointer p"
    using manifest_wf_plans(1) [OF wf] pointer_wf_plain by blast
  note run' = run [unfolded manifest_candidate_def Let_def pred plans_of_def [symmetric]]
  show ?thesis
  proof (cases "find_index ?f (plans_of m)")
    case None
    with run' have b: "bump_manifest E m True (plans_of m @ [?p]) = Inr (c, changed)" by simp
    have "\<forall>v\<in>set (plans_of m @ [?p]). \<exists>p. v = PDict p \<and> plain_pointer p" using plain pointer_for_plain by auto
    note r = bump_manifest_result [OF b wf this]
    have "first_match ?f (plans_of m) = None" using None by (simp add: find_index_None first_match_None)
    with r seq show ?thesis
      by (simp add: others_append plain_pointer_id position_of_def first_match_append)
  next
    case (Some i)
    note i = find_index_Some [OF Some]
    then have mem: "?pid \<in> pointer_id ` set (plans_of m)" by (metis imageI nth_mem)
    consider (ahead) "pointer_sequence (plans_of m ! i) > pointer_sequence ?p"
      | (new) "pointer_sequence (plans_of m ! i) \<le> pointer_sequence ?p"
          "bump_manifest E m True ((plans_of m)[i := ?p]) = Inr (c, changed)"
      | (same) "bump_manifest E m False (plans_of m) = Inr (c, changed)"
      using run' Some by (auto split: if_splits)
    then show ?thesis
    proof cases
      case ahead
      with run' Some have "c = m" "\<not> changed" using validate_manifest_accepts [OF wf] by auto
      with wf mem show ?thesis by auto
    next
      case new
      have "\<forall>v\<in>set ((plans_of m)[i := ?p]). \<exists>p. v = PDict p \<and> plain_pointer p"
        using plain pointer_for_plain by (auto dest!: set_update_subset_insert [THEN subsetD])
      note r = bump_manifest_result [OF new(2) wf this]
      have "?p \<in> set ((plans_of m)[i := ?p])" using i by (simp add: set_update_memI)
      then have "?pid \<in> pointer_id ` set ((plans_of m)[i := ?p])" using plain_pointer_id [of P st] by force
      with r new(1) i find_index_first_match [OF Some] first_match_update [OF Some, of ?p] show ?thesis
        by (simp add: others_update plain_pointer_id position_of_def)
    next
      case same
      note r = bump_manifest_result [OF same wf plain]
      with mem show ?thesis by auto
    qed
  qed
qed

end
