(* ===== verification/StoreSafety.thy ===== *)
theory StoreSafety
  imports Store StoreManifest
begin

text \<open>
  Journals only grow.  Whatever an operation of \<open>ImplementationStore\<close> does,
  however it ends, and wherever a system call fails or the process dies, the
  bytes of every journal stay as they were, followed by what was appended.
\<close>

section \<open>Growing files\<close>

definition grows :: "path \<Rightarrow> world \<Rightarrow> world \<Rightarrow> bool" where
  "grows q w w' = prefix (bytes_at w q) (bytes_at w' q)"

definition is_journal :: "path \<Rightarrow> bool" where
  "is_journal q = (name_of q \<in> {''events.jsonl'', ''unplanned-events.jsonl'', ''context-emissions.jsonl''})"

named_theorems growing \<open>operations that only extend the journals\<close>

lemma grows_refl: "reflp (grows q)"
  by (simp add: reflp_def grows_def)

lemma grows_trans: "transp (grows q)"
  by (rule transpI) (auto simp: grows_def elim: prefix_order.trans)

lemma grows_same: "bytes_at w' q = bytes_at w q \<Longrightarrow> grows q w w'"
  by (simp add: grows_def)

lemma grows_pure [growing]:
  "keeps (grows q) (ret x)" "keeps (grows q) (raise e)" "keeps (grows q) (reading f)"
  "keeps (grows q) (lift r)" "keeps (grows q) (guard c e)"
  by (rule keeps_pure, rule grows_refl)+

lemmas grows_bind = keeps_bind [OF grows_trans]
lemmas grows_handle = keeps_handle [OF grows_trans]

lemma journal_not_temp: "is_journal q \<Longrightarrow> \<not> is_temp q"
  by (auto simp: is_journal_def is_temp_def)

lemma grows_frame:
  assumes "keeps (frame S) m" "is_journal q" "q \<notin> S"
  shows "keeps (grows q) m"
  using assms(1)
proof (rule keeps_mono)
  fix w w' assume "frame S w w'"
  with assms(2,3) journal_not_temp have "w_node w' q = w_node w q" by (auto simp: frame_def)
  then show "grows q w w'" by (simp add: grows_def bytes_at_def)
qed

lemma journal_neq: "is_journal q \<Longrightarrow> \<not> is_journal p \<Longrightarrow> q \<notin> {p}"
  by auto

lemma grows_publish [growing]: "is_journal q \<Longrightarrow> \<not> is_journal p \<Longrightarrow> keeps (grows q) (publish_json p d hl)"
  by (rule grows_frame [of "{p}"]) (auto intro: framed)

lemma grows_bytes [growing]: "is_journal q \<Longrightarrow> \<not> is_journal p \<Longrightarrow> keeps (grows q) (publish_bytes p d hl)"
  by (rule grows_frame [of "{p}"]) (auto intro: framed)

lemma grows_append [growing]: "p \<noteq> [] \<Longrightarrow> keeps (grows q) (append_jsonl p d hl lim mx ex)"
proof (rule keeps_eval)
  fix w assume p: "p \<noteq> []"
  obtain r w' where run: "append_jsonl p d hl lim mx ex w = (r, w')" by fastforce
  from append_jsonl_result [OF run p] have "grows q w w'"
    by (cases "q = p") (auto simp: grows_def, simp add: bytes_at_def)
  with run show "grows q w (snd (append_jsonl p d hl lim mx ex w))" by simp
qed

lemma grows_locked [growing]:
  assumes "is_journal q" "\<not> is_journal p" "keeps (grows q) body"
  shows "keeps (grows q) (locked_file p body)"
proof -
  have op: "keeps (grows q) (os_error_as StoreIOError (os_open_create p))" "keeps (grows q) (os_chmod p m)" for m
    using assms(1,2) by (auto intro!: grows_frame [of "{p}"] framed)
  show ?thesis
    unfolding locked_file_def fstat_private_def
    by (intro grows_bind frame_case_prod op assms(3) growing)
qed

lemma grows_only_dirs: "keeps (only_dirs p) m \<Longrightarrow> keeps (grows q) m"
proof (erule keeps_mono)
  fix w w' assume "only_dirs p w w'"
  then have "w_node w' q = w_node w q \<or> (\<exists>m. w_node w' q = Some (Dir m)) \<and> (w_node w q = None \<or> (\<exists>m. w_node w q = Some (Dir m)))"
    unfolding only_dirs_def by blast
  then have "bytes_at w' q = bytes_at w q" by (auto simp: bytes_at_def)
  then show "grows q w w'" by (rule grows_same)
qed

lemma grows_dirs [growing]: "keeps (grows q) (ensure_directory_chain m p)"
  by (rule grows_only_dirs, rule ensure_directory_chain_effect)

lemma grows_layout [growing]: "keeps (grows q) (ensure_store_layout (layout r))"
  by (rule grows_only_dirs, rule ensure_store_layout_effect) (simp add: layout_def)

lemma grows_random [growing]: "keeps (grows q) random_hex" "keeps (grows q) now_text"
  by (rule keeps_eval, simp add: random_hex_def now_text_def grows_def bytes_at_def)+

section \<open>Quarantine\<close>

lemma candidate_not_journal: "\<not> is_journal (d @ [candidate_name n h c])"
proof
  let ?c = "candidate_name n h c"
  assume "is_journal (d @ [?c])"
  then have n: "?c \<in> {''events.jsonl'', ''unplanned-events.jsonl'', ''context-emissions.jsonl''}"
    by (simp add: is_journal_def name_of_def)
  obtain a b where "split_suffix n = (a, b)" by fastforce
  then have "?c = a @ ''.invalid.'' @ h @ (if c = 0 then [] else CHR ''.'' # nat_str c) @ b"
    by (simp add: candidate_name_def)
  then have "CHR ''i'' \<in> set ?c" "CHR ''d'' \<in> set ?c" by simp_all
  with n show False by auto
qed

lemma free_candidate_name: "free_candidate w p h k = Some c \<Longrightarrow> \<exists>n. c = parent p @ [candidate_name (name_of p) h n]"
  by (rule free_candidate.raw_induct [where P = "\<lambda>w p h k c. \<exists>n. c = parent p @ [candidate_name (name_of p) h n]"])
    (auto simp: Let_def split: if_splits)

lemma bind_val:
  assumes "transp P" "keeps P m" "\<And>w x w'. m w = (Inr x, w') \<Longrightarrow> keeps P (f x)"
  shows "keeps P (bind m f)"
proof (rule keeps_eval)
  fix w
  obtain r w' where run: "bind m f w = (r, w')" by fastforce
  from run have "P w w'"
  proof (cases rule: bind_cases)
    case (fails e)
    then show ?thesis using keepsD [OF assms(2)] by blast
  next
    case (goes x w1)
    then show ?thesis using keepsD [OF assms(2) goes(1)] keepsD [OF assms(3) [OF goes(1)] goes(2)] transpD [OF assms(1)]
      by blast
  qed
  with run show "P w (snd (bind m f w))" by simp
qed

lemma grows_quarantine [growing]:
  assumes "is_journal q" "\<not> is_journal p"
  shows "keeps (grows q) (quarantine_file E p)"
  unfolding quarantine_file_def
  apply (rule grows_bind, rule growing, rule frame_case_prod)
  apply (rule grows_bind, rule growing)
proof (rule bind_val [OF grows_trans], rule growing)
  fix raw mode and w :: world and c w'
  assume "reading (\<lambda>w. case free_candidate w p (take 16 (env_sha E raw)) 0 of None \<Rightarrow> Inl Killed | Some c \<Rightarrow> Inr c) w = (Inr c, w')"
  then have "\<not> is_journal c"
    using free_candidate_name candidate_not_journal by (auto split: option.splits) blast
  with assms have "keeps (grows q) (os_error_as StoreIOError (bind (os_replace p c) (\<lambda>_.
      bind (os_chmod c (private_mode mode)) (\<lambda>_. fsync_directory (parent p)))))"
    by (intro grows_frame [of "{p, c}"] framed frame_bind) auto
  then show "keeps (grows q) (bind (reading (\<lambda>w. reject_symlink_components w True c)) (\<lambda>_.
     bind (os_error_as StoreIOError (bind (os_replace p c) (\<lambda>_. bind (os_chmod c (private_mode mode)) (\<lambda>_.
        fsync_directory (parent p))))) (\<lambda>_. ret c)))"
    by (intro grows_bind growing)
qed

section \<open>The operations of the store\<close>

lemma keeps_option: "(x = None \<Longrightarrow> keeps P a) \<Longrightarrow> (\<And>y. x = Some y \<Longrightarrow> keeps P (f y)) \<Longrightarrow> keeps P (case x of None \<Rightarrow> a | Some y \<Rightarrow> f y)"
  by (cases x) auto

lemma keeps_sum: "(\<And>y. x = Inl y \<Longrightarrow> keeps P (f y)) \<Longrightarrow> (\<And>y. x = Inr y \<Longrightarrow> keeps P (g y)) \<Longrightarrow> keeps P (case x of Inl y \<Rightarrow> f y | Inr y \<Rightarrow> g y)"
  by (cases x) auto

lemmas grows_compose = grows_bind frame_case_prod frame_if grows_handle keeps_option keeps_sum

definition plan_shape :: "plan_paths \<Rightarrow> bool" where
  "plan_shape plan = (name_of (pp_state plan) = ''state.json'' \<and> name_of (pp_state_lock plan) = ''state.lock''
     \<and> pp_events plan \<noteq> [])"

lemma for_plan_shape: "for_plan w P pid = Inr plan \<Longrightarrow> plan_shape plan"
  by (auto simp: for_plan_def resE Let_def plan_shape_def name_of_def)

lemma plan_not_journal [growing]:
  "plan_shape plan \<Longrightarrow> \<not> is_journal (pp_state plan)" "plan_shape plan \<Longrightarrow> \<not> is_journal (pp_state_lock plan)"
  by (simp_all add: plan_shape_def is_journal_def)

lemma layout_not_journal [growing]:
  "\<not> is_journal (manifest (layout r))" "\<not> is_journal (manifest_lock (layout r))" "\<not> is_journal (context_ledger_lock (layout r))"
  "unplanned_events (layout r) \<noteq> []" "context_ledger (layout r) \<noteq> []"
  by (simp_all add: is_journal_def name_of_def)

lemma layout_journal: "is_journal (unplanned_events (layout r))" "is_journal (context_ledger (layout r))"
  by (simp_all add: is_journal_def name_of_def)

lemma grows_inputs [growing]: "keeps (grows q) (now_or now)" "keeps (grows q) (operation_id_or_new E op)"
  unfolding now_or_def operation_id_or_new_def by (intro grows_compose growing)+

lemma grows_load [growing]:
  assumes "is_journal q"
  shows "plan_shape plan \<Longrightarrow> keeps (grows q) (load_state_for_write E plan)"
    "keeps (grows q) (read_manifest_locked E (layout r))"
    "plan_shape plan \<Longrightarrow> keeps (grows q) (publish_if b plan st)"
  unfolding load_state_for_write_def read_manifest_locked_def publish_if_def
  by (intro grows_compose growing assms; assumption)+

lemma grows_load_current [growing]:
  "is_journal q \<Longrightarrow> plan_shape plan \<Longrightarrow> keeps (grows q) (load_current E P plan ts)"
  unfolding load_current_def by (intro grows_compose growing)

lemma grows_append_event [growing]: "plan_shape plan \<Longrightarrow> keeps (grows q) (append_event plan ev n)"
  unfolding append_event_def by (rule growing) (simp add: plan_shape_def)

lemma grows_pointer [growing]:
  assumes "is_journal q"
  shows "keeps (grows q) (publish_manifest_pointer_locked E (layout r) st force m)"
    "keeps (grows q) (publish_manifest_pointer E (layout r) st force)"
  unfolding publish_manifest_pointer_def publish_manifest_pointer_locked_def
  by (intro grows_compose growing assms)+

lemma grows_for_plan:
  assumes "\<And>plan. plan_shape plan \<Longrightarrow> keeps (grows q) (f plan)"
  shows "keeps (grows q) (bind (reading (\<lambda>w. for_plan w P pid)) f)"
  by (rule bind_val [OF grows_trans]) (auto intro: grows_pure assms dest: for_plan_shape)

lemma grows_register [growing]:
  "is_journal q \<Longrightarrow> keeps (grows q) (register_plan E (layout r) pid path op now prov obj ph nx status sm rs refs codes)"
  unfolding register_plan_def Let_def by (rule grows_for_plan) (intro grows_compose growing)

lemma grows_preview [growing]:
  "is_journal q \<Longrightarrow> plan_shape plan \<Longrightarrow> keeps (grows q) (preview_state_for E (layout r) pid plan)"
  unfolding preview_state_for_def by (intro grows_compose growing)

lemma grows_record [growing]:
  "is_journal q \<Longrightarrow> keeps (grows q) (record_event E (layout r) pid kind op sm rs nx refs codes upd now prov)"
  unfolding record_event_def Let_def by (rule grows_for_plan) (intro grows_compose growing)

lemma grows_update [growing]:
  "is_journal q \<Longrightarrow> keeps (grows q) (update_state E (layout r) pid upd op kind sm now prov)"
  unfolding update_state_def by (rule growing)

lemma grows_unplanned [growing]:
  "is_journal q \<Longrightarrow> keeps (grows q) (append_unplanned_commit E (layout r) op sm refs codes now prov)"
  unfolding append_unplanned_commit_def by (intro grows_compose growing)

lemma grows_replay [growing]: "is_journal q \<Longrightarrow> keeps (grows q) (replay_plan E (layout r) pid now)"
  unfolding replay_plan_def by (rule grows_for_plan) (intro grows_compose growing)

lemma grows_claim [growing]: "is_journal q \<Longrightarrow> keeps (grows q) (claim_context_emission E (layout r) rec)"
  unfolding claim_context_emission_def by (intro grows_compose growing)

end
