(* ===== verification/StoreEffects.thy ===== *)
theory StoreEffects
  imports StoreSafety
begin

text \<open>
  What a call that returns has done to the journals of \<open>ImplementationStore\<close>:
  exactly one record is appended, the journal then reads back as the old
  records followed by it, the chain still checks, and an operation or a context
  emission that is already recorded is not recorded again.
\<close>

section \<open>Journals read back\<close>

definition decodes :: "(py \<Rightarrow> pdict res) \<Rightarrow> nat \<Rightarrow> string \<Rightarrow> pdict list \<Rightarrow> bool" where
  "decodes v mx b recs = (jsonl_loop v mx [] (byte_lines [] b) = Inr (recs, False))"

lemma read_jsonl_cases:
  assumes "read_jsonl w v lim mx p = Inr (recs, partial)" and "p \<noteq> []"
  shows "jsonl_loop v mx [] (byte_lines [] (bytes_at w p)) = Inr (recs, partial)
    \<and> (missing w p \<or> readable w p (bytes_at w p) \<and> length (bytes_at w p) \<le> lim)"
proof -
  have nl: "no_links w p" using assms(1) by (auto simp: read_jsonl_def resE reject_missing_ok)
  show ?thesis
  proof (cases "path_exists w p")
    case False
    then have "recs = []" "\<not> partial" "missing w p"
      using assms plain_path_exists [OF nl assms(2)] nl by (auto simp: read_jsonl_def resE missing_def)
    then show ?thesis by (simp add: missing_def bytes_at_def)
  next
    case True
    then obtain b where b: "readable w p b" "length b \<le> lim" "jsonl_loop v mx [] (byte_lines [] b) = Inr (recs, partial)"
      using assms(1) by (auto simp: read_jsonl_def bindE_eq_Inr read_bytes_ok simp del: not_None_eq)
    then have "bytes_at w p = b" by (auto simp: readable_def bytes_at_def)
    with b show ?thesis by simp
  qed
qed

lemma read_jsonl_present:
  assumes "readable w p b" "length b \<le> lim"
  shows "read_jsonl w v lim mx p = jsonl_loop v mx [] (byte_lines [] b)"
proof -
  have "reject_symlink_components w True p = Inr ()" using assms(1) by (simp add: reject_missing_ok readable_def)
  moreover have "read_bytes w (Some lim) True p = Inr b" using assms by (simp add: read_bytes_ok)
  ultimately show ?thesis using readable_exists [OF assms(1)] by (simp add: read_jsonl_def)
qed

text \<open>
  The contract of a journal: its records pass a validator of the schema, one
  record is at most \<open>hl\<close> bytes, the file at most \<open>lim\<close> bytes and \<open>mx\<close> records.
\<close>

locale journal = record_schema validate for validate :: "py \<Rightarrow> pdict res" +
  fixes hl lim mx :: nat
begin

lemma append_effect:
  assumes run: "append_jsonl p d hl (Some lim) (Some mx) (Some (length recs)) w = (Inr md, w')" and p: "p \<noteq> []"
    and dec: "decodes validate mx (bytes_at w p) recs" and d: "validate v = Inr d"
  shows "decodes validate mx (bytes_at w' p) (recs @ [d])" "bytes_at w' p = bytes_at w p @ json_line d"
    "length (bytes_at w' p) \<le> lim" "length recs < mx"
proof -
  note res = append_jsonl_result [OF run p]
  then obtain m where m: "w_node w' p = Some (RegFile (bytes_at w p @ json_line d) (private_mode m) 1)" by auto
  then show b: "bytes_at w' p = bytes_at w p @ json_line d" by (simp add: bytes_at_def)
  show "length (bytes_at w' p) \<le> lim" using res unfolding b by auto
  show lt: "length recs < mx" using res by auto
  show "decodes validate mx (bytes_at w' p) (recs @ [d])"
    using jsonl_append_line [OF dec [unfolded decodes_def] validate_json [OF d] validate_again [OF d] lt]
    by (simp add: decodes_def b)
qed

lemma append_read:
  assumes run: "append_jsonl p d hl (Some lim) (Some mx) (Some (length recs)) w = (Inr md, w')" and p: "p \<noteq> []"
    and rd: "read_jsonl w validate lim mx p = Inr (recs, False)" and d: "validate v = Inr d"
    and perm: "\<not> w_noread w' p"
  shows "read_jsonl w' validate lim mx p = Inr (recs @ [d], False)"
proof -
  have dec: "decodes validate mx (bytes_at w p) recs" using read_jsonl_cases [OF rd p] by (simp add: decodes_def)
  note eff = append_effect [OF run p dec d]
  have "same_env w w'"
    using frame_append_jsonl [of p "{p}" d hl "Some lim" "Some mx" "Some (length recs)", THEN keepsD, OF _ run]
    by (simp add: frame_def)
  then have "readable w' p (bytes_at w p @ json_line d)"
    using perm by (intro append_readable [OF run p]) (simp add: same_env_def)
  then show ?thesis using eff by (simp add: read_jsonl_present decodes_def)
qed

end

text \<open>The three journals of the store.\<close>

interpretation plan_journal: journal "validate_event E (Some pid) False 0 False"
    EVENT_HARD_LIMIT_BYTES PLAN_JOURNAL_MAX_BYTES PLAN_JOURNAL_MAX_RECORDS for E pid
  by unfold_locales
    (rule validate_event_accepts, (rule validate_event_wf, assumption)+, rule event_wf_json, rule validate_event_wf)

interpretation unplanned_journal: journal "validate_event E None True 0 False"
    UNPLANNED_EVENT_HARD_LIMIT_BYTES UNPLANNED_JOURNAL_MAX_BYTES UNPLANNED_JOURNAL_MAX_RECORDS for E
  by unfold_locales
    (rule validate_event_accepts, (rule validate_event_wf, assumption)+, rule event_wf_json, rule validate_event_wf)

interpretation ledger_journal: journal "validate_context_ledger_record E CONTEXT_LEDGER_HARD_LIMIT_BYTES"
    CONTEXT_LEDGER_HARD_LIMIT_BYTES CONTEXT_LEDGER_MAX_BYTES CONTEXT_LEDGER_MAX_RECORDS for E
  by unfold_locales
    (rule validate_ledger_accepts, rule validate_ledger_wf, assumption, rule ledger_wf_json, rule validate_ledger_wf)

section \<open>Entering a locked section\<close>

lemma locked_file_result:
  assumes "locked_file p body w = (Inr x, w')"
  shows "\<exists>w1. body w1 = (Inr x, w') \<and> (\<forall>q. q \<noteq> p \<longrightarrow> w_node w1 q = w_node w q)"
proof -
  obtain w0 m b w1 where op: "os_error_as StoreIOError (os_open_create p) w = (Inr (), w0)"
    and ch: "os_chmod p (private_mode m) w0 = (Inr (), w1)" and body: "body w1 = (Inr x, w')"
    using assms by (auto simp: locked_file_def fstat_private_def bind_Inr)
  have "quiet p w w0" using keepsD [OF quiet_os_error_as [OF quiet_open] op] .
  moreover have "quiet p w0 w1" using keepsD [OF quiet_chmod ch] .
  ultimately have "quiet p w w1" using transpD [OF quiet_trans] by blast
  with body show ?thesis by (auto simp: quiet_def)
qed

lemma only_dirs_file: "only_dirs p w w' \<Longrightarrow> bytes_at w' q = bytes_at w q"
proof -
  assume "only_dirs p w w'"
  then have "w_node w' q = w_node w q \<or> (\<exists>m. w_node w' q = Some (Dir m)) \<and> (w_node w q = None \<or> (\<exists>m. w_node w q = Some (Dir m)))"
    unfolding only_dirs_def by blast
  then show ?thesis by (auto simp: bytes_at_def)
qed

lemma layout_bytes: "ensure_store_layout (layout r) w = (x, w') \<Longrightarrow> bytes_at w' q = bytes_at w q"
  by (rule only_dirs_file, rule keepsD [OF ensure_store_layout_effect]) (simp_all add: layout_def)

lemma chain_bytes: "ensure_directory_chain m p w = (x, w') \<Longrightarrow> bytes_at w' q = bytes_at w q"
  by (rule only_dirs_file, rule keepsD [OF ensure_directory_chain_effect])

lemma locked_bytes:
  assumes "locked_file p body w = (Inr x, w')" "q \<noteq> p"
  shows "\<exists>w1. body w1 = (Inr x, w') \<and> bytes_at w1 q = bytes_at w q"
  using locked_file_result [OF assms(1)] assms(2) by (auto simp: bytes_at_def)

lemma now_or_bytes: "now_or now w = (x, w') \<Longrightarrow> w_node w' = w_node w"
  by (auto simp: now_or_def now_text_def split: if_splits)

lemma operation_id_bytes: "operation_id_or_new E op w = (x, w') \<Longrightarrow> w_node w' = w_node w"
  by (auto simp: operation_id_or_new_def random_hex_def bind_def split: if_splits prod.splits sum.splits)

section \<open>Loose commits\<close>

lemma build_unplanned_result:
  assumes "build_unplanned_event E P op summary refs codes ts sq prev prov = Inr ev"
  shows "event_wf E True 0 False ev" "validate_event E None True 0 False (PDict ev) = Inr ev"
    "dget ev ''sequence'' PNone = PInt sq" "dget ev ''previous_event_hash'' PNone = prev"
    "dget ev ''operation_id'' PNone = PStr op" "dget ev ''summary'' PNone = PStr summary"
proof -
  obtain fs h where v: "validate_event E None True 0 False
      (PDict (dset ''record_hash'' h (unplanned_event_base E fs op summary refs codes ts sq prev))) = Inr ev"
    using assms by (auto simp: build_unplanned_event_def resE Let_def)
  let ?b = "unplanned_event_base E fs op summary refs codes ts sq prev"
  show wf: "event_wf E True 0 False ev" by (rule validate_event_wf [OF v])
  show "validate_event E None True 0 False (PDict ev) = Inr ev" by (rule unplanned_journal.validate_again [OF v])
  note keep = validate_event_keep [OF v]
  have get: "dget ev k PNone = w"
    if "(k, d) \<in> set plain_event_fields" "k \<noteq> ''record_hash''" "dget ?b k d = w" for k d w
    using keep [OF that(1)] that(2,3) by (simp add: dget_dset)
  note fld = unplanned_event_base_def dget_mk_dict plain_event_fields_def
  show "dget ev ''sequence'' PNone = PInt sq" by (rule get [of _ "PInt 0"]; simp add: fld)
  show "dget ev ''previous_event_hash'' PNone = prev" by (rule get [of _ "PStr []"]; simp add: fld)
  show "dget ev ''operation_id'' PNone = PStr op" by (rule get [of _ PNone]; simp add: fld)
  show "dget ev ''summary'' PNone = PStr summary" by (rule get [of _ "PStr []"]; simp add: fld)
qed

lemma build_unplanned_extends:
  assumes "build_unplanned_event E P op summary refs codes ts (int (length events) + 1) (next_previous events) prov = Inr ev"
    and "chained E 1 (PStr []) events"
  shows "chained E 1 (PStr []) (events @ [ev])"
proof -
  note ev = build_unplanned_result [OF assms(1)]
  have "dget ev ''previous_event_hash'' (PStr []) = next_previous events"
    using ev(4) event_wf_get [OF ev(1), of "''previous_event_hash''" "PStr []" PNone] by (simp add: EVENT_KEYS_def)
  with ev(3) event_wf_hash [OF ev(1)] assms(2) show ?thesis
    unfolding chained_snoc by (simp add: next_previous_def record_hash_of_def)
qed

definition has_operation :: "string \<Rightarrow> pdict list \<Rightarrow> bool" where
  "has_operation op events = (\<exists>ev\<in>set events. dget ev ''operation_id'' PNone = PStr op)"

lemma operation_event_None: "operation_event_from_records events op = None \<longleftrightarrow> \<not> has_operation op events"
  by (simp add: operation_event_from_records_def first_match_None has_operation_def)

lemma operation_event_Some:
  "operation_event_from_records events op = Some ev \<Longrightarrow> ev \<in> set events \<and> dget ev ''operation_id'' PNone = PStr op"
  by (auto simp: operation_event_from_records_def dest: first_match_Some)

text \<open>The part of \<open>append_unplanned_commit\<close> that runs under the lock.\<close>

definition unplanned_step ::
    "env \<Rightarrow> store_paths \<Rightarrow> string \<Rightarrow> string \<Rightarrow> py list \<Rightarrow> py list \<Rightarrow> string \<Rightarrow> pdict option \<Rightarrow> store_result io" where
  "unplanned_step E P op summary refs codes ts prov =
     bind (reading (read_unplanned_jsonl E P)) (\<lambda>(events, partial).
     bind (guard partial IntegrityError) (\<lambda>_.
     bind (lift (validate_sequence_and_hashes E events)) (\<lambda>_.
     case operation_event_from_records events op of
       Some existing \<Rightarrow>
         bind (lift (build_unplanned_event E P op summary refs codes ts
                 (int_of_py (dget existing ''sequence'' PNone)) (dget existing ''previous_event_hash'' PNone) prov)) (\<lambda>candidate.
         bind (lift (assert_same_operation existing None PNone (Some candidate))) (\<lambda>_.
         ret ((store_result_base False op)\<lparr>sr_event_id := str_of (dget existing ''event_id'' PNone),
           sr_reason := ''idempotent retry''\<rparr>)))
     | None \<Rightarrow>
         bind (lift (build_unplanned_event E P op summary refs codes ts (int (length events) + 1) (next_previous events) prov)) (\<lambda>ev.
         bind (append_jsonl (unplanned_events P) ev UNPLANNED_EVENT_HARD_LIMIT_BYTES
                (Some UNPLANNED_JOURNAL_MAX_BYTES) (Some UNPLANNED_JOURNAL_MAX_RECORDS) (Some (length events))) (\<lambda>md.
         ret ((store_result_base True op)\<lparr>sr_event_id := str_of (dget ev ''event_id'' PNone),
           sr_metadata := md\<rparr>))))))"

lemma append_unplanned_split:
  "append_unplanned_commit E P op0 summary refs codes now prov =
     bind (operation_id_or_new E op0) (\<lambda>op. bind (now_or now) (\<lambda>ts.
     bind (lift (build_unplanned_event E P op summary refs codes ts 1 (PStr []) prov)) (\<lambda>_.
     bind (ensure_store_layout P) (\<lambda>_.
     locked_file (manifest_lock P) (unplanned_step E P op summary refs codes ts prov)))))"
  unfolding append_unplanned_commit_def unplanned_step_def next_previous_def ..

lemma append_unplanned_effect:
  assumes run: "append_unplanned_commit E (layout r) op0 summary refs codes now prov w = (Inr res, w')"
  defines "u \<equiv> unplanned_events (layout r)"
  shows "\<exists>events. decodes (validate_event E None True 0 False) UNPLANNED_JOURNAL_MAX_RECORDS (bytes_at w u) events
    \<and> chained E 1 (PStr []) events
    \<and> (if sr_changed res
        then \<not> has_operation (sr_operation_id res) events
          \<and> (\<exists>ev. dget ev ''operation_id'' PNone = PStr (sr_operation_id res) \<and> dget ev ''summary'' PNone = PStr summary
               \<and> bytes_at w' u = bytes_at w u @ json_line ev \<and> chained E 1 (PStr []) (events @ [ev])
               \<and> decodes (validate_event E None True 0 False) UNPLANNED_JOURNAL_MAX_RECORDS (bytes_at w' u) (events @ [ev]))
        else has_operation (sr_operation_id res) events \<and> bytes_at w' u = bytes_at w u)"
proof -
  have u: "u \<noteq> []" "u \<noteq> manifest_lock (layout r)" by (simp_all add: u_def)
  obtain op w1 ts w2 w3 where o: "operation_id_or_new E op0 w = (Inr op, w1)"
    and n: "now_or now w1 = (Inr ts, w2)" and lay: "ensure_store_layout (layout r) w2 = (Inr (), w3)"
    and lk: "locked_file (manifest_lock (layout r)) (unplanned_step E (layout r) op summary refs codes ts prov) w3 = (Inr res, w')"
    using run unfolding append_unplanned_split by (auto simp: bind_Inr simp del: layout_simps)
  have b3: "bytes_at w3 u = bytes_at w u"
    using layout_bytes [OF lay, of u] now_or_bytes [OF n] operation_id_bytes [OF o] by (simp add: bytes_at_def)
  obtain w4 where body: "unplanned_step E (layout r) op summary refs codes ts prov w4 = (Inr res, w')"
    and b4: "bytes_at w4 u = bytes_at w u"
    using locked_bytes [OF lk u(2)] b3 by auto
  obtain events where rd: "read_unplanned_jsonl E (layout r) w4 = Inr (events, False)"
    and ch: "validate_sequence_and_hashes E events = Inr ()"
    using body by (auto simp: unplanned_step_def bind_Inr guardE_eq_Inr)
  have dec: "decodes (validate_event E None True 0 False) UNPLANNED_JOURNAL_MAX_RECORDS (bytes_at w4 u) events"
    using read_jsonl_cases [OF rd [unfolded read_unplanned_jsonl_def, folded u_def] u(1)] by (simp add: decodes_def)
  note chain = ch [unfolded validate_sequence_and_hashes_iff]
  show ?thesis
  proof (cases "operation_event_from_records events op")
    case None
    with body rd ch obtain ev md where ev: "build_unplanned_event E (layout r) op summary refs codes ts
        (int (length events) + 1) (next_previous events) prov = Inr ev"
      and ap: "append_jsonl u ev UNPLANNED_EVENT_HARD_LIMIT_BYTES
          (Some UNPLANNED_JOURNAL_MAX_BYTES) (Some UNPLANNED_JOURNAL_MAX_RECORDS) (Some (length events)) w4 = (Inr md, w')"
      and res: "sr_changed res" "sr_operation_id res = op"
      by (auto simp: unplanned_step_def bind_Inr store_result_base_def u_def simp del: layout_simps)
    note e = build_unplanned_result [OF ev]
    note a = unplanned_journal.append_effect [OF ap u(1) dec e(2)]
    have "\<not> has_operation (sr_operation_id res) events" using None res by (simp add: operation_event_None)
    moreover have "dget ev ''operation_id'' PNone = PStr (sr_operation_id res)" using e res by simp
    ultimately show ?thesis
      using dec chain res(1) e(6) a(1,2) build_unplanned_extends [OF ev chain] unfolding b4
      by (intro exI [of _ events]) auto
  next
    case (Some ex)
    with body rd ch have "\<not> sr_changed res" "sr_operation_id res = op" "w' = w4"
      by (auto simp: unplanned_step_def bind_Inr store_result_base_def)
    with dec chain operation_event_Some [OF Some] b4 show ?thesis
      by (intro exI [of _ events]) (auto simp: has_operation_def)
  qed
qed

section \<open>Context emissions\<close>

definition emitted :: "env \<Rightarrow> py list \<Rightarrow> pdict list \<Rightarrow> bool" where
  "emitted E key records = (\<exists>r\<in>set records. ledger_key E r = Inr key)"

lemma ledger_hit_True: "ledger_hit E key rs = Inr True \<Longrightarrow> emitted E key rs"
  by (induction rs) (auto simp: resE emitted_def split: if_splits)

lemma ledger_hit_False: "ledger_hit E key rs = Inr False \<Longrightarrow> \<not> emitted E key rs"
  by (induction rs) (auto simp: resE emitted_def split: if_splits)

lemma ledger_hit_iff: "ledger_hit E key rs = Inr b \<Longrightarrow> b = emitted E key rs"
  using ledger_hit_True ledger_hit_False by (cases b) auto

text \<open>The part of \<open>claim_context_emission\<close> that runs under the lock.\<close>

definition emission_step :: "env \<Rightarrow> store_paths \<Rightarrow> pdict \<Rightarrow> py list \<Rightarrow> emission_result io" where
  "emission_step E P normalized key =
     bind (reading (read_ledger_jsonl E P)) (\<lambda>records.
     bind (lift (ledger_hit E key records)) (\<lambda>hit.
     if hit then ret ledger_hit_result
     else
       bind (append_jsonl (context_ledger P) normalized CONTEXT_LEDGER_HARD_LIMIT_BYTES
              (Some CONTEXT_LEDGER_MAX_BYTES) (Some CONTEXT_LEDGER_MAX_RECORDS) (Some (length records))) (\<lambda>md.
       ret \<lparr>er_emitted = True, er_metadata = md, er_reason = ''emitted''\<rparr>)))"

lemma claim_emission_split:
  "claim_context_emission E P record0 =
     bind (lift (validate_context_ledger_record E CONTEXT_LEDGER_HARD_LIMIT_BYTES record0)) (\<lambda>normalized.
     bind (lift (ledger_key E normalized)) (\<lambda>key.
     bind (reading (\<lambda>w. if path_exists w (context_ledger P)
             then bindE (read_context_ledger E P w) (\<lambda>records. ledger_hit E key records) else Inr False)) (\<lambda>hit.
     if hit then ret ledger_hit_result
     else bind (ensure_store_layout P) (\<lambda>_. locked_file (context_ledger_lock P) (emission_step E P normalized key)))))"
  unfolding claim_context_emission_def emission_step_def ..

definition ledger_decodes :: "env \<Rightarrow> string \<Rightarrow> pdict list \<Rightarrow> bool" where
  "ledger_decodes E b rs = decodes (validate_context_ledger_record E CONTEXT_LEDGER_HARD_LIMIT_BYTES) CONTEXT_LEDGER_MAX_RECORDS b rs"

lemma read_ledger_decodes:
  assumes "read_ledger_jsonl E (layout r) w = Inr rs"
  shows "ledger_decodes E (bytes_at w (context_ledger (layout r))) rs"
proof -
  obtain partial where "read_jsonl w (validate_context_ledger_record E CONTEXT_LEDGER_HARD_LIMIT_BYTES)
      CONTEXT_LEDGER_MAX_BYTES CONTEXT_LEDGER_MAX_RECORDS (context_ledger (layout r)) = Inr (rs, partial)" "\<not> partial"
    using assms by (auto simp: read_ledger_jsonl_def resE simp del: layout_simps)
  from read_jsonl_cases [OF this(1) layout_not_journal(5)] this(2) show ?thesis
    by (simp add: ledger_decodes_def decodes_def)
qed

lemma claim_emission_effect:
  assumes run: "claim_context_emission E (layout r) record0 w = (Inr res, w')"
  defines "l \<equiv> context_ledger (layout r)"
  shows "\<exists>n key records. validate_context_ledger_record E CONTEXT_LEDGER_HARD_LIMIT_BYTES record0 = Inr n
    \<and> ledger_key E n = Inr key \<and> ledger_decodes E (bytes_at w l) records
    \<and> (if er_emitted res
        then \<not> emitted E key records \<and> bytes_at w' l = bytes_at w l @ json_line n
          \<and> ledger_decodes E (bytes_at w' l) (records @ [n])
        else emitted E key records \<and> bytes_at w' l = bytes_at w l)"
proof -
  have l: "l \<noteq> []" "l \<noteq> context_ledger_lock (layout r)" by (simp_all add: l_def)
  obtain n key hit where n: "validate_context_ledger_record E CONTEXT_LEDGER_HARD_LIMIT_BYTES record0 = Inr n"
    and key: "ledger_key E n = Inr key"
    and hit: "(if path_exists w l then bindE (read_context_ledger E (layout r) w) (\<lambda>rs. ledger_hit E key rs) else Inr False) = Inr hit"
    and rest: "(if hit then ret ledger_hit_result
      else bind (ensure_store_layout (layout r)) (\<lambda>_. locked_file (context_ledger_lock (layout r))
        (emission_step E (layout r) n key))) w = (Inr res, w')"
    using run unfolding claim_emission_split l_def by (auto simp: bind_Inr simp del: layout_simps)
  show ?thesis
  proof (cases hit)
    case True
    then obtain rs where rs: "read_context_ledger E (layout r) w = Inr rs" "ledger_hit E key rs = Inr True"
      using hit by (auto simp: resE split: if_splits)
    then have "read_ledger_jsonl E (layout r) w = Inr rs" by (auto simp: read_context_ledger_def resE)
    from read_ledger_decodes [OF this] n key ledger_hit_True [OF rs(2)] rest True show ?thesis
      by (auto simp: l_def ledger_hit_result_def)
  next
    case False
    then obtain w1 where lay: "ensure_store_layout (layout r) w = (Inr (), w1)"
      and lk: "locked_file (context_ledger_lock (layout r)) (emission_step E (layout r) n key) w1 = (Inr res, w')"
      using rest by (auto simp: bind_Inr simp del: layout_simps)
    obtain w2 where body: "emission_step E (layout r) n key w2 = (Inr res, w')" and b2: "bytes_at w2 l = bytes_at w l"
      using locked_bytes [OF lk l(2)] layout_bytes [OF lay] by auto
    obtain rs b where rd: "read_ledger_jsonl E (layout r) w2 = Inr rs" and b: "ledger_hit E key rs = Inr b"
      using body by (auto simp: emission_step_def bind_Inr)
    note dec = read_ledger_decodes [OF rd, folded l_def]
    show ?thesis
    proof (cases b)
      case True
      with body rd b have "res = ledger_hit_result" "w' = w2" by (auto simp: emission_step_def bind_Inr)
      with n key dec b2 ledger_hit_iff [OF b] True show ?thesis by (auto simp: ledger_hit_result_def)
    next
      case nohit: False
      with body rd b obtain md where ap: "append_jsonl l n CONTEXT_LEDGER_HARD_LIMIT_BYTES
          (Some CONTEXT_LEDGER_MAX_BYTES) (Some CONTEXT_LEDGER_MAX_RECORDS) (Some (length rs)) w2 = (Inr md, w')"
        and res: "er_emitted res"
        by (auto simp: emission_step_def bind_Inr l_def simp del: layout_simps)
      note a = ledger_journal.append_effect [OF ap l(1) dec [unfolded ledger_decodes_def] n]
      show ?thesis
        using n key res dec a(1,2) ledger_hit_iff [OF b] nohit unfolding b2
        by (intro exI [of _ n] exI [of _ key] exI [of _ rs]) (auto simp: ledger_decodes_def)
    qed
  qed
qed

end
