(* ===== verification/StoreRecord.thy ===== *)
theory StoreRecord
  imports StoreEffects
begin

text \<open>
  What \<open>record_event\<close> and \<open>replay_plan\<close> of \<open>ImplementationStore\<close> leave on disk when
  they return: one more record in a journal that still checks, and a snapshot
  that stands at the end of that journal.
\<close>

section \<open>Files that stay\<close>

definition holds :: "path \<Rightarrow> world \<Rightarrow> world \<Rightarrow> bool" where
  "holds q w w' = (bytes_at w' q = bytes_at w q)"

definition store_file :: "path \<Rightarrow> bool" where
  "store_file q = (name_of q \<in> {''events.jsonl'', ''state.json''})"

named_theorems holding \<open>operations that leave a store file alone\<close>

lemma holds_refl: "reflp (holds q)"
  by (simp add: reflp_def holds_def)

lemma holds_trans: "transp (holds q)"
  by (rule transpI) (auto simp: holds_def)

lemma holds_pure [holding]:
  "keeps (holds q) (ret x)" "keeps (holds q) (raise e)" "keeps (holds q) (reading f)"
  "keeps (holds q) (lift r)" "keeps (holds q) (guard c e)"
  by (rule keeps_pure, rule holds_refl)+

lemmas holds_bind = keeps_bind [OF holds_trans]
lemmas holds_compose = holds_bind frame_case_prod frame_if keeps_handle [OF holds_trans] keeps_option keeps_sum

lemma holds_frame:
  assumes "keeps (frame S) m" "store_file q" "q \<notin> S"
  shows "keeps (holds q) m"
  using assms(1)
proof (rule keeps_mono)
  have "\<not> is_temp q" using assms(2) by (auto simp: store_file_def is_temp_def)
  then show "frame S w w' \<Longrightarrow> holds q w w'" for w w' using assms(3) by (auto simp: frame_def holds_def bytes_at_def)
qed

lemma holds_only_dirs: "keeps (only_dirs p) m \<Longrightarrow> keeps (holds q) m"
  by (erule keeps_mono) (simp add: holds_def only_dirs_file)

lemma holds_dirs [holding]: "keeps (holds q) (ensure_directory_chain m p)"
  by (rule holds_only_dirs, rule ensure_directory_chain_effect)

lemma holds_random [holding]: "keeps (holds q) random_hex" "keeps (holds q) now_text"
  by (rule keeps_eval, simp add: random_hex_def now_text_def holds_def bytes_at_def)+

lemma holds_inputs [holding]: "keeps (holds q) (now_or now)" "keeps (holds q) (operation_id_or_new E op)"
  unfolding now_or_def operation_id_or_new_def by (intro holds_compose holding)+

lemma holds_layout [holding]: "keeps (holds q) (ensure_store_layout (layout r))"
  by (rule holds_only_dirs, rule ensure_store_layout_effect) (simp add: layout_def)

lemma holds_locked [holding]:
  assumes "store_file q" "q \<noteq> p" "keeps (holds q) body"
  shows "keeps (holds q) (locked_file p body)"
proof -
  have op: "keeps (holds q) (os_error_as StoreIOError (os_open_create p))" "keeps (holds q) (os_chmod p m)" for m
    using assms(1,2) by (auto intro!: holds_frame [of "{p}"] framed)
  show ?thesis
    unfolding locked_file_def fstat_private_def
    by (intro holds_bind frame_case_prod op assms(3) holding)
qed

lemma holds_publish [holding]: "store_file q \<Longrightarrow> q \<noteq> p \<Longrightarrow> keeps (holds q) (publish_json p d hl)"
  by (rule holds_frame [of "{p}"]) (auto intro: framed)

lemma candidate_not_store_file: "\<not> store_file (d @ [candidate_name n h c])"
proof
  let ?c = "candidate_name n h c"
  assume "store_file (d @ [?c])"
  then have n: "?c \<in> {''events.jsonl'', ''state.json''}" by (simp add: store_file_def name_of_def)
  obtain a b where "split_suffix n = (a, b)" by fastforce
  then have "?c = a @ ''.invalid.'' @ h @ (if c = 0 then [] else CHR ''.'' # nat_str c) @ b"
    by (simp add: candidate_name_def)
  then have "CHR ''i'' \<in> set ?c" by simp
  with n show False by auto
qed

lemma holds_quarantine [holding]:
  assumes "store_file q" "q \<noteq> p"
  shows "keeps (holds q) (quarantine_file E p)"
  unfolding quarantine_file_def
  apply (rule holds_bind, rule holding, rule frame_case_prod)
  apply (rule holds_bind, rule holding)
proof (rule bind_val [OF holds_trans], rule holding)
  fix raw mode and w :: world and c w'
  assume "reading (\<lambda>w. case free_candidate w p (take 16 (env_sha E raw)) 0 of None \<Rightarrow> Inl Killed | Some c \<Rightarrow> Inr c) w = (Inr c, w')"
  then have "\<not> store_file c"
    using free_candidate_name candidate_not_store_file by (auto split: option.splits) blast
  with assms have "q \<noteq> c" by auto
  with assms have "keeps (holds q) (os_error_as StoreIOError (bind (os_replace p c) (\<lambda>_.
      bind (os_chmod c (private_mode mode)) (\<lambda>_. fsync_directory (parent p)))))"
    by (intro holds_frame [of "{p, c}"] framed frame_bind) auto
  then show "keeps (holds q) (bind (reading (\<lambda>w. reject_symlink_components w True c)) (\<lambda>_.
     bind (os_error_as StoreIOError (bind (os_replace p c) (\<lambda>_. bind (os_chmod c (private_mode mode)) (\<lambda>_.
        fsync_directory (parent p))))) (\<lambda>_. ret c)))"
    by (intro holds_bind holding)
qed

lemma store_file_neq [holding]:
  "store_file q \<Longrightarrow> q \<noteq> manifest (layout r)" "store_file q \<Longrightarrow> q \<noteq> manifest_lock (layout r)"
  by (auto simp: store_file_def name_of_def)

lemma holds_pointer [holding]:
  assumes "store_file q"
  shows "keeps (holds q) (publish_manifest_pointer_locked E (layout r) st force m)"
    "keeps (holds q) (publish_manifest_pointer E (layout r) st force)"
proof -
  have m: "keeps (holds q) (read_manifest_locked E (layout r))"
    unfolding read_manifest_locked_def by (intro holds_compose holding assms)
  show l: "keeps (holds q) (publish_manifest_pointer_locked E (layout r) st force m)" for m
    unfolding publish_manifest_pointer_locked_def by (intro holds_compose holding m assms)
  show "keeps (holds q) (publish_manifest_pointer E (layout r) st force)"
    unfolding publish_manifest_pointer_def by (intro holds_compose holding l assms)
qed

lemma holdsD: "keeps (holds q) m \<Longrightarrow> m w = (x, w') \<Longrightarrow> bytes_at w' q = bytes_at w q"
  by (drule keepsD) (auto simp: holds_def)

section \<open>Loading the current state\<close>

definition plan_files :: "plan_paths \<Rightarrow> bool" where
  "plan_files plan = (store_file (pp_events plan) \<and> store_file (pp_state plan) \<and> pp_events plan \<noteq> pp_state plan
     \<and> pp_events plan \<noteq> pp_state_lock plan \<and> pp_state plan \<noteq> pp_state_lock plan
     \<and> pp_events plan \<noteq> [] \<and> pp_state plan \<noteq> [] \<and> \<not> is_temp (pp_state plan))"

lemma for_plan_files: "for_plan w P pid = Inr plan \<Longrightarrow> plan_files plan"
  by (auto simp: for_plan_def resE Let_def plan_files_def store_file_def name_of_def is_temp_def)

lemma plan_filesD [holding]:
  "plan_files plan \<Longrightarrow> store_file (pp_events plan)" "plan_files plan \<Longrightarrow> store_file (pp_state plan)"
  "plan_files plan \<Longrightarrow> pp_events plan \<noteq> pp_state plan" "plan_files plan \<Longrightarrow> pp_events plan \<noteq> pp_state_lock plan"
  "plan_files plan \<Longrightarrow> pp_state plan \<noteq> pp_state_lock plan" "plan_files plan \<Longrightarrow> pp_events plan \<noteq> []"
  by (auto simp: plan_files_def)

definition journal_decodes :: "env \<Rightarrow> plan_paths \<Rightarrow> string \<Rightarrow> pdict list \<Rightarrow> bool" where
  "journal_decodes E plan b evs =
     decodes (validate_event E (Some (pp_plan_id plan)) False 0 False) PLAN_JOURNAL_MAX_RECORDS b evs"

lemma decodes_valid:
  assumes "jsonl_loop v mx acc ls = Inr (recs, False)" "d \<in> set recs"
  shows "d \<in> set acc \<or> (\<exists>x. v x = Inr d)"
  using assms
proof (induction v mx acc ls rule: jsonl_loop.induct)
  case (2 v mx records line lines)
  then obtain e where e: "decode_record (\<lambda>v'. if mx \<le> length records then Inl CorruptRecordError else v v') line = Inr e"
    and l: "jsonl_loop v mx (records @ [e]) lines = Inr (recs, False)" "ends_with line [CHR 0x0A]" "\<not> blank_bytes line"
    by (auto split: if_splits sum.splits)
  from e have "\<exists>x. v x = Inr e" by (auto simp: decode_record_def resE split: option.splits if_splits)
  with "2.IH" [OF _ l(3) e l(1)] l(2) "2.prems"(2) show ?case by auto
qed simp

lemma read_plan_events_result:
  assumes "read_plan_events E P plan rp w = Inr evs" "plan_files plan" "rp"
  shows "journal_decodes E plan (bytes_at w (pp_events plan)) evs" "checked_journal E evs"
    "\<forall>ev\<in>set evs. event_wf E False 0 False ev"
proof -
  obtain partial where rd: "read_jsonl w (validate_event E (Some (pp_plan_id plan)) False 0 False)
        PLAN_JOURNAL_MAX_BYTES PLAN_JOURNAL_MAX_RECORDS (pp_events plan) = Inr (evs, partial)"
    and p: "\<not> (rp \<and> partial)" and ch: "validate_sequence_and_hashes E evs = Inr ()"
    using assms(1) by (auto simp: read_plan_events_def resE split: sum.splits if_splits)
  note c = read_jsonl_cases [OF rd plan_filesD(6) [OF assms(2)]]
  with p assms(3) show d: "journal_decodes E plan (bytes_at w (pp_events plan)) evs"
    by (simp add: journal_decodes_def decodes_def)
  show wf: "\<forall>ev\<in>set evs. event_wf E False 0 False ev"
  proof
    fix ev assume "ev \<in> set evs"
    with decodes_valid [OF d [unfolded journal_decodes_def decodes_def]] obtain x where
      "validate_event E (Some (pp_plan_id plan)) False 0 False x = Inr ev" by auto
    then show "event_wf E False 0 False ev" by (rule validate_event_wf)
  qed
  with ch show "checked_journal E evs"
    by (auto simp: checked_journal_def validate_sequence_and_hashes_iff intro: event_wf_good)
qed

lemma holds_load_state [holding]:
  assumes "plan_files plan"
  shows "keeps (holds (pp_events plan)) (load_state_for_write E plan)"
  unfolding load_state_for_write_def
  by (intro holds_compose holding assms)

lemma read_state_file_wf: "read_state_file E plan w = Inr (Some st) \<Longrightarrow> pp_state plan \<noteq> [] \<Longrightarrow>
    state_wf E STATE_HARD_LIMIT_BYTES st"
proof -
  assume "read_state_file E plan w = Inr (Some st)" "pp_state plan \<noteq> []"
  from read_json_cases [OF this(1) [unfolded read_state_file_def] this(2)] obtain b where
    "decode_record (validate_state E (Some (pp_plan_id plan)) STATE_HARD_LIMIT_BYTES) b = Inr st" by auto
  then obtain x where "validate_state E (Some (pp_plan_id plan)) STATE_HARD_LIMIT_BYTES x = Inr st"
    by (auto simp: decode_record_def resE split: option.splits)
  then show ?thesis by (rule validate_state_wf)
qed

lemma load_state_wf:
  assumes "load_state_for_write E plan w = (Inr (Some st), w')" "plan_files plan"
  shows "state_wf E STATE_HARD_LIMIT_BYTES st \<and> w' = w"
  using assms read_state_file_wf [of E plan w st]
  by (auto simp: load_state_for_write_def handle_def bind_Inr plan_files_def split: sum.splits if_splits)

lemma new_state_generation:
  assumes "new_state E pid p ts fs = Inr st" "''generation'' \<notin> keys fs"
  shows "generation st = 0"
proof -
  have v: "validate_state E (Some pid) STATE_HARD_LIMIT_BYTES (PDict (dupdate (new_state_base pid p ts) fs)) = Inr st"
    using assms(1) by (simp add: new_state_def)
  have "dget st ''generation'' PNone = PInt 0"
    using validate_state_keep [OF v, of "''generation''" "PInt 0"] assms(2)
    by (simp add: plain_state_fields_def dget_dupdate_notin new_state_base_def dget_mk_dict)
  then show ?thesis using state_wf_cursor(3) [OF validate_state_wf(1) [OF v], of PNone] by simp
qed

lemma reconstruct_state_result:
  assumes run: "reconstruct_state E pid evs ts = Inr st" and j: "checked_journal E evs"
  shows "state_wf E STATE_HARD_LIMIT_BYTES st \<and> at_end st evs \<and> evs \<noteq> [] \<and> generation st = int (length evs)"
proof -
  obtain st0 t fs p where n: "new_state E pid p ts fs = Inr st0" "''generation'' \<notin> keys fs" and ne: "evs \<noteq> []"
    and ap: "apply_events E ts st0 (drop 0 evs) = Inr t"
    and v: "validate_state E (Some pid) STATE_HARD_LIMIT_BYTES (PDict t) = Inr st"
    using run by (auto simp: reconstruct_state_def resE split: list.splits)
  have chain: "chained E 1 (PStr []) evs" and good: "\<forall>ev\<in>set evs. good_event ev"
    using j by (auto simp: checked_journal_def)
  have "0 < length evs" using ne by simp
  note e = apply_events_end [OF ap chain good this]
  show ?thesis
    using validate_state_wf(1) [OF v] revalidated [OF v e(3)] e(1,2) new_state_generation [OF n] ne by simp
qed

text \<open>What every locked operation starts from.\<close>

definition at_journal :: "env \<Rightarrow> pdict \<Rightarrow> pdict list \<Rightarrow> bool" where
  "at_journal E st evs = (state_wf E STATE_HARD_LIMIT_BYTES st \<and> at_end st evs)"

lemma load_current_result:
  assumes run: "load_current E P plan ts w = (Inr (evs, cur), w')" and pf: "plan_files plan"
  shows "journal_decodes E plan (bytes_at w (pp_events plan)) evs" "checked_journal E evs"
    "bytes_at w' (pp_events plan) = bytes_at w (pp_events plan)"
    "\<forall>st need. cur = Some (st, need) \<longrightarrow> at_journal E st evs" "cur = None \<longrightarrow> evs = []"
proof -
  obtain c w1 where ld: "load_state_for_write E plan w = (Inr c, w1)"
    and rest0: "bind (reading (read_plan_events E P plan True)) (\<lambda>events. case c of
       None \<Rightarrow> if events = [] then ret (events, None)
         else bind (lift (reconstruct_state E (pp_plan_id plan) events ts)) (\<lambda>st. ret (events, Some (st, True)))
     | Some state \<Rightarrow> bind (lift (validate_ownership E P state)) (\<lambda>_.
         bind (lift (reconcile_state E state events ts)) (\<lambda>(st, recovery_needed).
         ret (events, Some (st, recovery_needed))))) w1 = (Inr (evs, cur), w')"
    using run unfolding load_current_def bind_Inr by blast
  have rd: "read_plan_events E P plan True w1 = Inr evs" and w1: "w1 = w'"
    and rest: "case c of None \<Rightarrow> if evs = [] then cur = None
        else \<exists>st. reconstruct_state E (pp_plan_id plan) evs ts = Inr st \<and> cur = Some (st, True)
      | Some s \<Rightarrow> \<exists>st need. reconcile_state E s evs ts = Inr (st, need) \<and> cur = Some (st, need)"
    using rest0 by (cases c; auto simp: bind_Inr split: if_splits)+
  note ld = ld [unfolded w1] and rd = rd [unfolded w1]
  show b: "bytes_at w' (pp_events plan) = bytes_at w (pp_events plan)" by (rule holdsD [OF holds_load_state [OF pf] ld])
  note r = read_plan_events_result [OF rd pf TrueI]
  show "journal_decodes E plan (bytes_at w (pp_events plan)) evs" "checked_journal E evs" using r b by auto
  show "cur = None \<longrightarrow> evs = []" using rest by (auto split: option.splits if_splits)
  show "\<forall>st need. cur = Some (st, need) \<longrightarrow> at_journal E st evs"
  proof (cases c)
    case None
    with rest reconstruct_state_result [OF _ r(2)] show ?thesis by (auto simp: at_journal_def split: if_splits)
  next
    case (Some s)
    with load_state_wf [OF ld [unfolded Some] pf] rest reconcile_state_result(1,2) [OF _ _ r(2)] show ?thesis
      by (auto simp: at_journal_def)
  qed
qed

section \<open>Recording an event\<close>

type_synonym step_outcome = "pdict \<times> pdict \<times> write_metadata \<times> pdict option \<times> write_metadata"

text \<open>The part of \<open>record_event\<close> that runs under the lock of the plan.\<close>

definition record_step ::
    "env \<Rightarrow> store_paths \<Rightarrow> plan_paths \<Rightarrow> string \<Rightarrow> string \<Rightarrow> string \<Rightarrow> string \<Rightarrow> string \<Rightarrow> py list \<Rightarrow> py list \<Rightarrow> py
     \<Rightarrow> pdict option \<Rightarrow> string \<Rightarrow> (store_result + step_outcome) io" where
  "record_step E P plan kind operation summary reason next_action references evidence_codes updates fs timestamp =
     bind (load_current E P plan timestamp) (\<lambda>(events, current).
         case current of
           None \<Rightarrow> raise StoreError
         | Some (state, recovery_needed) \<Rightarrow>
           bind (lift (candidate_state E P (pp_plan_id plan) state updates kind summary next_action fs)) (\<lambda>candidate.
           let existing = operation_event_from_records events operation;
               payload = record_operation_payload kind summary reason next_action references evidence_codes
                           (dict_of updates) (case fs of None \<Rightarrow> [] | Some f \<Rightarrow> f);
               event_at = (\<lambda>sequence previous. build_event E (pp_plan_id plan) candidate operation kind summary reason
                 next_action references evidence_codes timestamp sequence previous
                 (material_state_patch state candidate False) payload) in
           bind (lift (event_at (PInt 1) (PStr []))) (\<lambda>_.
           case existing of
             Some ex \<Rightarrow>
               bind (lift (event_at (dget ex ''sequence'' PNone) (dget ex ''previous_event_hash'' PNone))) (\<lambda>cand_ev.
               bind (lift (assert_same_operation ex None PNone (Some cand_ev))) (\<lambda>_.
               bind (publish_if recovery_needed plan state) (\<lambda>md.
               ret (Inl ((store_result_base False operation)\<lparr>sr_event_id := str_of (dget ex ''event_id'' PNone),
                 sr_metadata := md, sr_reason := ''idempotent retry'', sr_state := Some state\<rparr>)))))
           | None \<Rightarrow>
               if state_semantic_hash E candidate = state_semantic_hash E state then
                 bind (publish_if recovery_needed plan state) (\<lambda>md.
                 ret (Inl ((store_result_base False operation)\<lparr>sr_metadata := md,
                   sr_reason := ''semantic state unchanged'', sr_state := Some state\<rparr>)))
               else
                 bind (lift (event_at (PInt (int (length events) + 1)) (next_previous events))) (\<lambda>ev.
                 bind (append_event plan ev (length events)) (\<lambda>md1.
                 bind (lift (state_after_event E candidate ev timestamp)) (\<lambda>next_state.
                 bind (publish_json (pp_state plan) next_state (8 * 1024)) (\<lambda>md2.
                 if dget next_state ''status'' PNone \<noteq> dget state ''status'' PNone then
                   bind (publish_manifest_pointer E P next_state False) (\<lambda>(m, md3).
                   ret (Inr (ev, next_state, wm_plus md1 md2, Some m, md3)))
                 else ret (Inr (ev, next_state, wm_plus md1 md2, None, no_write)))))))))"

lemma record_event_split:
  "record_event E P plan_id kind operation_id summary reason next_action references evidence_codes
     state_update now provenance =
     (let updates = py_or state_update (PDict []) in
     bind (reading (\<lambda>w. for_plan w P plan_id)) (\<lambda>plan.
     bind (guard (kind \<notin> set MATERIAL_EVENT_KINDS \<or> kind = ''loose_commit_recorded'') SchemaError) (\<lambda>_.
     bind (operation_id_or_new E operation_id) (\<lambda>operation.
     bind (now_or now) (\<lambda>timestamp.
     bind (lift (case provenance of None \<Rightarrow> Inr None
                 | Some _ \<Rightarrow> bindE (provenance_for_store E P provenance) (\<lambda>f. Inr (Some f)))) (\<lambda>fs.
     bind (preview_state_for E P plan_id plan) (\<lambda>preview.
     case preview of
       None \<Rightarrow> raise StoreError
     | Some preview_state \<Rightarrow>
       bind (lift (preview_ownership E P (pp_plan_id plan) preview_state updates kind summary next_action fs)) (\<lambda>_.
       bind (ensure_store_layout P) (\<lambda>_.
       bind (ensure_directory_chain 448 (pp_root plan)) (\<lambda>_.
       bind (locked_file (pp_state_lock plan)
         (record_step E P plan kind operation summary reason next_action references evidence_codes updates fs timestamp)) (\<lambda>outcome.
       case outcome of
         Inl r \<Rightarrow> ret r
       | Inr (ev, next_state, md, m, md3) \<Rightarrow>
         bind (case m of Some x \<Rightarrow> ret (Some x) | None \<Rightarrow> reading (read_manifest E P)) (\<lambda>mf.
         ret ((store_result_base True operation)\<lparr>sr_event_id := str_of (dget ev ''event_id'' PNone),
           sr_metadata := wm_plus md md3, sr_state := Some next_state, sr_manifest := mf\<rparr>)))))))))))))"
  unfolding record_event_def record_step_def next_previous_def ..

lemma build_event_valid:
  "build_event E plan st op kind summary reason next refs codes ts sq prev patch payload = Inr ev
     \<Longrightarrow> \<exists>x. validate_event E (Some plan) False 0 False x = Inr ev"
  by (auto simp: build_event_def resE Let_def split: if_splits)

lemma provenance_keys: "provenance_for_store E P pv = Inr f \<Longrightarrow> ''generation'' \<notin> keys f"
  unfolding provenance_for_store_def provenance_fields_def Let_def bindE_eq_Inr sum.inject
  by (elim exE conjE, hypsubst) (simp only: keys_dset keys_mk_dict, simp)

lemma candidate_generation:
  assumes "candidate_state E P pid st upd kind summary next fs = Inr c" "state_wf E hl st"
    and "\<forall>f. fs = Some f \<longrightarrow> ''generation'' \<notin> keys f"
  shows "state_wf E STATE_HARD_LIMIT_BYTES c" "generation c = generation st"
proof -
  obtain d where d: "apply_update st upd kind summary next = Inr d"
    and v: "validate_state E (Some pid) STATE_HARD_LIMIT_BYTES (PDict (with_provenance fs d)) = Inr c"
    using assms(1) by (auto simp: candidate_state_def resE)
  show wf: "state_wf E STATE_HARD_LIMIT_BYTES c" by (rule validate_state_wf [OF v])
  have "dget c ''generation'' PNone = dget (with_provenance fs d) ''generation'' (PInt 0)"
    by (rule validate_state_keep [OF v]) (simp add: plain_state_fields_def)
  also have "\<dots> = dget d ''generation'' (PInt 0)"
    using assms(3) by (auto simp: with_provenance_def dget_dupdate_notin split: option.splits)
  also have "\<dots> = dget st ''generation'' (PInt 0)"
    by (rule apply_update_derived(2) [OF d]) (simp_all add: DERIVED_KEYS_def)
  finally show "generation c = generation st"
    using state_wf_cursor(3) [OF wf, of PNone] state_wf_cursor(3) [OF assms(2), of "PInt 0"] by simp
qed

definition recorded ::
    "env \<Rightarrow> plan_paths \<Rightarrow> string \<Rightarrow> world \<Rightarrow> world \<Rightarrow> pdict list \<Rightarrow> pdict \<Rightarrow> pdict \<Rightarrow> pdict \<Rightarrow> bool" where
  "recorded E plan op w w' evs st ev st' =
     (\<not> has_operation op evs \<and> dget ev ''operation_id'' PNone = PStr op
      \<and> bytes_at w' (pp_events plan) = bytes_at w (pp_events plan) @ json_line ev
      \<and> journal_decodes E plan (bytes_at w' (pp_events plan)) (evs @ [ev]) \<and> checked_journal E (evs @ [ev])
      \<and> bytes_at w' (pp_state plan) = json_bytes st' \<and> at_journal E st' (evs @ [ev])
      \<and> generation st' = generation st + 1)"

lemma append_event_effect:
  assumes ap: "append_event plan ev (length evs) w = (Inr md, w')" and pf: "plan_files plan"
    and dec: "journal_decodes E plan (bytes_at w (pp_events plan)) evs"
    and valid: "validate_event E (Some (pp_plan_id plan)) False 0 False x = Inr ev"
  shows "journal_decodes E plan (bytes_at w' (pp_events plan)) (evs @ [ev])"
    "bytes_at w' (pp_events plan) = bytes_at w (pp_events plan) @ json_line ev"
  using plan_journal.append_effect [OF ap [unfolded append_event_def] plan_filesD(6) [OF pf] dec [unfolded journal_decodes_def] valid]
  by (simp_all add: journal_decodes_def)

lemma publish_state_bytes:
  assumes "publish_json (pp_state plan) st n w = (Inr md, w')" and pf: "plan_files plan"
  shows "bytes_at w' (pp_state plan) = json_bytes st" "bytes_at w' (pp_events plan) = bytes_at w (pp_events plan)"
proof -
  have p: "\<not> is_temp (pp_state plan)" "pp_state plan \<noteq> []" "pp_events plan \<noteq> pp_state plan"
    using pf by (auto simp: plan_files_def)
  note res = publish_json_result [OF assms(1) p(1,2)]
  then show "bytes_at w' (pp_state plan) = json_bytes st" by (auto simp: bytes_at_def)
  from res p(3) show "bytes_at w' (pp_events plan) = bytes_at w (pp_events plan)" by (simp add: bytes_at_def)
qed

lemma publish_if_events:
  "publish_if b plan st w = (Inr md, w') \<Longrightarrow> plan_files plan \<Longrightarrow> bytes_at w' (pp_events plan) = bytes_at w (pp_events plan)"
  by (cases b) (auto simp: publish_if_def dest: publish_state_bytes)

lemma record_step_effect:
  assumes run: "record_step E (layout r) plan kind op summary reason next refs codes upd fs ts w = (Inr out, w')"
    and pf: "plan_files plan" and fs: "\<forall>f. fs = Some f \<longrightarrow> ''generation'' \<notin> keys f"
  shows "\<exists>evs st. journal_decodes E plan (bytes_at w (pp_events plan)) evs \<and> checked_journal E evs \<and> at_journal E st evs
    \<and> (case out of
         Inl res \<Rightarrow> \<not> sr_changed res \<and> sr_operation_id res = op \<and> sr_state res = Some st
           \<and> bytes_at w' (pp_events plan) = bytes_at w (pp_events plan)
       | Inr (ev, st', x) \<Rightarrow> recorded E plan op w w' evs st ev st')"
proof -
  obtain evs cur w1 where ld: "load_current E (layout r) plan ts w = (Inr (evs, cur), w1)"
    using run unfolding record_step_def bind_Inr by fastforce
  note l = load_current_result [OF ld pf]
  from run ld obtain st need where cur: "cur = Some (st, need)"
    by (cases cur) (auto simp: record_step_def bind_Inr)
  note st = l(4) [rule_format, OF cur]
  let ?payload = "record_operation_payload kind summary reason next refs codes
    (dict_of upd) (case fs of None \<Rightarrow> [] | Some f \<Rightarrow> f)"
  let ?event_at = "\<lambda>c sq prev. build_event E (pp_plan_id plan) c op kind summary reason next
    refs codes ts sq prev (material_state_patch st c False) ?payload"
  from run ld obtain c where c: "candidate_state E (layout r) (pp_plan_id plan) st upd kind summary next fs = Inr c"
    and rest: "(case operation_event_from_records evs op of
             Some ex \<Rightarrow>
               bind (lift (?event_at c (dget ex ''sequence'' PNone) (dget ex ''previous_event_hash'' PNone))) (\<lambda>cand_ev.
               bind (lift (assert_same_operation ex None PNone (Some cand_ev))) (\<lambda>_.
               bind (publish_if need plan st) (\<lambda>md.
               ret (Inl ((store_result_base False op)\<lparr>sr_event_id := str_of (dget ex ''event_id'' PNone),
                 sr_metadata := md, sr_reason := ''idempotent retry'', sr_state := Some st\<rparr>)))))
           | None \<Rightarrow>
               if state_semantic_hash E c = state_semantic_hash E st then
                 bind (publish_if need plan st) (\<lambda>md.
                 ret (Inl ((store_result_base False op)\<lparr>sr_metadata := md,
                   sr_reason := ''semantic state unchanged'', sr_state := Some st\<rparr>)))
               else
                 bind (lift (?event_at c (PInt (int (length evs) + 1)) (next_previous evs))) (\<lambda>ev.
                 bind (append_event plan ev (length evs)) (\<lambda>md1.
                 bind (lift (state_after_event E c ev ts)) (\<lambda>next_state.
                 bind (publish_json (pp_state plan) next_state (8 * 1024)) (\<lambda>md2.
                 if dget next_state ''status'' PNone \<noteq> dget st ''status'' PNone then
                   bind (publish_manifest_pointer E (layout r) next_state False) (\<lambda>(m, md3).
                   ret (Inr (ev, next_state, wm_plus md1 md2, Some m, md3)))
                 else ret (Inr (ev, next_state, wm_plus md1 md2, None, no_write))))))) w1 = (Inr out, w')"
    unfolding record_step_def cur Let_def
    by (auto simp: bind_Inr simp del: layout_simps)
  show ?thesis
  proof (cases "operation_event_from_records evs op")
    case (Some ex)
    with rest obtain md where "publish_if need plan st w1 = (Inr md, w')"
        "out = Inl ((store_result_base False op)\<lparr>sr_event_id := str_of (dget ex ''event_id'' PNone),
                 sr_metadata := md, sr_reason := ''idempotent retry'', sr_state := Some st\<rparr>)"
      by (auto simp: bind_Inr)
    with l st publish_if_events [OF _ pf] show ?thesis
      by (intro exI [of _ evs] exI [of _ st]) (auto simp: store_result_base_def)
  next
    case None
    show ?thesis
    proof (cases "state_semantic_hash E c = state_semantic_hash E st")
      case True
      with rest None obtain md where "publish_if need plan st w1 = (Inr md, w')"
          "out = Inl ((store_result_base False op)\<lparr>sr_metadata := md,
                   sr_reason := ''semantic state unchanged'', sr_state := Some st\<rparr>)"
        by (auto simp: bind_Inr)
      with l st publish_if_events [OF _ pf] show ?thesis
        by (intro exI [of _ evs] exI [of _ st]) (auto simp: store_result_base_def)
    next
      case False
      from rest [unfolded None option.case if_not_P [OF False]]
      obtain ev md1 w2 st' md2 w3 where ev: "?event_at c (PInt (int (length evs) + 1)) (next_previous evs) = Inr ev"
        and ap: "append_event plan ev (length evs) w1 = (Inr md1, w2)"
        and nx: "state_after_event E c ev ts = Inr st'"
        and pb: "publish_json (pp_state plan) st' (8 * 1024) w2 = (Inr md2, w3)"
        and mf: "w' = w3 \<or> (\<exists>x. publish_manifest_pointer E (layout r) st' False w3 = (Inr x, w'))"
        and out: "\<exists>x. out = Inr (ev, st', x)"
        by (auto simp: bind_Inr simp del: layout_simps split: if_splits)
      note ev' = ev
      obtain x where valid: "validate_event E (Some (pp_plan_id plan)) False 0 False x = Inr ev"
        using build_event_valid [OF ev'] by blast
      have dec1: "journal_decodes E plan (bytes_at w1 (pp_events plan)) evs" using l(1,3) by simp
      note e = append_event_effect [OF ap pf dec1 valid]
      note p = publish_state_bytes [OF pb pf]
      have keep: "bytes_at w' q = bytes_at w3 q" if "store_file q" for q
        using mf holdsD [OF holds_pointer(2) [OF that]] by blast
      have files: "store_file (pp_events plan)" "store_file (pp_state plan)" using pf by (auto simp: plan_files_def)
      note ext = build_event_extends [OF ev' l(2)]
      have good: "good_event ev" by (rule event_wf_good, rule build_event_result(1) [OF ev'])
      note nxt = state_after_event_ok [OF nx good]
      have chain: "chained E 1 (PStr []) (evs @ [ev])" using ext by (simp add: checked_journal_def)
      have "at_end st' (evs @ [ev])"
        using nxt(4,5) chained_last [OF chain] state_wf_cursor(1) [OF nxt(1), of PNone]
        by (simp add: at_end_def record_hash_of_def)
      moreover have "generation st' = generation st + 1"
        using nxt(1,2) state_wf_cursor(3) [OF nxt(1), of PNone] candidate_generation(2) [OF c conjunct1 [OF st [unfolded at_journal_def]] fs]
        by (simp add: generation_def)
      moreover have "\<not> has_operation op evs" using None by (simp add: operation_event_None)
      ultimately have "recorded E plan op w w' evs st ev st'"
        using build_event_result(4) [OF ev'] e p keep files ext nxt(1) l(3) by (simp add: recorded_def at_journal_def)
      with l(1,2) st out show ?thesis by (intro exI [of _ evs] exI [of _ st]) auto
    qed
  qed
qed

text \<open>
  A call of \<open>record_event\<close> that returns.  The journal of the plan was a checked one;
  either nothing was recorded and it has its old bytes, or it has one more
  record, which carries the new operation id, and the snapshot on disk is the
  returned state, at the end of the new journal, one generation later.
\<close>

lemma preview_unchanged: "preview_state_for E P pid plan w = (Inr pv, w') \<Longrightarrow> w' = w"
  by (auto simp: preview_state_for_def handle_def bind_Inr split: sum.splits if_splits prod.splits)

lemma record_event_effect:
  assumes run: "record_event E (layout r) pid kind op0 summary reason next refs codes upd now prov w = (Inr res, w')"
  shows "\<exists>plan evs st. for_plan w (layout r) pid = Inr plan
    \<and> journal_decodes E plan (bytes_at w (pp_events plan)) evs \<and> checked_journal E evs \<and> at_journal E st evs
    \<and> (if sr_changed res
        then \<exists>ev st'. sr_state res = Some st' \<and> recorded E plan (sr_operation_id res) w w' evs st ev st'
        else sr_state res = Some st \<and> bytes_at w' (pp_events plan) = bytes_at w (pp_events plan))"
proof -
  obtain plan op w1 ts w2 fs pv w3 w4 where fp: "for_plan w (layout r) pid = Inr plan"
    and o: "operation_id_or_new E op0 w = (Inr op, w1)" and n: "now_or now w1 = (Inr ts, w2)"
    and prov: "(case prov of None \<Rightarrow> Inr None
                 | Some _ \<Rightarrow> bindE (provenance_for_store E (layout r) prov) (\<lambda>f. Inr (Some f))) = Inr fs"
    and pr: "preview_state_for E (layout r) pid plan w2 = (Inr (Some pv), w3)"
    and lay: "ensure_store_layout (layout r) w3 = (Inr (), w4)"
    and rest: "bind (ensure_directory_chain 448 (pp_root plan)) (\<lambda>_.
       bind (locked_file (pp_state_lock plan)
         (record_step E (layout r) plan kind op summary reason next refs codes (py_or upd (PDict [])) fs ts)) (\<lambda>outcome.
       case outcome of
         Inl r \<Rightarrow> ret r
       | Inr (ev, next_state, md, m, md3) \<Rightarrow>
         bind (case m of Some x \<Rightarrow> ret (Some x) | None \<Rightarrow> reading (read_manifest E (layout r))) (\<lambda>mf.
         ret ((store_result_base True op)\<lparr>sr_event_id := str_of (dget ev ''event_id'' PNone),
           sr_metadata := wm_plus md md3, sr_state := Some next_state, sr_manifest := mf\<rparr>)))) w4 = (Inr res, w')"
    using run unfolding record_event_split Let_def
    by (auto simp: bind_Inr simp del: layout_simps split: option.splits)
  note pf = for_plan_files [OF fp]
  obtain w5 out w6 where ch: "ensure_directory_chain 448 (pp_root plan) w4 = (Inr (), w5)"
    and lk: "locked_file (pp_state_lock plan)
         (record_step E (layout r) plan kind op summary reason next refs codes (py_or upd (PDict [])) fs ts) w5 = (Inr out, w6)"
    and fin: "(case out of
         Inl r \<Rightarrow> ret r
       | Inr (ev, next_state, md, m, md3) \<Rightarrow>
         bind (case m of Some x \<Rightarrow> ret (Some x) | None \<Rightarrow> reading (read_manifest E (layout r))) (\<lambda>mf.
         ret ((store_result_base True op)\<lparr>sr_event_id := str_of (dget ev ''event_id'' PNone),
           sr_metadata := wm_plus md md3, sr_state := Some next_state, sr_manifest := mf\<rparr>))) w6 = (Inr res, w')"
    using rest by (auto simp: bind_Inr simp del: layout_simps)
  let ?J = "pp_events plan"
  have b5: "bytes_at w5 ?J = bytes_at w ?J"
    using chain_bytes [OF ch, of ?J] layout_bytes [OF lay, of ?J] preview_unchanged [OF pr] now_or_bytes [OF n]
      operation_id_bytes [OF o] by (simp add: bytes_at_def)
  obtain w0 where step: "record_step E (layout r) plan kind op summary reason next refs codes (py_or upd (PDict [])) fs ts w0
      = (Inr out, w6)" and b0: "bytes_at w0 ?J = bytes_at w ?J"
    using locked_bytes [OF lk plan_filesD(4) [OF pf]] b5 by auto
  have fs: "\<forall>f. fs = Some f \<longrightarrow> ''generation'' \<notin> keys f"
    using prov provenance_keys [of E "layout r" prov] by (auto simp: resE split: option.splits simp del: layout_simps)
  obtain evs st where eff: "journal_decodes E plan (bytes_at w0 ?J) evs" "checked_journal E evs" "at_journal E st evs"
    and out: "case out of
         Inl res \<Rightarrow> \<not> sr_changed res \<and> sr_operation_id res = op \<and> sr_state res = Some st
           \<and> bytes_at w6 ?J = bytes_at w0 ?J
       | Inr (ev, st', x) \<Rightarrow> recorded E plan op w0 w6 evs st ev st'"
    using record_step_effect [OF step pf fs] by blast
  show ?thesis
  proof (cases out)
    case (Inl a)
    with fin out have "w' = w6" "res = a" "\<not> sr_changed a" "sr_state a = Some st" "bytes_at w6 ?J = bytes_at w0 ?J" by auto
    with fp eff b0 show ?thesis by auto
  next
    case (Inr b)
    obtain ev st' md m md3 where b: "b = (ev, st', md, m, md3)" by (cases b) auto
    have w': "w' = w6" "sr_changed res" "sr_operation_id res = op" "sr_state res = Some st'"
      using fin unfolding Inr b by (cases m; auto simp: bind_Inr store_result_base_def)+
    have "recorded E plan op w0 w6 = recorded E plan op w w6" by (simp add: recorded_def b0 fun_eq_iff)
    then have "recorded E plan op w w' evs st ev st'" using out unfolding Inr b w'(1) by simp
    with fp eff b0 w' show ?thesis by auto
  qed
qed

section \<open>Replaying a journal\<close>

lemma replay_plan_effect:
  assumes run: "replay_plan E (layout r) pid now w = (Inr res, w')"
  shows "\<exists>plan evs. for_plan w (layout r) pid = Inr plan \<and> journal_decodes E plan (bytes_at w (pp_events plan)) evs
    \<and> checked_journal E evs \<and> bytes_at w' (pp_events plan) = bytes_at w (pp_events plan)
    \<and> (case sr_state res of None \<Rightarrow> evs = []
       | Some st \<Rightarrow> at_journal E st evs \<and> (sr_changed res \<longrightarrow> bytes_at w' (pp_state plan) = json_bytes st))"
proof -
  obtain plan w1 w2 ts w3 where fp: "for_plan w (layout r) pid = Inr plan"
    and lay: "ensure_store_layout (layout r) w = (Inr (), w1)"
    and ch: "ensure_directory_chain 448 (pp_root plan) w1 = (Inr (), w2)"
    and n: "now_or now w2 = (Inr ts, w3)"
    and lk: "locked_file (pp_state_lock plan)
      (bind (load_current E (layout r) plan ts) (\<lambda>(events, current).
       case current of
         None \<Rightarrow> ret ((store_result_base False [])\<lparr>sr_reason := ''no state to replay''\<rparr>)
       | Some (state, recovery_needed) \<Rightarrow>
           if \<not> recovery_needed then
             ret ((store_result_base False [])\<lparr>sr_state := Some state, sr_reason := ''already current''\<rparr>)
           else
             bind (publish_json (pp_state plan) state (8 * 1024)) (\<lambda>md.
             ret ((store_result_base True (str_of (dget state ''last_operation_id'' (PStr []))))\<lparr>
               sr_metadata := md, sr_state := Some state, sr_reason := ''replayed journal''\<rparr>)))) w3 = (Inr res, w')"
    using run unfolding replay_plan_def by (auto simp: bind_Inr simp del: layout_simps)
  note pf = for_plan_files [OF fp]
  let ?J = "pp_events plan"
  have b3: "bytes_at w3 ?J = bytes_at w ?J"
    using chain_bytes [OF ch, of ?J] layout_bytes [OF lay, of ?J] now_or_bytes [OF n] by (simp add: bytes_at_def)
  obtain w4 where body: "bind (load_current E (layout r) plan ts) (\<lambda>(events, current).
       case current of
         None \<Rightarrow> ret ((store_result_base False [])\<lparr>sr_reason := ''no state to replay''\<rparr>)
       | Some (state, recovery_needed) \<Rightarrow>
           if \<not> recovery_needed then
             ret ((store_result_base False [])\<lparr>sr_state := Some state, sr_reason := ''already current''\<rparr>)
           else
             bind (publish_json (pp_state plan) state (8 * 1024)) (\<lambda>md.
             ret ((store_result_base True (str_of (dget state ''last_operation_id'' (PStr []))))\<lparr>
               sr_metadata := md, sr_state := Some state, sr_reason := ''replayed journal''\<rparr>))) w4 = (Inr res, w')"
    and b4: "bytes_at w4 ?J = bytes_at w ?J"
    using locked_bytes [OF lk plan_filesD(4) [OF pf]] b3 by auto
  obtain evs cur w5 where ld: "load_current E (layout r) plan ts w4 = (Inr (evs, cur), w5)"
    and rest: "(case cur of
         None \<Rightarrow> ret ((store_result_base False [])\<lparr>sr_reason := ''no state to replay''\<rparr>)
       | Some (state, recovery_needed) \<Rightarrow>
           if \<not> recovery_needed then
             ret ((store_result_base False [])\<lparr>sr_state := Some state, sr_reason := ''already current''\<rparr>)
           else
             bind (publish_json (pp_state plan) state (8 * 1024)) (\<lambda>md.
             ret ((store_result_base True (str_of (dget state ''last_operation_id'' (PStr []))))\<lparr>
               sr_metadata := md, sr_state := Some state, sr_reason := ''replayed journal''\<rparr>))) w5 = (Inr res, w')"
    using body by (auto simp: bind_Inr simp del: layout_simps)
  note l = load_current_result [OF ld pf]
  have "bytes_at w' ?J = bytes_at w5 ?J \<and> (case sr_state res of None \<Rightarrow> evs = []
       | Some st \<Rightarrow> at_journal E st evs \<and> (sr_changed res \<longrightarrow> bytes_at w' (pp_state plan) = json_bytes st))"
  proof (cases cur)
    case None
    with rest l(5) show ?thesis by (auto simp: store_result_base_def)
  next
    case (Some c)
    obtain st need where c: "c = (st, need)" by (cases c)
    note at = l(4) [rule_format, OF Some [unfolded c]]
    show ?thesis
    proof (cases need)
      case True
      with rest Some c obtain md where pb: "publish_json (pp_state plan) st (8 * 1024) w5 = (Inr md, w')"
        and res: "sr_state res = Some st"
        by (auto simp: bind_Inr store_result_base_def)
      from publish_state_bytes [OF pb pf] at res show ?thesis by simp
    next
      case False
      with rest Some c at show ?thesis by (auto simp: store_result_base_def)
    qed
  qed
  with fp l(1,2,3) b4 show ?thesis by auto
qed

end
