(* ===== verification/StoreHistory.thy ===== *)
theory StoreHistory
  imports StoreRecord
begin

text \<open>
  Histories of a store: calls of the store's operations on one repository, in
  any order, each returning, raising or cut off by a crash (the outcomes of its
  system calls are in the world, and the next call starts in whatever the last
  one left).  Journals only grow along a history, so what one call recorded is
  there for every later call: an operation takes effect at most once.
\<close>

inductive history :: "env \<Rightarrow> path \<Rightarrow> world \<Rightarrow> world \<Rightarrow> bool" for E r where
  opens: "history E r w w"
| registers: "history E r w0 w
    \<Longrightarrow> register_plan E (layout r) pid path op now prov obj ph nx status sm rs refs codes w = (x, w') \<Longrightarrow> history E r w0 w'"
| records: "history E r w0 w
    \<Longrightarrow> record_event E (layout r) pid kind op sm rs nx refs codes upd now prov w = (x, w') \<Longrightarrow> history E r w0 w'"
| updates: "history E r w0 w \<Longrightarrow> update_state E (layout r) pid upd' op kind sm now prov w = (x, w') \<Longrightarrow> history E r w0 w'"
| unplanned: "history E r w0 w
    \<Longrightarrow> append_unplanned_commit E (layout r) op sm refs codes now prov w = (x, w') \<Longrightarrow> history E r w0 w'"
| replays: "history E r w0 w \<Longrightarrow> replay_plan E (layout r) pid now w = (x, w') \<Longrightarrow> history E r w0 w'"
| claims: "history E r w0 w \<Longrightarrow> claim_context_emission E (layout r) ledger_record w = (y, w') \<Longrightarrow> history E r w0 w'"
| restarts: "history E r w0 w \<Longrightarrow> history E r w0 (w\<lparr>w_faults := fs, w_tick := n\<rparr>)"

lemmas grows_calls = grows_register grows_record grows_update grows_unplanned grows_replay grows_claim

lemma history_trans: "history E r w1 w2 \<Longrightarrow> history E r w0 w1 \<Longrightarrow> history E r w0 w2"
  by (induction rule: history.induct) (blast intro: history.intros)+

lemma grows_step: "is_journal q \<Longrightarrow> grows q w0 w \<Longrightarrow> keeps (grows q) m \<Longrightarrow> m w = (x, w') \<Longrightarrow> grows q w0 w'"
  using keepsD [of "grows q" m w x w'] transpD [OF grows_trans] by blast

lemma history_grows:
  assumes "history E r w w'" "is_journal q"
  shows "prefix (bytes_at w q) (bytes_at w' q)"
proof -
  from assms have "grows q w w'"
  proof (induction rule: history.induct)
    case (opens w)
    then show ?case by (simp add: grows_def)
  next
    case (restarts w0 w fs n)
    then show ?case by (simp add: grows_def bytes_at_def)
  qed (blast intro: grows_step grows_calls)+
  then show ?thesis by (simp add: grows_def)
qed

section \<open>What was read stays readable as a prefix\<close>

lemma jsonl_loop_extends: "jsonl_loop v mx acc ls = Inr (recs, p) \<Longrightarrow> prefix acc recs"
  by (induction v mx acc ls arbitrary: recs p rule: jsonl_loop.induct)
    (fastforce simp: prefix_def split: if_splits sum.splits)+

lemma decodes_prefix:
  assumes "decodes v mx b rs" "decodes v mx (b @ c) rs'"
  shows "prefix rs rs'"
proof -
  have loop: "jsonl_loop v mx [] (byte_lines [] b) = Inr (rs, False)" using assms(1) by (simp add: decodes_def)
  have "b = [] \<or> last b = CHR 0x0A"
    using terminated_concat [OF jsonl_loop_terminated [OF loop]] by (simp add: concat_byte_lines)
  then have "byte_lines [] (b @ c) = byte_lines [] b @ byte_lines [] c" by (intro byte_lines_append) auto
  then have "jsonl_loop v mx rs (byte_lines [] c) = Inr (rs', False)"
    using assms(2) jsonl_loop_append [OF loop] by (simp add: decodes_def)
  then show ?thesis by (rule jsonl_loop_extends)
qed

lemma decodes_history:
  assumes "decodes v mx (bytes_at w q) rs" "decodes v mx (bytes_at w' q) rs'"
    and "history E r w w'" "is_journal q"
  shows "set rs \<subseteq> set rs'"
proof -
  obtain c where "bytes_at w' q = bytes_at w q @ c"
    using history_grows [OF assms(3,4)] by (auto simp: prefix_def)
  with assms(1,2) decodes_prefix [of v mx "bytes_at w q" rs c rs'] show ?thesis by (auto simp: prefix_def)
qed

section \<open>At most once\<close>

lemma emitted_once:
  assumes "claim_context_emission E (layout r) a w = (Inr res, w1)"
    and "history E r w1 w2"
    and "claim_context_emission E (layout r) b w2 = (Inr res2, w3)"
    and "validate_context_ledger_record E CONTEXT_LEDGER_HARD_LIMIT_BYTES a = Inr na"
    and "validate_context_ledger_record E CONTEXT_LEDGER_HARD_LIMIT_BYTES b = Inr nb"
    and "ledger_key E na = ledger_key E nb"
  shows "\<not> er_emitted res2 \<and> bytes_at w3 (context_ledger (layout r)) = bytes_at w2 (context_ledger (layout r))"
proof -
  let ?l = "context_ledger (layout r)"
  obtain k rs where 1: "ledger_key E na = Inr k" "ledger_decodes E (bytes_at w ?l) rs"
      "if er_emitted res then \<not> emitted E k rs \<and> bytes_at w1 ?l = bytes_at w ?l @ json_line na
        \<and> ledger_decodes E (bytes_at w1 ?l) (rs @ [na])
       else emitted E k rs \<and> bytes_at w1 ?l = bytes_at w ?l"
    using claim_emission_effect [OF assms(1)] assms(4) by auto
  obtain rs2 where 2: "ledger_decodes E (bytes_at w2 ?l) rs2"
      "if er_emitted res2 then \<not> emitted E k rs2 else bytes_at w3 ?l = bytes_at w2 ?l"
    using claim_emission_effect [OF assms(3)] assms(5,6) 1(1) by (auto split: if_splits)
  obtain rs1 where 3: "ledger_decodes E (bytes_at w1 ?l) rs1" "emitted E k rs1"
    using 1 by (cases "er_emitted res") (auto simp: emitted_def)
  have "set rs1 \<subseteq> set rs2"
    using decodes_history [OF _ _ assms(2) layout_journal(2)] 3(1) 2(1) by (auto simp: ledger_decodes_def)
  with 3(2) have "emitted E k rs2" by (auto simp: emitted_def)
  with 2(2) show ?thesis by (auto split: if_splits)
qed

lemma has_operation_mono: "has_operation op xs \<Longrightarrow> set xs \<subseteq> set ys \<Longrightarrow> has_operation op ys"
  by (auto simp: has_operation_def)

lemma has_operation_snoc: "dget ev ''operation_id'' PNone = PStr op \<Longrightarrow> has_operation op (evs @ [ev])"
  by (simp add: has_operation_def)

lemma unplanned_once:
  assumes "append_unplanned_commit E (layout r) op sm refs codes now prov w = (Inr res, w1)"
    and "history E r w1 w2"
    and "append_unplanned_commit E (layout r) op' sm' refs' codes' now' prov' w2 = (Inr res2, w3)"
    and "sr_operation_id res2 = sr_operation_id res"
  shows "\<not> sr_changed res2 \<and> bytes_at w3 (unplanned_events (layout r)) = bytes_at w2 (unplanned_events (layout r))"
proof -
  let ?u = "unplanned_events (layout r)" and ?o = "sr_operation_id res"
  let ?d = "\<lambda>w. decodes (validate_event E None True 0 False) UNPLANNED_JOURNAL_MAX_RECORDS (bytes_at w ?u)"
  obtain evs where 1: "?d w1 evs" "has_operation ?o evs"
  proof (cases "sr_changed res")
    case True
    with append_unplanned_effect [OF assms(1)] has_operation_snoc that show ?thesis by (simp, blast)
  next
    case False
    with append_unplanned_effect [OF assms(1)] that show ?thesis by auto
  qed
  obtain evs2 where 2: "?d w2 evs2"
      "if sr_changed res2 then \<not> has_operation ?o evs2 else bytes_at w3 ?u = bytes_at w2 ?u"
    using append_unplanned_effect [OF assms(3)] assms(4) by (auto split: if_splits)
  have "set evs \<subseteq> set evs2" by (rule decodes_history [OF 1(1) 2(1) assms(2) layout_journal(1)])
  with 1(2) 2(2) show ?thesis by (auto dest: has_operation_mono split: if_splits)
qed

lemma for_plan_events:
  assumes "for_plan w (layout r) pid = Inr a" "for_plan w' (layout r) pid = Inr b"
  shows "pp_events a = pp_events b" "pp_plan_id a = pp_plan_id b" "is_journal (pp_events a)"
  using for_plan_ok [OF assms(1)] for_plan_ok [OF assms(2)] by (simp_all add: is_journal_def name_of_def)

lemma recorded_once:
  assumes "record_event E (layout r) pid kind op sm rs nx refs codes upd now prov w = (Inr res, w1)"
    and "sr_changed res" and "history E r w1 w2"
    and "record_event E (layout r) pid kind' op' sm' rs' nx' refs' codes' upd' now' prov' w2 = (Inr res2, w3)"
    and "sr_operation_id res2 = sr_operation_id res"
  shows "\<not> sr_changed res2"
proof
  assume c: "sr_changed res2"
  obtain plan evs ev st where 1: "for_plan w (layout r) pid = Inr plan"
      "dget ev ''operation_id'' PNone = PStr (sr_operation_id res)"
      "journal_decodes E plan (bytes_at w1 (pp_events plan)) (evs @ [ev])"
    using record_event_effect [OF assms(1)] assms(2) by (auto simp: recorded_def)
  obtain plan2 evs2 where 2: "for_plan w2 (layout r) pid = Inr plan2"
      "journal_decodes E plan2 (bytes_at w2 (pp_events plan2)) evs2" "\<not> has_operation (sr_operation_id res) evs2"
    using record_event_effect [OF assms(4)] c assms(5) by (auto simp: recorded_def)
  note same = for_plan_events [OF 1(1) 2(1)]
  have "set (evs @ [ev]) \<subseteq> set evs2"
    using 1(3) 2(2) unfolding journal_decodes_def same(2) same(1) [symmetric]
    by (rule decodes_history [OF _ _ assms(3) same(3)])
  with has_operation_snoc [OF 1(2)] 2(3) show False by (blast dest: has_operation_mono)
qed

end
