(* ===== verification/Running.thy ===== *)
theory Running
  imports StoreHistory "HOL-Library.Code_Target_Nat"
begin

text \<open>
  Equations for evaluating the model in the kernel.  A continuation is rewritten
  only once its value is there: the validators of \<open>schema.py\<close> become tables of
  steps run by one loop, proved equal to the definitions that follow the code
  line by line, and the monad runs on a given world.
\<close>

section \<open>Validators as tables\<close>

type_synonym field_step = "pdict \<Rightarrow> pdict \<Rightarrow> pdict res"

definition field_step :: "string \<Rightarrow> py \<Rightarrow> (py \<Rightarrow> py res) \<Rightarrow> pdict \<Rightarrow> pdict \<Rightarrow> pdict res" where
  "field_step k dflt f obj acc = (case f (dget obj k dflt) of Inl e \<Rightarrow> Inl e | Inr v \<Rightarrow> Inr (acc @ [(k, v)]))"

definition raw_step :: "string \<Rightarrow> py \<Rightarrow> (py \<Rightarrow> py res) \<Rightarrow> pdict \<Rightarrow> pdict \<Rightarrow> pdict res" where
  "raw_step k dflt f obj acc = (case f (dget obj k dflt) of Inl e \<Rightarrow> Inl e | Inr v \<Rightarrow> Inr (acc @ [(k, dget obj k dflt)]))"

definition check_step :: "(pdict \<Rightarrow> unit res) \<Rightarrow> pdict \<Rightarrow> pdict \<Rightarrow> pdict res" where
  "check_step p obj acc = (case p acc of Inl e \<Rightarrow> Inl e | Inr _ \<Rightarrow> Inr acc)"

fun run_fields :: "field_step list \<Rightarrow> pdict \<Rightarrow> pdict res \<Rightarrow> pdict res" where
  "run_fields steps obj (Inl e) = Inl e"
| "run_fields [] obj (Inr acc) = Inr acc"
| "run_fields (s # steps) obj (Inr acc) = run_fields steps obj (s obj acc)"

lemma run_fields_bind: "run_fields (s # steps) obj r = bindE r (\<lambda>acc. run_fields steps obj (s obj acc))"
  by (cases r) (simp_all add: bindE_def)

lemma step_binds:
  "bindE (field_step k dflt f obj acc) g = bindE (f (dget obj k dflt)) (\<lambda>v. g (acc @ [(k, v)]))"
  "bindE (raw_step k dflt f obj acc) g = bindE (f (dget obj k dflt)) (\<lambda>v. g (acc @ [(k, dget obj k dflt)]))"
  "bindE (check_step p obj acc) g = bindE (p acc) (\<lambda>_. g acc)"
  by (simp_all add: field_step_def raw_step_def check_step_def bindE_def split: sum.splits)

definition event_steps :: "env \<Rightarrow> string option \<Rightarrow> bool \<Rightarrow> bool \<Rightarrow> field_step list" where
  "event_steps E ex u a =
    [field_step ''sequence'' (PInt 0) (s_integer 1), field_step ''event_id'' PNone (s_identifier E False),
     field_step ''operation_id'' PNone (s_identifier E False), field_step ''timestamp'' PNone (s_timestamp E False),
     field_step ''kind'' PNone (s_enum MATERIAL_EVENT_KINDS),
     check_step (\<lambda>acc. guardE (u \<and> dget acc ''kind'' PNone \<noteq> PStr ''loose_commit_recorded'') SchemaError),
     field_step ''plan_id'' (PStr []) (s_plan_id E u), check_step (\<lambda>acc. expect_plan ex (dget acc ''plan_id'' PNone)),
     field_step ''plan_path'' (PStr []) (s_repo_relative_path E True), field_step ''summary'' (PStr []) (s_text E 400 True),
     field_step ''reason'' (PStr []) (s_text E 400 True), field_step ''next_action'' (PStr []) (s_text E 400 True),
     field_step ''status'' (PStr ''planned'') (s_enum VALID_STATUSES),
     field_step ''classification'' (PStr ''GREEN'') (s_enum VALID_CLASSIFICATIONS),
     field_step ''phase'' (PStr []) (s_text E 160 True), field_step ''references'' (PList []) (s_path_list E 8),
     field_step ''evidence_codes'' (PList []) (s_code_list 8), field_step ''git'' (PDict []) (s_git E),
     field_step ''writer_session_id'' (PStr []) (s_identifier E True),
     field_step ''model_family'' (PStr ''unknown'') (s_enum VALID_MODEL_FAMILIES),
     field_step ''model_source'' (PStr ''unknown'') (s_enum VALID_MODEL_SOURCES),
     field_step ''model_verified'' (PBool False) s_boolean, field_step ''origin'' (PStr ''implementation-progress'') (s_text E 80 False),
     field_step ''intent'' (PStr ''progress-maintenance'') (s_text E 80 False),
     field_step ''state_patch'' (PDict []) (s_state_patch E), field_step ''operation_payload_hash'' (PStr []) (s_hash True),
     field_step ''state_semantic_hash'' (PStr []) (s_hash True), field_step ''previous_event_hash'' (PStr []) (s_hash True),
     field_step ''record_hash'' (PStr []) (s_hash a),
     check_step (\<lambda>acc. guardE (\<not> a \<and> \<not> truthy (dget acc ''record_hash'' PNone)) SchemaError)]"

definition finish_event :: "env \<Rightarrow> bool \<Rightarrow> nat \<Rightarrow> pdict \<Rightarrow> pdict res" where
  "finish_event E u hl n =
     (if env_red E (canonical_json (PDict n)) then Inl RedContentError
      else if truthy (dget n ''record_hash'' PNone) \<and> dget n ''record_hash'' PNone \<noteq> PStr (event_record_hash E n) then Inl SchemaError
      else if encoded_size (PDict n) > (if hl \<noteq> 0 then hl else if u then UNPLANNED_EVENT_HARD_LIMIT_BYTES else EVENT_HARD_LIMIT_BYTES)
        then Inl SchemaError
      else Inr n)"

definition order_fields :: "string list \<Rightarrow> pdict \<Rightarrow> pdict" where
  "order_fields ks acc = map (\<lambda>k. (k, dget acc k PNone)) ks"

definition record_of :: "(pdict \<Rightarrow> pdict res) \<Rightarrow> string list \<Rightarrow> pdict res \<Rightarrow> pdict res" where
  "record_of fin ks r = (case r of Inl e \<Rightarrow> Inl e | Inr acc \<Rightarrow> fin (mk_dict ((''schema_version'', PInt 1) # order_fields ks acc)))"

lemma record_of_code [code]:
  "record_of fin ks (Inl e) = Inl e" "record_of fin ks (Inr acc) = fin (mk_dict ((''schema_version'', PInt 1) # order_fields ks acc))"
  by (simp_all add: record_of_def)

definition object_start :: "string list \<Rightarrow> pdict \<Rightarrow> pdict res" where
  "object_start ks obj = (case s_schema_version obj of Inl e \<Rightarrow> Inl e | Inr _ \<Rightarrow>
     (case s_unknown_keys obj ks of Inl e \<Rightarrow> Inl e | Inr _ \<Rightarrow> Inr []))"

lemma validate_event_steps:
  "validate_event E ex u hl a (PDict obj) =
     record_of (finish_event E u hl) (tl EVENT_KEYS) (run_fields (event_steps E ex u a) obj (object_start EVENT_KEYS obj))"
proof -
  have r: "record_of fin ks r = bindE r (\<lambda>acc. fin (mk_dict ((''schema_version'', PInt 1) # order_fields ks acc)))" for fin ks r
    by (simp add: record_of_def bindE_def)
  have s: "bindE (object_start ks obj) g = bindE (s_schema_version obj) (\<lambda>_. bindE (s_unknown_keys obj ks) (\<lambda>_. g []))" for g ks
    by (simp add: object_start_def bindE_def split: sum.splits)
  have f: "finish_event E u hl n = bindE (s_reject_red E n) (\<lambda>_.
     bindE (guardE (truthy (dget n ''record_hash'' PNone) \<and> dget n ''record_hash'' PNone \<noteq> PStr (event_record_hash E n)) SchemaError) (\<lambda>_.
     bindE (guardE (encoded_size (PDict n) > (if hl \<noteq> 0 then hl else if u then UNPLANNED_EVENT_HARD_LIMIT_BYTES else EVENT_HARD_LIMIT_BYTES)) SchemaError) (\<lambda>_.
     Inr n)))" for n
    by (simp add: finish_event_def s_reject_red_def guardE_def bindE_def)
  have n: "bindE (run_fields [] obj r) g = bindE r g" for r g
    by (cases r) (simp_all add: bindE_def)
  show ?thesis
    unfolding validate_event_def s_object_def py.case bindE_Inr
    unfolding r event_steps_def run_fields_bind bindE_assoc n s
    unfolding step_binds append_Nil append_Cons
    by (simp only: order_fields_def EVENT_KEYS_def list.sel list.map)
      (simp add: f dget_mk_dict Let_def split del: if_split)
qed

definition state_steps :: "env \<Rightarrow> string option \<Rightarrow> field_step list" where
  "state_steps E ex =
    [field_step ''plan_id'' PNone (s_plan_id E False), check_step (\<lambda>acc. expect_plan ex (dget acc ''plan_id'' PNone)),
     raw_step ''plan_path'' (PStr []) (s_repo_relative_path E True), field_step ''generation'' (PInt 0) (s_integer 0),
     field_step ''status'' (PStr ''planned'') (s_enum VALID_STATUSES),
     field_step ''classification'' (PStr ''GREEN'') (s_enum VALID_CLASSIFICATIONS),
     field_step ''phase'' (PStr []) (s_text E 160 True), field_step ''objective'' (PStr []) (s_text E 480 True),
     field_step ''next_action'' (PStr []) (s_text E 400 True), field_step ''latest_decision'' PNone (s_decision E),
     field_step ''open_blockers'' (PList []) (s_text_list E 8 400),
     field_step ''open_questions'' (PList []) (s_text_list E 8 400), field_step ''validation'' (PDict []) s_validation,
     field_step ''active_files'' (PList []) (s_path_list E 16),
     field_step ''last_operation_id'' (PStr []) (s_identifier E True),
     field_step ''last_event_sequence'' (PInt 0) (s_integer 0), field_step ''last_event_hash'' (PStr []) (s_hash True),
     field_step ''git'' (PDict []) (s_git E), field_step ''writer_session_id'' (PStr []) (s_identifier E True),
     field_step ''model_family'' (PStr ''unknown'') (s_enum VALID_MODEL_FAMILIES),
     field_step ''model_source'' (PStr ''unknown'') (s_enum VALID_MODEL_SOURCES),
     field_step ''model_verified'' (PBool False) s_boolean, field_step ''origin'' (PStr ''implementation-progress'') (s_text E 80 False),
     field_step ''intent'' (PStr ''progress-maintenance'') (s_text E 80 False),
     field_step ''created_at'' (PStr []) (s_timestamp E True), field_step ''updated_at'' (PStr []) (s_timestamp E True),
     field_step ''semantic_hash'' (PStr []) (s_hash True)]"

definition state_material :: "pdict \<Rightarrow> pdict" where
  "state_material acc = mk_dict (map (\<lambda>k. (k, if k = ''schema_version'' then PInt 1 else if k = ''semantic_hash'' then PStr []
     else dget acc k PNone)) STATE_KEYS)"

definition hashed_state :: "env \<Rightarrow> nat \<Rightarrow> py \<Rightarrow> py \<Rightarrow> pdict \<Rightarrow> pdict res" where
  "hashed_state E hl supplied h n =
     (if truthy supplied \<and> supplied \<noteq> h then Inl SchemaError
      else if env_red E (canonical_json (PDict n)) then Inl RedContentError
      else if encoded_size (PDict n) > hl then Inl SchemaError else Inr n)"

definition finish_state :: "env \<Rightarrow> nat \<Rightarrow> pdict res \<Rightarrow> pdict res" where
  "finish_state E hl r = (case r of Inl e \<Rightarrow> Inl e | Inr acc \<Rightarrow>
     let m = state_material acc; h = PStr (state_semantic_hash E m) in
     hashed_state E hl (dget acc ''semantic_hash'' PNone) h (dset ''semantic_hash'' h m))"

definition finish_material :: "env \<Rightarrow> nat \<Rightarrow> py \<Rightarrow> pdict \<Rightarrow> py \<Rightarrow> pdict res" where
  "finish_material E hl supplied m h = hashed_state E hl supplied h (dset ''semantic_hash'' h m)"

definition with_hash :: "env \<Rightarrow> nat \<Rightarrow> py \<Rightarrow> pdict \<Rightarrow> pdict res" where
  "with_hash E hl supplied m = finish_material E hl supplied m (PStr (state_semantic_hash E m))"

lemma finish_state_code [code]:
  "finish_state E hl (Inl e) = Inl e"
  "finish_state E hl (Inr acc) = with_hash E hl (dget acc ''semantic_hash'' PNone) (state_material acc)"
  by (simp_all add: finish_state_def with_hash_def finish_material_def Let_def)

lemma validate_state_steps:
  "validate_state E ex hl (PDict obj) = finish_state E hl (run_fields (state_steps E ex) obj (object_start STATE_KEYS obj))"
proof -
  have r: "finish_state E hl r = bindE r (\<lambda>acc. let m = state_material acc; h = PStr (state_semantic_hash E m) in
     bindE (guardE (truthy (dget acc ''semantic_hash'' PNone) \<and> dget acc ''semantic_hash'' PNone \<noteq> h) SchemaError) (\<lambda>_.
     bindE (s_reject_red E (dset ''semantic_hash'' h m)) (\<lambda>_.
     bindE (guardE (encoded_size (PDict (dset ''semantic_hash'' h m)) > hl) SchemaError) (\<lambda>_.
     Inr (dset ''semantic_hash'' h m)))))" for hl r
    by (simp add: finish_state_def hashed_state_def s_reject_red_def guardE_def bindE_def Let_def split: sum.splits)
  have s: "bindE (object_start ks obj) g = bindE (s_schema_version obj) (\<lambda>_. bindE (s_unknown_keys obj ks) (\<lambda>_. g []))" for g ks
    by (simp add: object_start_def bindE_def split: sum.splits)
  have n: "bindE (run_fields [] obj r) g = bindE r g" for r g
    by (cases r) (simp_all add: bindE_def)
  show ?thesis
    unfolding validate_state_def s_object_def py.case bindE_Inr
    unfolding r state_steps_def run_fields_bind bindE_assoc n s
    unfolding step_binds append_Nil append_Cons
    by (simp only: state_material_def STATE_KEYS_def list.map)
      (simp add: Let_def split del: if_split)
qed

lemma validate_code [code]:
  "validate_event E ex u hl a v = (case v of PDict obj \<Rightarrow>
     record_of (finish_event E u hl) (tl EVENT_KEYS) (run_fields (event_steps E ex u a) obj (object_start EVENT_KEYS obj))
   | _ \<Rightarrow> Inl SchemaError)"
  by (cases v) (simp_all add: validate_event_steps, simp_all add: validate_event_def s_object_def bindE_def)

lemma validate_state_code [code]:
  "validate_state E ex hl v = (case v of PDict obj \<Rightarrow>
     finish_state E hl (run_fields (state_steps E ex) obj (object_start STATE_KEYS obj))
   | _ \<Rightarrow> Inl SchemaError)"
  by (cases v) (simp_all add: validate_state_steps, simp_all add: validate_state_def s_object_def bindE_def)

definition patch_next :: "pdict \<Rightarrow> (string \<times> (py \<Rightarrow> py res)) list \<Rightarrow> pdict res \<Rightarrow> pdict res" where
  "patch_next obj cs r = bindE r (\<lambda>x. patch_fields obj cs x)"

lemma patch_code [code]:
  "patch_next obj cs (Inl e) = Inl e" "patch_next obj cs (Inr x) = patch_fields obj cs x"
  "patch_fields obj [] x = Inr x"
  "patch_fields obj (c # cs) x = patch_next obj cs (patch_field obj (fst c) (snd c) x)"
  by (simp_all add: patch_next_def bindE_def split: prod.splits) (cases c, simp add: bindE_def)

section \<open>Running the monad\<close>

text \<open>
  Equations that evaluate a computation on a given world only, step by step,
  instead of rewriting under the binders of its continuations.
\<close>

definition continue :: "'a res \<times> world \<Rightarrow> ('a \<Rightarrow> 'b io) \<Rightarrow> 'b res \<times> world" where
  "continue p f = (case p of (Inl e, w) \<Rightarrow> (Inl e, w) | (Inr x, w) \<Rightarrow> f x w)"

lemma continue_code [code]: "continue (Inl e, w) f = (Inl e, w)" "continue (Inr x, w) f = f x w"
  by (simp_all add: continue_def)

lemma bind_code [code]: "bind m f w = continue (m w) f"
  by (simp add: bind_def continue_def)

definition continue_handle :: "'a res \<times> world \<Rightarrow> (exn \<Rightarrow> 'a io) \<Rightarrow> 'a res \<times> world" where
  "continue_handle p h = (case p of (Inl e, w) \<Rightarrow> if e = Killed then (Inl e, w) else h e w | (Inr x, w) \<Rightarrow> (Inr x, w))"

lemma continue_handle_code [code]:
  "continue_handle (Inl e, w) h = (if e = Killed then (Inl e, w) else h e w)" "continue_handle (Inr x, w) h = (Inr x, w)"
  by (simp_all add: continue_handle_def)

lemma handle_code [code]: "handle m h w = continue_handle (m w) h"
  by (simp add: handle_def continue_handle_def)

definition continue_finally :: "'a res \<times> world \<Rightarrow> unit io \<Rightarrow> 'a res \<times> world" where
  "continue_finally p c = (case p of (r, w) \<Rightarrow> if r = Inl Killed then (r, w)
     else (case c w of (Inl e, w') \<Rightarrow> (Inl e, w') | (Inr _, w') \<Rightarrow> (r, w')))"

lemma finally_code [code]: "finally_do m c w = continue_finally (m w) c"
  by (simp add: finally_do_def continue_finally_def)

lemmas [code] = ret_run raise_run reading_run lift_run guard_run

end
