(* ===== verification/Demo.thy ===== *)
theory Demo
  imports Running
begin

text \<open>
  Concrete inputs for the store: an environment whose hash is the length of
  its input and whose detector finds nothing, an empty repository, a repository
  with one registered plan, and runs of the operations on them, evaluated in the
  kernel.  They show that the hypotheses of the store's properties can hold.
\<close>

definition demo_env :: env where
  "demo_env = \<lparr>env_sha = (\<lambda>s. replicate 63 CHR ''0'' @ [hex_digit (length s mod 16)]), env_red = (\<lambda>_. False)\<rparr>"

definition demo_store :: store_paths where "demo_store = layout [''s'']"

definition world_of :: "(path \<Rightarrow> node option) \<Rightarrow> world" where
  "world_of nodes = \<lparr>w_node = nodes, w_bad = (\<lambda>_. False), w_noread = (\<lambda>_. False), w_faults = [],
     w_clock = (\<lambda>_. ''2026-01-01T00:00:00Z''), w_random = (\<lambda>n. CHR ''r'' # nat_str n), w_tick = 0, w_cwd = [],
     w_git = (\<lambda>_ _. None)\<rparr>"

definition demo_world :: world where
  "demo_world = world_of [[''s''] \<mapsto> Dir 448]"

section \<open>A registered plan\<close>

definition demo_hash :: "char \<Rightarrow> py" where
  "demo_hash c = PStr (''sha256:'' @ replicate 63 CHR ''0'' @ [c])"

definition demo_git :: py where
  "demo_git = PDict [(''branch'', PStr []), (''commit'', PStr []), (''repository_id'', PStr ''repo-000000000000000000000000''),
     (''workspace_instance_id'', PStr [])]"

definition demo_state :: pdict where
  "demo_state =
     [(''active_files'', PList []), (''classification'', PStr ''GREEN''), (''created_at'',
     PStr ''2026-01-01T00:00:00Z''), (''generation'', PInt 1), (''git'', demo_git), (''intent'',
     PStr ''progress-maintenance''), (''last_event_hash'', demo_hash CHR ''1''), (''last_event_sequence'', PInt 1),
     (''last_operation_id'', PStr ''op1''), (''latest_decision'', PNone), (''model_family'', PStr ''unknown''),
     (''model_source'', PStr ''unknown''), (''model_verified'', PBool False), (''next_action'', PStr ''next''),
     (''objective'', PStr ''obj''), (''open_blockers'', PList []), (''open_questions'', PList []), (''origin'',
     PStr ''implementation-progress''), (''phase'', PStr ''p1''), (''plan_id'', PStr ''plan-a''), (''plan_path'',
     PStr ''plans/a.md''), (''schema_version'', PInt 1), (''semantic_hash'', demo_hash CHR ''7''), (''status'',
     PStr ''planned''), (''updated_at'', PStr ''2026-01-01T00:00:00Z''), (''validation'', PDict []),
     (''writer_session_id'', PStr [])]"

definition demo_event :: pdict where
  "demo_event =
     [(''classification'', PStr ''GREEN''), (''event_id'', PStr ''evt-00000000000000000000000000000000''),
     (''evidence_codes'', PList []), (''git'', demo_git), (''intent'', PStr ''progress-maintenance''), (''kind'',
     PStr ''started''), (''model_family'', PStr ''unknown''), (''model_source'', PStr ''unknown''),
     (''model_verified'', PBool False), (''next_action'', PStr ''next''), (''operation_id'', PStr ''op1''),
     (''operation_payload_hash'', demo_hash CHR ''0''), (''origin'', PStr ''implementation-progress''), (''phase'',
     PStr ''p1''), (''plan_id'', PStr ''plan-a''), (''plan_path'', PStr ''plans/a.md''), (''previous_event_hash'',
     PStr []), (''reason'', PStr ''r''), (''record_hash'', demo_hash CHR ''1''), (''references'', PList []),
     (''schema_version'', PInt 1), (''sequence'', PInt 1), (''state_patch'', PDict [(''active_files'', PList []),
     (''classification'', PStr ''GREEN''), (''git'', demo_git), (''intent'', PStr ''progress-maintenance''),
     (''latest_decision'', PNone), (''model_family'', PStr ''unknown''), (''model_source'', PStr ''unknown''),
     (''model_verified'', PBool False), (''next_action'', PStr ''next''), (''objective'', PStr ''obj''),
     (''open_blockers'', PList []), (''open_questions'', PList []), (''origin'', PStr ''implementation-progress''),
     (''phase'', PStr ''p1''), (''plan_path'', PStr ''plans/a.md''), (''status'', PStr ''planned''), (''validation'',
     PDict [])]), (''state_semantic_hash'', demo_hash CHR ''7''), (''status'', PStr ''planned''), (''summary'',
     PStr ''sum''), (''timestamp'', PStr ''2026-01-01T00:00:00Z''), (''writer_session_id'', PStr [])]"

definition demo_manifest :: pdict where
  "demo_manifest =
     [(''canonical_repo_identity'', PStr ''repo-000000000000000000000000''), (''generation'', PInt 1), (''plans'',
     PList [PDict [(''branch'', PStr []), (''last_event_sequence'', PInt 1), (''plan_id'', PStr ''plan-a''),
     (''plan_path'', PStr ''plans/a.md''), (''semantic_hash'', demo_hash CHR ''7''), (''state_path'',
     PStr ''.local-notes/ralph/implementation/plans/plan-a/state.json''), (''status'', PStr ''planned''),
     (''workspace_instance_id'', PStr [])]]), (''schema_version'', PInt 1)]"

definition demo_ledger_record :: pdict where
  "demo_ledger_record = mk_dict [(''schema_version'', PInt 1), (''project_id'', PStr ''p''),
     (''workspace_instance_id'', PStr ''w''), (''session_id'', PStr ''s''), (''context_epoch'', PStr ''e''),
     (''plan_id'', PStr ''plan-a''), (''progress_generation'', PInt 1), (''capsule_kind'', PStr ''delta''),
     (''emission_id'', PStr ''x'')]"

text \<open>The tree is a function of the path, so that evaluation looks into it only where the program does.\<close>

definition demo_nodes :: "path \<Rightarrow> node option" where
  "demo_nodes q =
     (if q = [''s''] @ STORE_RELATIVE @ [''plans'', ''plan-a'', ''events.jsonl'']
        then Some (RegFile (json_line demo_event) 384 1)
      else if q = [''s''] @ STORE_RELATIVE @ [''plans'', ''plan-a'', ''state.json'']
        then Some (RegFile (json_bytes demo_state) 384 1)
      else if q = manifest demo_store then Some (RegFile (json_bytes demo_manifest) 384 1)
      else if q = context_ledger demo_store then Some (RegFile (json_line demo_ledger_record) 384 1)
      else if prefix q ([''s''] @ STORE_RELATIVE @ [''plans'', ''plan-a'']) \<and> q \<noteq> [] then Some (Dir 448)
      else None)"

definition demo_plan_world :: world where
  "demo_plan_world = world_of demo_nodes"

section \<open>Runs\<close>

definition demo_unplanned :: "world \<Rightarrow> store_result res \<times> world" where
  "demo_unplanned w = append_unplanned_commit demo_env demo_store ''op3'' ''tidy'' [] [] ''2026-01-01T00:00:00Z'' None w"

definition demo_claim :: "world \<Rightarrow> emission_result res \<times> world" where
  "demo_claim w = claim_context_emission demo_env demo_store (PDict demo_ledger_record) w"

lemma demo_unplanned_run: "(case demo_unplanned demo_world of (Inr res, w) \<Rightarrow> sr_changed res | _ \<Rightarrow> False)"
  by code_simp

lemma demo_claim_run: "(case demo_claim demo_world of (Inr res, w) \<Rightarrow> er_emitted res | _ \<Rightarrow> False)"
  by code_simp

lemma demo_claim_again: "(case demo_claim demo_plan_world of (Inr res, w) \<Rightarrow> \<not> er_emitted res | _ \<Rightarrow> False)"
  by code_simp

lemma demo_claim_twice: "(case demo_claim (snd (demo_claim demo_world)) of (Inr res, w) \<Rightarrow> \<not> er_emitted res | _ \<Rightarrow> False)"
  by code_simp

lemma demo_replay_run: "(case replay_plan demo_env demo_store ''plan-a'' ''2026-01-01T00:00:00Z'' demo_world of
    (Inr res, w) \<Rightarrow> sr_state res = None | _ \<Rightarrow> False)"
  by code_simp

section \<open>Records\<close>

lemma demo_event_wf: "event_wf demo_env False 0 False demo_event"
  by code_simp

lemma demo_state_valid: "validate_state demo_env (Some ''plan-a'') STATE_HARD_LIMIT_BYTES (PDict demo_state) = Inr demo_state"
  by code_simp

lemma demo_manifest_valid: "validate_manifest demo_env MANIFEST_HARD_LIMIT_BYTES (PDict demo_manifest) = Inr demo_manifest"
  by code_simp

lemma demo_chained: "chained demo_env 1 (PStr []) [demo_event]"
  unfolding chained_Cons by (simp only: chained_Nil simp_thms) code_simp

definition demo_earlier_state :: pdict where
  "demo_earlier_state = dupdate demo_state [(''generation'', PInt 0), (''last_event_hash'', PStr []),
     (''last_event_sequence'', PInt 0), (''last_operation_id'', PStr [])]"

lemma demo_earlier_wf: "state_wf demo_env STATE_HARD_LIMIT_BYTES demo_earlier_state"
  by code_simp

lemma demo_reconciled: "(case reconcile_state demo_env demo_earlier_state [demo_event] ''2026-01-01T00:00:00Z'' of
    Inr (s, needed) \<Rightarrow> needed | Inl e \<Rightarrow> False)"
  by code_simp

definition demo_later_state :: pdict where
  "demo_later_state = dset ''status'' (PStr ''active'') (dset ''last_event_sequence'' (PInt 2) demo_state)"

lemma demo_pointer: "(case manifest_candidate demo_env demo_store demo_manifest demo_later_state False of
    Inr (c, changed) \<Rightarrow> changed | Inl e \<Rightarrow> False)"
  by code_simp

lemma demo_update: "(case apply_update demo_state (PDict [(''phase'', PStr ''p2'')]) ''completed'' ''done'' [] of Inr c \<Rightarrow> True | Inl e \<Rightarrow> False)"
  by code_simp

definition demo_build :: "pdict \<Rightarrow> pdict res" where
  "demo_build payload = build_event demo_env ''plan-a'' demo_state ''op2'' ''decision'' ''chosen'' [] [] [] [] ''2026-01-01T00:00:00Z''
     (PInt 2) (demo_hash CHR ''1'') [] payload"

lemma demo_built: "(case demo_build [(''kind'', PStr ''a'')] of Inr c \<Rightarrow> True | Inl e \<Rightarrow> False)"
  "(case demo_build [(''kind'', PStr ''ab'')] of Inr c \<Rightarrow> True | Inl e \<Rightarrow> False)"
  by code_simp+

lemma demo_publish: "(case publish_json [''s'', ''j''] demo_state STATE_HARD_LIMIT_BYTES demo_world of
    (Inr md, w) \<Rightarrow> md = replace_metadata ''j'' (length (json_bytes demo_state)) | _ \<Rightarrow> False)"
  by code_simp

lemma demo_append: "(case append_jsonl [''s'', ''j''] [] 4096 None None None demo_world of
   (Inr md, w') \<Rightarrow> md = append_metadata ''j'' 3 | _ \<Rightarrow> False)"
  by code_simp

lemma demo_append_record: "(case append_jsonl [''s'', ''l''] demo_ledger_record CONTEXT_LEDGER_HARD_LIMIT_BYTES
      (Some CONTEXT_LEDGER_MAX_BYTES) (Some CONTEXT_LEDGER_MAX_RECORDS) (Some 0) demo_world of
   (Inr md, w') \<Rightarrow> \<not> w_noread w' [''s'', ''l''] | _ \<Rightarrow> False)"
  by code_simp

lemma demo_read_none: "(case read_jsonl demo_world (validate_context_ledger_record demo_env CONTEXT_LEDGER_HARD_LIMIT_BYTES)
      CONTEXT_LEDGER_MAX_BYTES CONTEXT_LEDGER_MAX_RECORDS [''s'', ''l''] of Inr (recs, partial) \<Rightarrow> recs = [] \<and> \<not> partial | Inl e \<Rightarrow> False)"
  by code_simp

lemma demo_record_valid: "validate_context_ledger_record demo_env CONTEXT_LEDGER_HARD_LIMIT_BYTES (PDict demo_ledger_record) = Inr demo_ledger_record"
  by code_simp

lemma demo_hex: "hex_lower (hex_digit (n mod 16))"
proof -
  have "n mod 16 \<in> set [0..<16]" by simp
  moreover have "list_all (\<lambda>d. hex_lower (hex_digit d)) [0..<16]" by code_simp
  ultimately show ?thesis by (simp add: list_all_iff del: set_upt)
qed

lemma demo_plans: "(case for_plan demo_world demo_store ''plan-a'' of Inr p \<Rightarrow> True | Inl e \<Rightarrow> False)"
  "(case for_plan demo_world demo_store ''plan-b'' of Inr p \<Rightarrow> True | Inl e \<Rightarrow> False)"
  by code_simp+

lemma demo_chain: "(case ensure_directory_chain 448 [''s'', ''a'', ''b''] demo_world of (Inr u, w') \<Rightarrow> True | _ \<Rightarrow> False)"
  by code_simp

end
