(* ===== verification/RuntimeBudget.thy ===== *)
theory RuntimeBudget
  imports PyJson
begin

text \<open>
  \<open>.codex/hooks/shared/runtime_budget.py\<close>: the tables of hook time-outs and of
  context limits, and the three accessors.  The cleanup margin, a float 1.0 in
  the code, is added to and compared with integers only, so it is an integer
  here.  The tables are consistent: an accessor fails with \<open>ValueError\<close> for an
  unknown key and never with \<open>RuntimeError\<close>.
\<close>

definition MIN_CLEANUP_MARGIN_SECONDS :: int where "MIN_CLEANUP_MARGIN_SECONDS = 1"

definition EXTERNAL_TIMEOUTS :: "((string \<times> string) \<times> int) list" where
  "EXTERNAL_TIMEOUTS = [
     ((''SessionStart'', ''session_start_dispatch''), 45),
     ((''UserPromptSubmit'', ''user_prompt_dispatch''), 10),
     ((''UserPromptSubmit'', ''user_prompt_capture''), 10),
     ((''PreToolUse'', ''security_pre_tool_dispatch''), 10),
     ((''PostToolUse'', ''post_tool_dispatch''), 10),
     ((''SubagentStart'', ''sol_advisor_subagent_context''), 10),
     ((''SubagentStop'', ''sol_advisor_subagent_stop''), 10),
     ((''Stop'', ''stop_dispatch''), 10)]"

definition CHILD_TIMEOUTS :: "((string \<times> string) \<times> int) list" where
  "CHILD_TIMEOUTS = [
     ((''UserPromptSubmit'', ''user_prompt_capture''), 8),
     ((''UserPromptSubmit'', ''user_prompt_dispatch''), 8)]"

definition CONTEXT_LIMITS :: "((string \<times> string) \<times> int) list" where
  "CONTEXT_LIMITS = [
     ((''SessionStart'', ''default''), 800),
     ((''UserPromptSubmit'', ''default''), 500),
     ((''SubagentStart'', ''default''), 16384)]"

text \<open>\<open>try: x = table[key] except KeyError: raise ValueError\<close>\<close>

definition table_get :: "((string \<times> string) \<times> int) list \<Rightarrow> string \<Rightarrow> string \<Rightarrow> int res" where
  "table_get tab event role = (case map_of tab (event, role) of None \<Rightarrow> Inl ValueError | Some v \<Rightarrow> Inr v)"

definition external_timeout_for :: "string \<Rightarrow> string \<Rightarrow> int res" where
  "external_timeout_for event role = table_get EXTERNAL_TIMEOUTS event role"

definition child_timeout_for :: "string \<Rightarrow> string \<Rightarrow> int res" where
  "child_timeout_for event role =
     bindE (table_get CHILD_TIMEOUTS event role) (\<lambda>child.
     bindE (external_timeout_for event role) (\<lambda>external.
     if child + MIN_CLEANUP_MARGIN_SECONDS \<ge> external then Inl RuntimeError else Inr child))"

definition context_limit_for :: "string \<Rightarrow> string \<Rightarrow> int res" where
  "context_limit_for event profile =
     bindE (table_get CONTEXT_LIMITS event profile) (\<lambda>limit.
     if limit \<le> 0 then Inl RuntimeError else Inr limit)"

definition context_capable_events :: "string list" where
  "context_capable_events = remdups (map (fst \<circ> fst) CONTEXT_LIMITS)"

section \<open>The tables are consistent\<close>

lemma table_get_cases: "table_get tab e r = Inl x \<Longrightarrow> x = ValueError \<and> (e, r) \<notin> fst ` set tab"
  by (auto simp: table_get_def map_of_eq_None_iff split: option.splits)

lemma table_get_in: "table_get tab e r = Inr v \<Longrightarrow> ((e, r), v) \<in> set tab"
  by (auto simp: table_get_def dest: map_of_SomeD split: option.splits)

lemma child_table_margin:
  "list_all (\<lambda>((e, r), c). 0 < c \<and> (\<exists>x. external_timeout_for e r = Inr x \<and> c + MIN_CLEANUP_MARGIN_SECONDS < x)) CHILD_TIMEOUTS"
  by (simp add: CHILD_TIMEOUTS_def external_timeout_for_def table_get_def EXTERNAL_TIMEOUTS_def MIN_CLEANUP_MARGIN_SECONDS_def)

lemma child_timeout_result:
  "child_timeout_for e r = (case map_of CHILD_TIMEOUTS (e, r) of None \<Rightarrow> Inl ValueError | Some c \<Rightarrow> Inr c)"
proof (cases "map_of CHILD_TIMEOUTS (e, r)")
  case (Some c)
  with child_table_margin map_of_SomeD [OF Some] show ?thesis
    by (fastforce simp: child_timeout_for_def table_get_def list_all_iff)
qed (simp add: child_timeout_for_def table_get_def)

lemma context_table_positive: "list_all (\<lambda>(k, l). 0 < l \<and> l \<le> 16384) CONTEXT_LIMITS"
  by (simp add: CONTEXT_LIMITS_def)

lemma context_limit_result:
  "context_limit_for e p = (case map_of CONTEXT_LIMITS (e, p) of None \<Rightarrow> Inl ValueError | Some l \<Rightarrow> Inr l)"
proof (cases "map_of CONTEXT_LIMITS (e, p)")
  case (Some l)
  with context_table_positive map_of_SomeD [OF Some] show ?thesis
    by (fastforce simp: context_limit_for_def table_get_def list_all_iff)
qed (simp add: context_limit_for_def table_get_def)

text \<open>Every role that has a child time-out keeps the cleanup margin below its outer time-out, and no lookup
  ever raises \<open>RuntimeError\<close>: a role is either in the tables or rejected with \<open>ValueError\<close>.\<close>

theorem child_timeout_margin:
  assumes "child_timeout_for e r = x"
  shows "(case x of
      Inl err \<Rightarrow> err = ValueError \<and> (e, r) \<notin> fst ` set CHILD_TIMEOUTS
    | Inr c \<Rightarrow> \<exists>outer. external_timeout_for e r = Inr outer \<and> 0 < c \<and> c + MIN_CLEANUP_MARGIN_SECONDS < outer)"
  using assms child_table_margin
  by (auto simp: child_timeout_result list_all_iff map_of_eq_None_iff dest!: map_of_SomeD split: option.splits)

theorem child_timeout_margin_witness:
  "child_timeout_for ''UserPromptSubmit'' ''user_prompt_capture'' = Inr 8
   \<and> (\<exists>outer. external_timeout_for ''UserPromptSubmit'' ''user_prompt_capture'' = Inr outer \<and> 8 + MIN_CLEANUP_MARGIN_SECONDS < outer)"
proof -
  have run: "child_timeout_for ''UserPromptSubmit'' ''user_prompt_capture'' = Inr 8"
    by (simp add: child_timeout_result CHILD_TIMEOUTS_def)
  from child_timeout_margin [OF run] run show ?thesis by simp
qed

text \<open>An event has a default context limit exactly when it is one of \<open>context_capable_events\<close>, and the limit is
  positive and at most 16384.\<close>

theorem context_limits_total:
  "(if e \<in> set context_capable_events
    then \<exists>l. context_limit_for e ''default'' = Inr l \<and> 0 < l \<and> l \<le> 16384
    else context_limit_for e ''default'' = Inl ValueError)"
  by (auto simp: context_limit_result context_capable_events_def CONTEXT_LIMITS_def)

end
