(* ===== verification/PyConv.thy ===== *)
theory PyConv
  imports PyJson
begin

text \<open>
  Conversions the hooks apply to untrusted values: \<open>int(v)\<close>, the text
  \<open>json.dumps\<close> writes with \<open>ensure_ascii=True\<close>, and white space normalisation.
\<close>

section \<open>Integers\<close>

text \<open>
  \<open>int(s)\<close> for a string: surrounding white space, a sign, digits with single
  underscores between them, at most 4300 digits.
\<close>

fun digit_run :: "string \<Rightarrow> bool" where
  "digit_run [] = False"
| "digit_run [c] = ascii_digit c"
| "digit_run (c # d # s) = (ascii_digit c \<and> (if d = CHR ''_'' then digit_run s else digit_run (d # s)))"

definition MAX_STR_DIGITS :: nat where "MAX_STR_DIGITS = 4300"

definition int_of_digits :: "bool \<Rightarrow> string \<Rightarrow> int res" where
  "int_of_digits neg s =
     (let ds = filter ascii_digit s in
      if \<not> digit_run s \<or> length ds > MAX_STR_DIGITS then Inl ValueError
      else Inr (if neg then - int (digits_val ds) else int (digits_val ds)))"

definition int_of_string :: "string \<Rightarrow> int res" where
  "int_of_string s = (case strip s of
     [] \<Rightarrow> Inl ValueError
   | c # t \<Rightarrow> if c = CHR ''-'' then int_of_digits True t
              else if c = CHR ''+'' then int_of_digits False t else int_of_digits False (c # t))"

text \<open>
  \<open>int(f)\<close> for a float given by its \<open>repr\<close>.  Below \<open>1e16\<close> the repr has no positive
  exponent and its integer part is the value; from there on the leading digit
  times the power of ten stands for the value, which every caller clamps to
  less than \<open>2^31\<close>.
\<close>

definition float_magnitude :: "string \<Rightarrow> int" where
  "float_magnitude s =
     (let whole = takeWhile ascii_digit s; rest = dropWhile (\<lambda>c. c \<noteq> CHR ''e'') s in
      if rest = [] then int (digits_val whole)
      else if starts_with rest ''e-'' then 0
      else int (digits_val whole) * 10 ^ digits_val (filter ascii_digit rest))"

definition int_of_float :: "string \<Rightarrow> int res" where
  "int_of_float s =
     (if s = ''nan'' then Inl ValueError
      else if s = ''inf'' \<or> s = ''-inf'' then Inl OverflowError
      else case s of c # t \<Rightarrow> if c = CHR ''-'' then Inr (- float_magnitude t) else Inr (float_magnitude s)
        | [] \<Rightarrow> Inr 0)"

definition py_int :: "py \<Rightarrow> int res" where
  "py_int v = (case v of
     PBool b \<Rightarrow> Inr (if b then 1 else 0) | PInt i \<Rightarrow> Inr i | PFloat s \<Rightarrow> int_of_float s
   | PStr s \<Rightarrow> int_of_string s | PNone \<Rightarrow> Inl TypeError | PList _ \<Rightarrow> Inl TypeError | PDict _ \<Rightarrow> Inl TypeError)"

section \<open>JSON in ASCII\<close>

definition ascii_char :: "char \<Rightarrow> string" where
  "ascii_char c = (if ordc c < (127 :: nat) then esc_char c
     else bslash # ''u00'' @ [hex_digit (ordc c div 16), hex_digit (ordc c mod 16)])"

definition ascii_str :: "string \<Rightarrow> string" where
  "ascii_str s = quote # concat (map ascii_char s) @ [quote]"

fun ascii_json :: "py \<Rightarrow> string" where
  "ascii_json PNone = ''null''"
| "ascii_json (PBool b) = (if b then ''true'' else ''false'')"
| "ascii_json (PInt i) = int_str i"
| "ascii_json (PFloat s) = s"
| "ascii_json (PStr s) = ascii_str s"
| "ascii_json (PList xs) = ''['' @ join '','' (map ascii_json xs) @ '']''"
| "ascii_json (PDict d) =
     ''{'' @ join '','' (map (\<lambda>(k, v). ascii_str k @ '':'' @ ascii_json v) d) @ ''}''"

section \<open>Bounded texts\<close>

text \<open>\<open>" ".join(value.split())[:limit]\<close>, empty for anything but a string.\<close>

definition squeeze :: "string \<Rightarrow> string" where
  "squeeze s = join '' '' (split_ws s)"

definition bounded_text :: "py \<Rightarrow> nat \<Rightarrow> string" where
  "bounded_text v limit = (case v of PStr s \<Rightarrow> take limit (squeeze s) | _ \<Rightarrow> [])"

lemma length_bounded_text [simp]: "length (bounded_text v n) \<le> n"
  by (simp add: bounded_text_def split: py.splits)

lemma split_ws_word:
  assumes "s \<noteq> []" "list_all (\<lambda>c. \<not> is_space c) s"
  shows "split_ws s = [s]"
proof -
  have d: "dropWhile is_space s = s" using assms by (cases s) auto
  have "takeWhile (\<lambda>c. \<not> is_space c) s = s" "dropWhile (\<lambda>c. \<not> is_space c) s = []"
    using assms(2) by (simp_all add: takeWhile_eq_all_conv dropWhile_eq_Nil_conv list_all_iff)
  moreover have "split_ws [] = []" by (simp add: split_ws.simps lstrip_def)
  ultimately show ?thesis
    using assms d by (subst split_ws.simps) (simp only: lstrip_def Let_def if_False)
qed

lemma bounded_text_word:
  "list_all (\<lambda>c. \<not> is_space c) s \<Longrightarrow> length s \<le> n \<Longrightarrow> bounded_text (PStr s) n = s"
  by (cases "s = []") (simp_all add: bounded_text_def squeeze_def split_ws_word, simp add: split_ws.simps lstrip_def)

end
