(* ===== verification/RuntimeProfile.thy ===== *)
theory RuntimeProfile
  imports PyJson
begin

text \<open>
  \<open>.codex/hooks/shared/runtime_profile.py\<close>: which safety profile and which
  progress budget a hook runs under, and with what evidence for the model that
  is active.  The process environment is a map, and the repository's
  \<open>config.toml\<close> is what \<open>tomllib.load\<close> made of it, \<open>None\<close> where the code catches
  \<open>OSError\<close> or \<open>TOMLDecodeError\<close>.
\<close>

section \<open>Profiles\<close>

record model_provenance =
  mp_family :: string
  mp_source :: string
  mp_verified :: bool

record progress_budget =
  recovery_bytes :: int
  delta_bytes :: int
  expanded_bytes :: int
  pb_advisor_budget :: int

record runtime_profile =
  rp_name :: string
  rp_model_family :: string
  prompt_context_bytes_soft :: int
  prompt_context_bytes_hard :: int
  session_context_bytes_soft :: int
  session_context_bytes_hard :: int
  recall_items :: int
  recall_word_budget :: int
  advisor_budget :: int
  max_stop_continuations :: int
  allow_prompt_improvement :: bool
  allow_repeated_route_context :: bool
  maintenance_mode :: string
  rp_model_source :: string
  rp_model_verified :: bool
  progress_recovery_bytes :: int
  progress_delta_bytes :: int
  progress_expanded_bytes :: int
  progress_advisor_budget :: int

definition safety_profile :: "runtime_profile \<Rightarrow> string" where
  "safety_profile p = rp_name p"

definition progress_budget_of :: "runtime_profile \<Rightarrow> progress_budget" where
  "progress_budget_of p = \<lparr>recovery_bytes = progress_recovery_bytes p, delta_bytes = progress_delta_bytes p,
     expanded_bytes = progress_expanded_bytes p, pb_advisor_budget = progress_advisor_budget p\<rparr>"

definition LUNA :: runtime_profile where
  "LUNA = \<lparr>rp_name = ''luna'', rp_model_family = ''luna'',
     prompt_context_bytes_soft = 1200, prompt_context_bytes_hard = 1800,
     session_context_bytes_soft = 1500, session_context_bytes_hard = 2200,
     recall_items = 2, recall_word_budget = 260, advisor_budget = 1, max_stop_continuations = 1,
     allow_prompt_improvement = True, allow_repeated_route_context = False, maintenance_mode = ''deferred'',
     rp_model_source = ''unknown'', rp_model_verified = False, progress_recovery_bytes = 96,
     progress_delta_bytes = 96, progress_expanded_bytes = 96, progress_advisor_budget = 0\<rparr>"

definition TERRA :: runtime_profile where
  "TERRA = \<lparr>rp_name = ''terra'', rp_model_family = ''terra'',
     prompt_context_bytes_soft = 960, prompt_context_bytes_hard = 1400,
     session_context_bytes_soft = 1200, session_context_bytes_hard = 1800,
     recall_items = 1, recall_word_budget = 180, advisor_budget = 0, max_stop_continuations = 1,
     allow_prompt_improvement = False, allow_repeated_route_context = False, maintenance_mode = ''deferred'',
     rp_model_source = ''unknown'', rp_model_verified = False, progress_recovery_bytes = 96,
     progress_delta_bytes = 96, progress_expanded_bytes = 96, progress_advisor_budget = 0\<rparr>"

definition SOL :: runtime_profile where
  "SOL = \<lparr>rp_name = ''sol'', rp_model_family = ''sol'',
     prompt_context_bytes_soft = 450, prompt_context_bytes_hard = 800,
     session_context_bytes_soft = 500, session_context_bytes_hard = 800,
     recall_items = 1, recall_word_budget = 120, advisor_budget = 0, max_stop_continuations = 1,
     allow_prompt_improvement = False, allow_repeated_route_context = False, maintenance_mode = ''deferred'',
     rp_model_source = ''unknown'', rp_model_verified = False, progress_recovery_bytes = 96,
     progress_delta_bytes = 96, progress_expanded_bytes = 96, progress_advisor_budget = 0\<rparr>"

definition CONSERVATIVE_UNKNOWN :: runtime_profile where
  "CONSERVATIVE_UNKNOWN = \<lparr>rp_name = ''conservative_unknown'', rp_model_family = ''unknown'',
     prompt_context_bytes_soft = 1200, prompt_context_bytes_hard = 2200,
     session_context_bytes_soft = 1500, session_context_bytes_hard = 2200,
     recall_items = 2, recall_word_budget = 220, advisor_budget = 1, max_stop_continuations = 1,
     allow_prompt_improvement = True, allow_repeated_route_context = False, maintenance_mode = ''deferred'',
     rp_model_source = ''unknown'', rp_model_verified = False, progress_recovery_bytes = 96,
     progress_delta_bytes = 96, progress_expanded_bytes = 96, progress_advisor_budget = 0\<rparr>"

section \<open>Which model is active\<close>

definition MODEL_FAMILIES :: "string list" where
  "MODEL_FAMILIES = [''luna'', ''terra'', ''sol'', ''unknown'']"
definition MODEL_SOURCES :: "string list" where
  "MODEL_SOURCES = [''payload'', ''environment'', ''repository-default'', ''unknown'']"
definition MODEL_KEYS :: "string list" where
  "MODEL_KEYS = [''model'', ''model_name'', ''modelName'', ''model_id'', ''modelId'']"
definition PROFILE_VALUES :: "string list" where
  "PROFILE_VALUES = [''auto'', ''luna'', ''terra'', ''sol'', ''conservative'']"

definition string_value :: "py \<Rightarrow> string" where
  "string_value v = (case v of PStr s \<Rightarrow> strip s | _ \<Rightarrow> [])"

fun first_model :: "pdict \<Rightarrow> string list \<Rightarrow> string" where
  "first_model d [] = []"
| "first_model d (k # ks) = (let v = string_value (dget d k PNone) in if v \<noteq> [] then v else first_model d ks)"

fun nested_model :: "pdict \<Rightarrow> string list \<Rightarrow> string" where
  "nested_model payload [] = []"
| "nested_model payload (k # ks) =
     (case dget payload k PNone of
        PDict d \<Rightarrow> let v = first_model d MODEL_KEYS in if v \<noteq> [] then v else nested_model payload ks
      | _ \<Rightarrow> nested_model payload ks)"

definition model_from_payload :: "pdict \<Rightarrow> string" where
  "model_from_payload payload =
     (let v = first_model payload MODEL_KEYS in
      if v \<noteq> [] then v
      else nested_model payload [''runtime'', ''context'', ''metadata'', ''agent'', ''subagent''])"

definition model_from_config :: "pdict option \<Rightarrow> string" where
  "model_from_config config = (case config of None \<Rightarrow> [] | Some d \<Rightarrow> string_value (dget d ''model'' PNone))"

definition classify_model :: "string \<Rightarrow> string" where
  "classify_model model =
     (let n = replace_char (CHR '' '') (CHR ''-'') (replace_char (CHR ''_'') (CHR ''-'') (str_lower model)) in
      if n = ''sol'' \<or> contains n ''gpt-5.6-sol'' \<or> ends_with n ''-sol'' then ''sol''
      else if n = ''luna'' \<or> contains n ''gpt-5.6-luna'' \<or> ends_with n ''-luna'' then ''luna''
      else if n = ''terra'' \<or> contains n ''gpt-5.6-terra'' \<or> ends_with n ''-terra'' then ''terra''
      else ''unknown'')"

definition profile_for_family :: "string \<Rightarrow> runtime_profile" where
  "profile_for_family family = (if family = ''luna'' then LUNA else if family = ''sol'' then SOL
     else if family = ''terra'' then TERRA else CONSERVATIVE_UNKNOWN)"

definition is_progress_maintenance :: "py \<Rightarrow> py \<Rightarrow> bool" where
  "is_progress_maintenance origin intent =
     (str_lower (string_value origin) = ''implementation-progress''
      \<and> replace_char (CHR ''_'') (CHR ''-'') (str_lower (string_value intent)) = ''progress-maintenance'')"

definition progress_budget_for_provenance :: "model_provenance \<Rightarrow> progress_budget" where
  "progress_budget_for_provenance p =
     (if mp_family p = ''luna'' \<and> mp_verified p
      then \<lparr>recovery_bytes = 512, delta_bytes = 256, expanded_bytes = 1024, pb_advisor_budget = 0\<rparr>
      else if mp_family p = ''terra'' \<and> mp_verified p
      then \<lparr>recovery_bytes = 192, delta_bytes = 192, expanded_bytes = 192, pb_advisor_budget = 0\<rparr>
      else \<lparr>recovery_bytes = 96, delta_bytes = 96, expanded_bytes = 96, pb_advisor_budget = 0\<rparr>)"

section \<open>Resolution\<close>

type_synonym environ = "string \<Rightarrow> string option"

definition env_model :: "environ \<Rightarrow> string" where
  "env_model env = strip (case env ''RALPH_MODEL'' of
     Some (c # s) \<Rightarrow> c # s | _ \<Rightarrow> (case env ''CODEX_MODEL'' of Some s \<Rightarrow> s | None \<Rightarrow> []))"

definition model_provenance_from_payload :: "environ \<Rightarrow> pdict option \<Rightarrow> pdict \<Rightarrow> model_provenance" where
  "model_provenance_from_payload env config payload =
     (let m1 = model_from_payload payload;
          (m2, s2) = (if m1 \<noteq> [] then (m1, ''payload'')
                      else (env_model env, if env_model env \<noteq> [] then ''environment'' else []));
          (model, src) = (if m2 \<noteq> [] then (m2, s2)
                          else (model_from_config config,
                                if model_from_config config \<noteq> [] then ''repository-default'' else ''unknown''));
          family0 = classify_model model;
          family = (if family0 \<in> set MODEL_FAMILIES then family0 else ''unknown'');
          src' = (if src \<in> set MODEL_SOURCES then src else ''unknown'')
      in \<lparr>mp_family = family, mp_source = src',
          mp_verified = (src' \<in> {''payload'', ''environment''} \<and> family \<noteq> ''unknown'')\<rparr>)"

definition scaffold_override :: "environ \<Rightarrow> string" where
  "scaffold_override env = str_lower (strip (case env ''RALPH_SCAFFOLD_PROFILE'' of Some s \<Rightarrow> s | None \<Rightarrow> ''auto''))"

definition profile_template :: "string \<Rightarrow> string \<Rightarrow> runtime_profile" where
  "profile_template override family =
     (if override \<notin> set PROFILE_VALUES then CONSERVATIVE_UNKNOWN
      else if override \<in> {''luna'', ''terra'', ''sol''} then profile_for_family override
      else if override = ''conservative'' then CONSERVATIVE_UNKNOWN
      else profile_for_family family)"

definition profile_from_payload :: "environ \<Rightarrow> pdict option \<Rightarrow> pdict \<Rightarrow> runtime_profile" where
  "profile_from_payload env config payload =
     (let provenance = model_provenance_from_payload env config payload;
          template = profile_template (scaffold_override env) (mp_family provenance);
          budget = progress_budget_for_provenance provenance
      in template\<lparr>rp_model_family := mp_family provenance, rp_model_source := mp_source provenance,
           rp_model_verified := mp_verified provenance, progress_recovery_bytes := recovery_bytes budget,
           progress_delta_bytes := delta_bytes budget, progress_expanded_bytes := expanded_bytes budget,
           progress_advisor_budget := pb_advisor_budget budget\<rparr>)"

section \<open>Properties\<close>

lemma classify_model_family: "classify_model m \<in> set MODEL_FAMILIES"
  by (simp add: classify_model_def MODEL_FAMILIES_def Let_def)

text \<open>Provenance is verified only on evidence of the current turn.\<close>

lemma provenance_cases:
  "model_provenance_from_payload env config payload =
     (if model_from_payload payload \<noteq> []
      then \<lparr>mp_family = classify_model (model_from_payload payload), mp_source = ''payload'',
            mp_verified = (classify_model (model_from_payload payload) \<noteq> ''unknown'')\<rparr>
      else if env_model env \<noteq> []
      then \<lparr>mp_family = classify_model (env_model env), mp_source = ''environment'',
            mp_verified = (classify_model (env_model env) \<noteq> ''unknown'')\<rparr>
      else \<lparr>mp_family = classify_model (model_from_config config),
            mp_source = (if model_from_config config \<noteq> [] then ''repository-default'' else ''unknown''),
            mp_verified = False\<rparr>)"
  using classify_model_family by (simp add: model_provenance_from_payload_def Let_def MODEL_SOURCES_def)

lemma profile_fields:
  "rp_model_family (profile_from_payload env config payload) = mp_family (model_provenance_from_payload env config payload)"
  "rp_model_source (profile_from_payload env config payload) = mp_source (model_provenance_from_payload env config payload)"
  "rp_model_verified (profile_from_payload env config payload) = mp_verified (model_provenance_from_payload env config payload)"
  "progress_budget_of (profile_from_payload env config payload)
     = progress_budget_for_provenance (model_provenance_from_payload env config payload)"
  by (simp_all add: profile_from_payload_def Let_def progress_budget_of_def)

lemma templates:
  "profile_template ov fam \<in> {LUNA, TERRA, SOL, CONSERVATIVE_UNKNOWN}"
  by (simp add: profile_template_def profile_for_family_def)


text \<open>Only a verified model gets more than the pointer-only progress budget.\<close>

lemma unverified_pointer_only:
  "\<not> mp_verified p \<Longrightarrow> expanded_bytes (progress_budget_for_provenance p) = 96"
  by (simp add: progress_budget_for_provenance_def)




end
