(* ===== verification/AgentBudget.thy ===== *)
theory AgentBudget
  imports PyConv Schema RuntimeProfile "HOL-Library.Code_Target_Nat"
begin

text \<open>
  \<open>.codex/hooks/shared/agent_budget.py\<close>: the ledger of spawned workers and
  advisors, the decision whether another one may start, and the packet handed
  to an advisor.  The hash and the sensitivity detector are those of \<open>env\<close>.
  A stored ledger is untrusted JSON; \<open>normalize_ledger\<close> is the way in.
\<close>

definition AB_SCHEMA_VERSION :: int where "AB_SCHEMA_VERSION = 1"
definition MAX_THREADS :: int where "MAX_THREADS = 2"
definition MAX_DEPTH :: int where "MAX_DEPTH = 1"
definition MAX_TASK_JOBS :: int where "MAX_TASK_JOBS = 2"
definition MAX_TASK_ADVISORS :: int where "MAX_TASK_ADVISORS = 1"
definition MAX_PACKET_BYTES :: int where "MAX_PACKET_BYTES = 4096"
definition MAX_SUBAGENT_BRIEF_BYTES :: int where "MAX_SUBAGENT_BRIEF_BYTES = 16384"
definition MAX_RESULT_BYTES :: int where "MAX_RESULT_BYTES = 4096"
definition MAX_REASON_CODES :: nat where "MAX_REASON_CODES = 8"
definition MAX_FAILURE_FINGERPRINTS :: nat where "MAX_FAILURE_FINGERPRINTS = 8"
definition MAX_TIMESTAMPS :: nat where "MAX_TIMESTAMPS = 8"
definition MAX_INT :: int where "MAX_INT = 2 ^ 31 - 1"

lemmas budget_limits = MAX_THREADS_def MAX_DEPTH_def MAX_TASK_JOBS_def MAX_TASK_ADVISORS_def
  MAX_SUBAGENT_BRIEF_BYTES_def MAX_RESULT_BYTES_def MAX_INT_def

record decision_result =
  bd_allowed :: bool
  bd_reason :: string
  bd_remaining_jobs :: int
  bd_remaining_advisors :: int

section \<open>Codes and identities\<close>

definition short_hash :: "env \<Rightarrow> string \<Rightarrow> string" where
  "short_hash E s = take 24 (env_sha E (utf8_encode s))"

definition code_char :: "char \<Rightarrow> bool" where
  "code_char c = (ascii_lower c \<or> ascii_digit c \<or> c = CHR ''_'' \<or> c = CHR ''.'' \<or> c = CHR '':'' \<or> c = CHR ''-'')"

definition safe_code :: "env \<Rightarrow> py \<Rightarrow> string \<Rightarrow> string" where
  "safe_code E v code_kind =
     (let text = str_lower (bounded_text v 96) in
      if text \<noteq> [] \<and> list_all code_char text then text
      else if text \<noteq> [] then code_kind @ ''-'' @ short_hash E text else [])"

fun first_of :: "pdict \<Rightarrow> string list \<Rightarrow> py" where
  "first_of d [] = PNone"
| "first_of d [k] = dget d k PNone"
| "first_of d (k # ks) = py_or (dget d k PNone) (first_of d ks)"

definition task_signature :: "env \<Rightarrow> pdict \<Rightarrow> string \<Rightarrow> string" where
  "task_signature E payload prompt =
     (let model = bounded_text (first_of payload [''model'', ''model_name'']) 96;
          branch = bounded_text (first_of payload [''branch'', ''git_branch'']) 160;
          workspace = bounded_text (first_of payload [''workspace_identity'', ''workspace'', ''cwd'']) 240;
          project = bounded_text (first_of payload [''project_id'', ''project'']) 160;
          intent = str_lower (bounded_text (first_of payload [''intent'', ''task_type'']) 96);
          sensitivity0 = str_upper (bounded_text (first_of payload
            [''sensitivity'', ''classification'', ''sensitivity_class'']) 32);
          sensitivity = (if sensitivity0 = [] \<and> prompt \<noteq> [] \<and> env_red E prompt then ''RED'' else sensitivity0);
          checkpoint = bounded_text (first_of payload [''checkpoint_identity'', ''checkpoint_hash'']) 96;
          prompt_hash = (if prompt \<noteq> [] then short_hash E (str_lower (squeeze prompt))
                         else bounded_text (dget payload ''prompt_hash'' PNone) 96)
      in short_hash E (ascii_json (PDict (mk_dict [
           (''project'', PStr project), (''workspace'', PStr workspace), (''branch'', PStr branch),
           (''prompt_hash'', PStr prompt_hash), (''intent'', PStr intent), (''sensitivity'', PStr sensitivity),
           (''model_family'', PStr (classify_model model)), (''checkpoint'', PStr checkpoint),
           (''session'', PStr (bounded_text (first_of payload [''session_id'', ''sessionId'']) 96))]))))"

section \<open>The ledger\<close>

text \<open>\<open>_ints\<close>: a number clamped to \<open>0..maximum\<close>, the default where \<open>int\<close> raises \<open>TypeError\<close> or \<open>ValueError\<close>.\<close>

definition clamp :: "int \<Rightarrow> int \<Rightarrow> int" where
  "clamp maximum i = max 0 (min i maximum)"

definition ints :: "int \<Rightarrow> int \<Rightarrow> py \<Rightarrow> int res" where
  "ints dflt maximum v = (case py_int v of
     Inr i \<Rightarrow> Inr (clamp maximum i)
   | Inl e \<Rightarrow> if e = TypeError \<or> e = ValueError then Inr dflt else Inl e)"

record ledger =
  lg_task_signature :: string
  agents_started :: int
  advisors_started :: int
  workers_started :: int
  worker_reserved_jobs :: int
  reserved_jobs :: int
  lg_reasons :: "string list"
  lg_failures :: "string list"
  bytes_sent :: int
  bytes_received :: int
  lg_timestamps :: "string list"
  lg_updated_at :: string

definition ledger_dict :: "ledger \<Rightarrow> pdict" where
  "ledger_dict l = mk_dict [
     (''schema_version'', PInt AB_SCHEMA_VERSION), (''task_signature'', PStr (lg_task_signature l)),
     (''max_threads'', PInt MAX_THREADS), (''max_depth'', PInt MAX_DEPTH),
     (''agents_started'', PInt (agents_started l)), (''advisors_started'', PInt (advisors_started l)),
     (''workers_started'', PInt (workers_started l)), (''worker_reserved_jobs'', PInt (worker_reserved_jobs l)),
     (''reserved_jobs'', PInt (reserved_jobs l)), (''reasons'', PList (map PStr (lg_reasons l))),
     (''failure_fingerprints'', PList (map PStr (lg_failures l))), (''bytes_sent'', PInt (bytes_sent l)),
     (''bytes_received'', PInt (bytes_received l)), (''timestamps'', PList (map PStr (lg_timestamps l))),
     (''updated_at'', PStr (lg_updated_at l))]"

definition list_of :: "py \<Rightarrow> py list" where
  "list_of v = (case v of PList xs \<Rightarrow> xs | _ \<Rightarrow> [])"

definition codes_of :: "env \<Rightarrow> string \<Rightarrow> py list \<Rightarrow> string list" where
  "codes_of E code_kind vs = filter (\<lambda>s. s \<noteq> []) (map (\<lambda>v. safe_code E v code_kind) vs)"

definition texts_of :: "nat \<Rightarrow> py list \<Rightarrow> string list" where
  "texts_of n vs = filter (\<lambda>s. s \<noteq> []) (map (\<lambda>v. bounded_text v n) vs)"

text \<open>\<open>now_repr\<close> is \<open>str(float(now))\<close>, the text that replaces a missing \<open>updated_at\<close>.\<close>

definition normalize_ledger :: "env \<Rightarrow> pdict \<Rightarrow> string \<Rightarrow> string \<Rightarrow> ledger res" where
  "normalize_ledger E src signature now_repr =
     bindE (ints 0 MAX_TASK_JOBS (dget src ''agents_started'' PNone)) (\<lambda>agents.
     bindE (ints 0 MAX_TASK_ADVISORS (dget src ''advisors_started'' PNone)) (\<lambda>advisors.
     bindE (ints 0 MAX_TASK_JOBS (dget src ''workers_started'' PNone)) (\<lambda>workers.
     bindE (ints 0 MAX_TASK_JOBS (dget src ''worker_reserved_jobs'' PNone)) (\<lambda>worker_reserved.
     bindE (ints 0 MAX_TASK_JOBS (dget src ''reserved_jobs'' PNone)) (\<lambda>reserved.
     bindE (ints 0 (MAX_SUBAGENT_BRIEF_BYTES * MAX_TASK_JOBS) (dget src ''bytes_sent'' PNone)) (\<lambda>sent.
     bindE (ints 0 (MAX_RESULT_BYTES * MAX_TASK_JOBS) (dget src ''bytes_received'' PNone)) (\<lambda>received.
     let updated = bounded_text (dget src ''updated_at'' PNone) 48;
         agents' = min (min agents MAX_THREADS) (MAX_DEPTH + MAX_TASK_JOBS - 1)
     in Inr \<lparr>
       lg_task_signature = bounded_text (py_or (dget src ''task_signature'' PNone) (PStr signature)) 96,
       agents_started = agents', advisors_started = advisors, workers_started = workers,
       worker_reserved_jobs = worker_reserved,
       reserved_jobs = min (max reserved worker_reserved) (max 0 (MAX_THREADS - agents')),
       lg_reasons = last_n MAX_REASON_CODES (codes_of E ''reason'' (list_of (dget src ''reasons'' (PList [])))),
       lg_failures = last_n MAX_FAILURE_FINGERPRINTS
         (codes_of E ''failure'' (list_of (dget src ''failure_fingerprints'' (PList [])))),
       bytes_sent = sent, bytes_received = received,
       lg_timestamps = last_n MAX_TIMESTAMPS (texts_of 48 (list_of (dget src ''timestamps'' (PList [])))),
       lg_updated_at = (if updated = [] then now_repr else updated)\<rparr>)))))))"

section \<open>The decision\<close>

record spawn_request =
  sq_kind :: string
  sq_sensitivity :: string
  sq_executor_model :: string
  sq_depth :: py
  sq_independent :: bool
  sq_critical_review :: bool
  sq_failures :: "string list"
  sq_origin :: string
  sq_intent :: string

definition denied :: "string \<Rightarrow> int \<Rightarrow> int \<Rightarrow> decision_result" where
  "denied reason jobs advisors = \<lparr>bd_allowed = False, bd_reason = reason, bd_remaining_jobs = jobs,
     bd_remaining_advisors = advisors\<rparr>"

definition budget_decision_on :: "ledger \<Rightarrow> spawn_request \<Rightarrow> int \<Rightarrow> decision_result" where
  "budget_decision_on state q depth =
     (let kind = str_lower (bounded_text (PStr (sq_kind q)) 32);
          sensitivity0 = str_upper (bounded_text (PStr (sq_sensitivity q)) 16);
          sensitivity = (if sensitivity0 = [] then ''GREEN'' else sensitivity0);
          failures = filter (\<lambda>f. f \<noteq> []) (sq_failures q);
          all_failures = remdups (lg_failures state @ failures);
          remaining_jobs = max 0 (MAX_TASK_JOBS - (agents_started state + reserved_jobs state));
          remaining_advisors = max 0 (MAX_TASK_ADVISORS - advisors_started state)
      in if is_progress_maintenance (PStr (sq_origin q)) (PStr (sq_intent q))
           then denied ''local-deterministic-progress-maintenance'' 0 0
         else if sensitivity = ''RED'' then denied ''red-local-only'' 0 0
         else if depth \<ge> MAX_DEPTH then denied ''max-depth-reached'' 0 remaining_advisors
         else if kind \<notin> {''worker'', ''advisor''} then denied ''unknown-delegation-kind'' 0 0
         else if classify_model (sq_executor_model q) = ''sol'' \<and> kind = ''advisor'' \<and> \<not> sq_critical_review q
           then denied ''sol-self-supervision-suppressed'' 0 0
         else if (failures \<noteq> [] \<or> lg_failures state \<noteq> []) \<and> length all_failures < 2
           then denied ''inspect-first-failure-locally'' 0 remaining_advisors
         else if remaining_jobs \<le> 0 then denied ''task-job-budget-exhausted'' 0 remaining_advisors
         else if kind = ''advisor'' \<and> remaining_advisors \<le> 0 then denied ''advisor-budget-exhausted'' remaining_jobs 0
         else if \<not> sq_independent q \<and> kind = ''worker''
           then denied ''independent-block-required'' remaining_jobs remaining_advisors
         else \<lparr>bd_allowed = True, bd_reason = ''budget-available'', bd_remaining_jobs = remaining_jobs,
                bd_remaining_advisors = remaining_advisors\<rparr>)"

definition budget_decision :: "env \<Rightarrow> pdict \<Rightarrow> spawn_request \<Rightarrow> decision_result res" where
  "budget_decision E src q =
     bindE (normalize_ledger E src [] []) (\<lambda>state.
     if is_progress_maintenance (PStr (sq_origin q)) (PStr (sq_intent q))
        \<or> str_upper (bounded_text (PStr (sq_sensitivity q)) 16) = ''RED''
     then Inr (budget_decision_on state q 0)
     else bindE (ints 0 MAX_INT (sq_depth q)) (\<lambda>depth. Inr (budget_decision_on state q depth)))"

section \<open>Recording\<close>

definition add_timestamp :: "string \<Rightarrow> ledger \<Rightarrow> ledger" where
  "add_timestamp ts l = (if ts = [] then l
     else l\<lparr>lg_timestamps := last_n MAX_TIMESTAMPS (lg_timestamps l @ [bounded_text (PStr ts) 48])\<rparr>)"

definition add_reason :: "env \<Rightarrow> string \<Rightarrow> ledger \<Rightarrow> ledger" where
  "add_reason E reason l = (let code = safe_code E (PStr reason) ''reason'' in
     if reason = [] \<or> code = [] then l
     else l\<lparr>lg_reasons := last_n MAX_REASON_CODES (lg_reasons l @ [code])\<rparr>)"

definition count_spawn :: "string \<Rightarrow> ledger \<Rightarrow> ledger" where
  "count_spawn kind l =
     (let l1 = (if agents_started l < MAX_TASK_JOBS then l\<lparr>agents_started := agents_started l + 1\<rparr> else l);
          l2 = (if kind = ''advisor'' then l1\<lparr>advisors_started := min MAX_TASK_ADVISORS (advisors_started l1 + 1)\<rparr>
                else if kind = ''worker'' then l1\<lparr>workers_started := min MAX_TASK_JOBS (workers_started l1 + 1),
                       worker_reserved_jobs := max 0 (worker_reserved_jobs l1 - 1)\<rparr>
                else l1)
      in l2\<lparr>reserved_jobs := max 0 (reserved_jobs l2 - 1)\<rparr>)"

definition record_spawn ::
    "env \<Rightarrow> pdict \<Rightarrow> string \<Rightarrow> string \<Rightarrow> py \<Rightarrow> py \<Rightarrow> string \<Rightarrow> string \<Rightarrow> string \<Rightarrow> ledger res" where
  "record_spawn E src kind reason sent received timestamp signature now_repr =
     bindE (normalize_ledger E src signature now_repr) (\<lambda>state.
     let l1 = add_reason E reason (count_spawn (str_lower (bounded_text (PStr kind) 32)) state) in
     bindE (ints 0 MAX_INT sent) (\<lambda>s.
     bindE (ints 0 MAX_INT received) (\<lambda>r.
     Inr (add_timestamp timestamp (l1\<lparr>
       bytes_sent := min (MAX_SUBAGENT_BRIEF_BYTES * MAX_TASK_JOBS) (bytes_sent l1 + s),
       bytes_received := min (MAX_RESULT_BYTES * MAX_TASK_JOBS) (bytes_received l1 + r)\<rparr>)))))"

definition record_result :: "env \<Rightarrow> pdict \<Rightarrow> py \<Rightarrow> string \<Rightarrow> string \<Rightarrow> string \<Rightarrow> ledger res" where
  "record_result E src received timestamp signature now_repr =
     bindE (normalize_ledger E src signature now_repr) (\<lambda>l.
     bindE (ints 0 MAX_INT received) (\<lambda>r.
     Inr (add_timestamp timestamp (l\<lparr>
       bytes_received := min (MAX_RESULT_BYTES * MAX_TASK_JOBS) (bytes_received l + r)\<rparr>))))"

definition record_failure :: "env \<Rightarrow> pdict \<Rightarrow> string \<Rightarrow> string \<Rightarrow> string \<Rightarrow> ledger res" where
  "record_failure E src fingerprint signature now_repr =
     bindE (normalize_ledger E src signature now_repr) (\<lambda>l.
     let code = safe_code E (PStr fingerprint) ''failure'' in
     Inr (if code \<noteq> [] \<and> code \<notin> set (lg_failures l)
          then l\<lparr>lg_failures := last_n MAX_FAILURE_FINGERPRINTS (lg_failures l @ [code])\<rparr> else l))"

section \<open>The packet of an advisor\<close>

record packet =
  pk_question :: string
  pk_context :: string
  pk_files :: "string list"
  pk_constraints :: string
  pk_output_format :: string
  pk_budget :: int

definition packet_dict :: "packet \<Rightarrow> pdict" where
  "packet_dict p = mk_dict [(''question'', PStr (pk_question p)), (''context'', PStr (pk_context p)),
     (''files'', PList (map PStr (pk_files p))), (''constraints'', PStr (pk_constraints p)),
     (''output_format'', PStr (pk_output_format p)), (''budget_bytes'', PInt (pk_budget p))]"

definition packet_bytes :: "pdict \<Rightarrow> nat" where
  "packet_bytes d = length (utf8_encode (ascii_json (PDict d)))"

definition redacted_text :: "env \<Rightarrow> nat \<Rightarrow> string \<Rightarrow> string" where
  "redacted_text E n s = (if env_red E s then ''[redacted-local-only]'' else bounded_text (PStr s) n)"

definition field_order :: "string list" where
  "field_order = [''question'', ''context'', ''constraints'', ''output_format'']"

definition pk_get :: "packet \<Rightarrow> string \<Rightarrow> string" where
  "pk_get p k = (if k = ''question'' then pk_question p else if k = ''context'' then pk_context p
     else if k = ''constraints'' then pk_constraints p else pk_output_format p)"

definition pk_halve :: "packet \<Rightarrow> string \<Rightarrow> packet" where
  "pk_halve p k = (let h = (\<lambda>s. take (length s div 2) s) in
     if k = ''question'' then p\<lparr>pk_question := h (pk_question p)\<rparr>
     else if k = ''context'' then p\<lparr>pk_context := h (pk_context p)\<rparr>
     else if k = ''constraints'' then p\<lparr>pk_constraints := h (pk_constraints p)\<rparr>
     else p\<lparr>pk_output_format := h (pk_output_format p)\<rparr>)"

text \<open>\<open>max(candidates, key=len)\<close>: the first of the longest.\<close>

fun longest :: "packet \<Rightarrow> string list \<Rightarrow> string" where
  "longest p [] = []"
| "longest p [k] = k"
| "longest p (k # ks) = (let m = longest p ks in if length (pk_get p m) > length (pk_get p k) then m else k)"

definition emptied :: "packet \<Rightarrow> packet" where
  "emptied p = p\<lparr>pk_question := [], pk_context := [], pk_constraints := [], pk_output_format := [], pk_files := []\<rparr>"

definition pk_weight :: "packet \<Rightarrow> nat" where
  "pk_weight p = length (pk_files p) + length (pk_question p) + length (pk_context p)
     + length (pk_constraints p) + length (pk_output_format p)"

lemma longest_in: "ks \<noteq> [] \<Longrightarrow> longest p ks \<in> set ks"
  by (induction p ks rule: longest.induct) (auto simp: Let_def)

lemma pk_halve_weight:
  assumes "k \<in> set field_order" "pk_get p k \<noteq> []"
  shows "pk_weight (pk_halve p k) < pk_weight p"
proof -
  have h: "length s \<le> length s div 2 \<longleftrightarrow> s = []" for s :: string by (cases s) auto
  show ?thesis
    using assms h by (auto simp: field_order_def pk_weight_def pk_halve_def Let_def pk_get_def min_def split: if_splits)
qed

function shrink :: "nat \<Rightarrow> packet \<Rightarrow> packet" where
  "shrink limit p =
     (if packet_bytes (packet_dict p) \<le> limit then p
      else if pk_files p \<noteq> [] then shrink limit (p\<lparr>pk_files := take (length (pk_files p) div 2) (pk_files p)\<rparr>)
      else let candidates = filter (\<lambda>k. pk_get p k \<noteq> []) field_order in
        if candidates \<noteq> [] then shrink limit (pk_halve p (longest p candidates)) else emptied p)"
  by pat_completeness auto
termination
proof (relation "measure (\<lambda>(n, p). pk_weight p)", goal_cases)
  case (2 limit p)
  then show ?case by (cases "pk_files p") (auto simp: pk_weight_def min_def)
next
  case (3 limit p candidates)
  then have "longest p candidates \<in> set candidates" by (intro longest_in)
  with 3 show ?case by (auto intro: pk_halve_weight)
qed simp

declare shrink.simps [simp del]

definition first_packet :: "env \<Rightarrow> string \<Rightarrow> string \<Rightarrow> py list \<Rightarrow> string \<Rightarrow> string \<Rightarrow> int \<Rightarrow> packet" where
  "first_packet E question context_text files constraints output_format limit =
     \<lparr>pk_question = redacted_text E 800 question, pk_context = redacted_text E 1600 context_text,
      pk_files = take 12 (texts_of 180 files), pk_constraints = redacted_text E 800 constraints,
      pk_output_format = bounded_text (PStr output_format) 240, pk_budget = limit\<rparr>"

definition cut_packet :: "packet \<Rightarrow> packet" where
  "cut_packet p = p\<lparr>pk_files := take 4 (pk_files p),
     pk_context := take (nat (pk_budget p div 3)) (pk_context p),
     pk_constraints := take (nat (pk_budget p div 6)) (pk_constraints p),
     pk_question := take (nat (pk_budget p div 4)) (pk_question p)\<rparr>"

definition bounded_packet ::
    "env \<Rightarrow> string \<Rightarrow> string \<Rightarrow> py list \<Rightarrow> string \<Rightarrow> string \<Rightarrow> py \<Rightarrow> packet res" where
  "bounded_packet E question context_text files constraints output_format budget_bytes =
     bindE (ints MAX_PACKET_BYTES MAX_INT budget_bytes) (\<lambda>b.
     let limit = max 256 (min MAX_PACKET_BYTES b);
         p = first_packet E question context_text files constraints output_format limit
     in Inr (if packet_bytes (packet_dict p) \<le> nat limit then p else shrink (nat limit) (cut_packet p)))"

section \<open>Bounds of the ledger\<close>

definition ledger_ok :: "ledger \<Rightarrow> bool" where
  "ledger_ok l = (0 \<le> agents_started l \<and> 0 \<le> reserved_jobs l \<and> agents_started l + reserved_jobs l \<le> MAX_TASK_JOBS
     \<and> 0 \<le> advisors_started l \<and> advisors_started l \<le> MAX_TASK_ADVISORS
     \<and> 0 \<le> workers_started l \<and> workers_started l \<le> MAX_TASK_JOBS
     \<and> 0 \<le> worker_reserved_jobs l \<and> worker_reserved_jobs l \<le> MAX_TASK_JOBS
     \<and> 0 \<le> bytes_sent l \<and> bytes_sent l \<le> MAX_SUBAGENT_BRIEF_BYTES * MAX_TASK_JOBS
     \<and> 0 \<le> bytes_received l \<and> bytes_received l \<le> MAX_RESULT_BYTES * MAX_TASK_JOBS
     \<and> length (lg_reasons l) \<le> MAX_REASON_CODES \<and> length (lg_failures l) \<le> MAX_FAILURE_FINGERPRINTS
     \<and> length (lg_timestamps l) \<le> MAX_TIMESTAMPS)"

lemma ints_bounds: "ints dflt mx v = Inr i \<Longrightarrow> 0 \<le> dflt \<Longrightarrow> dflt \<le> mx \<Longrightarrow> 0 \<le> i \<and> i \<le> mx"
  by (auto simp: ints_def clamp_def split: sum.splits if_splits)

lemma ints_total: "ints dflt mx v = Inl e \<Longrightarrow> e = OverflowError"
  by (auto simp: ints_def py_int_def int_of_float_def int_of_string_def int_of_digits_def Let_def
      split: sum.splits if_splits py.splits list.splits)

lemma last_n_bound: "length (last_n n xs) \<le> n"
  by (simp add: last_n_def)

lemma normalize_ledger_fields:
  assumes "normalize_ledger E src sg now = Inr l"
  shows "\<exists>agents reserved. ints 0 MAX_TASK_JOBS (dget src ''agents_started'' PNone) = Inr agents
      \<and> agents_started l = min (min agents MAX_THREADS) (MAX_DEPTH + MAX_TASK_JOBS - 1)
      \<and> ints 0 MAX_TASK_JOBS (dget src ''reserved_jobs'' PNone) = Inr reserved
      \<and> reserved_jobs l = min (max reserved (worker_reserved_jobs l)) (max 0 (MAX_THREADS - agents_started l))"
    and "ints 0 MAX_TASK_ADVISORS (dget src ''advisors_started'' PNone) = Inr (advisors_started l)"
    and "ints 0 MAX_TASK_JOBS (dget src ''workers_started'' PNone) = Inr (workers_started l)"
    and "ints 0 MAX_TASK_JOBS (dget src ''worker_reserved_jobs'' PNone) = Inr (worker_reserved_jobs l)"
    and "ints 0 (MAX_SUBAGENT_BRIEF_BYTES * MAX_TASK_JOBS) (dget src ''bytes_sent'' PNone) = Inr (bytes_sent l)"
    and "ints 0 (MAX_RESULT_BYTES * MAX_TASK_JOBS) (dget src ''bytes_received'' PNone) = Inr (bytes_received l)"
    and "length (lg_reasons l) \<le> MAX_REASON_CODES" "length (lg_failures l) \<le> MAX_FAILURE_FINGERPRINTS"
    and "length (lg_timestamps l) \<le> MAX_TIMESTAMPS"
  using assms by (auto simp: normalize_ledger_def resE Let_def last_n_bound)

lemma normalize_ledger_ok:
  assumes "normalize_ledger E src sg now = Inr l"
  shows "ledger_ok l"
proof -
  note f = normalize_ledger_fields [OF assms]
  have b: "0 \<le> advisors_started l \<and> advisors_started l \<le> MAX_TASK_ADVISORS"
    "0 \<le> workers_started l \<and> workers_started l \<le> MAX_TASK_JOBS"
    "0 \<le> worker_reserved_jobs l \<and> worker_reserved_jobs l \<le> MAX_TASK_JOBS"
    "0 \<le> bytes_sent l \<and> bytes_sent l \<le> MAX_SUBAGENT_BRIEF_BYTES * MAX_TASK_JOBS"
    "0 \<le> bytes_received l \<and> bytes_received l \<le> MAX_RESULT_BYTES * MAX_TASK_JOBS"
    using f(2-6) [THEN ints_bounds] by (simp_all add: budget_limits)
  obtain agents reserved where a: "ints 0 MAX_TASK_JOBS (dget src ''agents_started'' PNone) = Inr agents"
      "agents_started l = min (min agents MAX_THREADS) (MAX_DEPTH + MAX_TASK_JOBS - 1)"
    and r: "ints 0 MAX_TASK_JOBS (dget src ''reserved_jobs'' PNone) = Inr reserved"
      "reserved_jobs l = min (max reserved (worker_reserved_jobs l)) (max 0 (MAX_THREADS - agents_started l))"
    using f(1) by blast
  note a(1) [THEN ints_bounds] r(1) [THEN ints_bounds]
  with a(2) r(2) b(3) have "0 \<le> agents_started l" "0 \<le> reserved_jobs l"
      "agents_started l + reserved_jobs l \<le> MAX_TASK_JOBS"
    by (simp_all add: budget_limits max.coboundedI1)
  with b f(7-9) show ?thesis by (simp add: ledger_ok_def)
qed

lemma normalize_ledger_error: "normalize_ledger E src sg now = Inl e \<Longrightarrow> e = OverflowError"
  unfolding normalize_ledger_def Let_def bindE_def
  by (auto split: sum.splits dest: ints_total)

lemma count_spawn_ok: "ledger_ok l \<Longrightarrow> ledger_ok (count_spawn k l)"
  by (auto simp: ledger_ok_def count_spawn_def Let_def budget_limits)

lemma add_ok: "ledger_ok l \<Longrightarrow> ledger_ok (add_reason E r l)" "ledger_ok l \<Longrightarrow> ledger_ok (add_timestamp t l)"
  by (auto simp: ledger_ok_def add_reason_def add_timestamp_def Let_def)

lemma bytes_ok:
  "ledger_ok l \<Longrightarrow> 0 \<le> s \<Longrightarrow> 0 \<le> r \<Longrightarrow> ledger_ok (l\<lparr>
       bytes_sent := min (MAX_SUBAGENT_BRIEF_BYTES * MAX_TASK_JOBS) (bytes_sent l + s),
       bytes_received := min (MAX_RESULT_BYTES * MAX_TASK_JOBS) (bytes_received l + r)\<rparr>)"
  "ledger_ok l \<Longrightarrow> 0 \<le> r \<Longrightarrow> ledger_ok (l\<lparr>
       bytes_received := min (MAX_RESULT_BYTES * MAX_TASK_JOBS) (bytes_received l + r)\<rparr>)"
  by (simp_all add: ledger_ok_def budget_limits)

lemma record_ok:
  "record_spawn E src k rs s r t sg now = Inr l \<Longrightarrow> ledger_ok l"
  "record_result E src r t sg now = Inr l \<Longrightarrow> ledger_ok l"
  "record_failure E src f sg now = Inr l \<Longrightarrow> ledger_ok l"
proof -
  have mi: "(0 :: int) \<le> MAX_INT" by (simp add: MAX_INT_def)
  show "record_spawn E src k rs s r t sg now = Inr l \<Longrightarrow> ledger_ok l"
    by (auto simp: record_spawn_def resE Let_def intro!: add_ok bytes_ok(1) count_spawn_ok dest: normalize_ledger_ok
        ints_bounds [OF _ order_refl mi])
  show "record_result E src r t sg now = Inr l \<Longrightarrow> ledger_ok l"
    by (auto simp: record_result_def resE intro!: add_ok bytes_ok(2) dest: normalize_ledger_ok
        ints_bounds [OF _ order_refl mi])
  show "record_failure E src f sg now = Inr l \<Longrightarrow> ledger_ok l"
    by (auto simp: record_failure_def resE Let_def ledger_ok_def split: if_splits dest!: normalize_ledger_ok)
qed

lemma record_errors:
  "record_spawn E src k rs s r t sg now = Inl e \<Longrightarrow> e = OverflowError"
  "record_result E src r t sg now = Inl e \<Longrightarrow> e = OverflowError"
  "record_failure E src f sg now = Inl e \<Longrightarrow> e = OverflowError"
  by (auto simp: record_spawn_def record_result_def record_failure_def bindE_def Let_def
      split: sum.splits dest: ints_total normalize_ledger_error)

text \<open>A ledger that is stored and read again keeps its counters.\<close>

lemma ints_of_int: "0 \<le> i \<Longrightarrow> i \<le> mx \<Longrightarrow> ints d mx (PInt i) = Inr i"
  by (simp add: ints_def py_int_def clamp_def)

lemma ledger_dict_get:
  "dget (ledger_dict l) ''agents_started'' x = PInt (agents_started l)"
  "dget (ledger_dict l) ''advisors_started'' x = PInt (advisors_started l)"
  "dget (ledger_dict l) ''workers_started'' x = PInt (workers_started l)"
  "dget (ledger_dict l) ''worker_reserved_jobs'' x = PInt (worker_reserved_jobs l)"
  "dget (ledger_dict l) ''reserved_jobs'' x = PInt (reserved_jobs l)"
  "dget (ledger_dict l) ''bytes_sent'' x = PInt (bytes_sent l)"
  "dget (ledger_dict l) ''bytes_received'' x = PInt (bytes_received l)"
  "dget (ledger_dict l) ''failure_fingerprints'' x = PList (map PStr (lg_failures l))"
  by (simp_all add: ledger_dict_def dget_mk_dict)

lemma ledger_dict_again:
  assumes "ledger_ok l"
  shows "\<exists>l'. normalize_ledger E (ledger_dict l) sg now = Inr l' \<and> agents_started l' = agents_started l
    \<and> advisors_started l' = advisors_started l \<and> workers_started l' = workers_started l
    \<and> reserved_jobs l \<le> reserved_jobs l' \<and> bytes_sent l' = bytes_sent l \<and> bytes_received l' = bytes_received l"
  using assms
  unfolding normalize_ledger_def ledger_dict_get ledger_ok_def
  by (simp add: ints_of_int budget_limits Let_def)

section \<open>Spawns along a task\<close>

text \<open>
  The life of a ledger: any of the recording operations on the stored ledger,
  and a spawn only after \<open>budget_decision\<close> allowed it on the stored ledger.  The
  index counts the spawns.
\<close>

inductive life :: "env \<Rightarrow> ledger \<Rightarrow> nat \<Rightarrow> ledger \<Rightarrow> bool" for E where
  start: "life E l 0 l"
| spawn: "life E l n l1 \<Longrightarrow> budget_decision E (ledger_dict l1) q = Inr d \<Longrightarrow> bd_allowed d
    \<Longrightarrow> record_spawn E (ledger_dict l1) (sq_kind q) rs s r t sg now = Inr l2 \<Longrightarrow> life E l (Suc n) l2"
| result: "life E l n l1 \<Longrightarrow> record_result E (ledger_dict l1) r t sg now = Inr l2 \<Longrightarrow> life E l n l2"
| failure: "life E l n l1 \<Longrightarrow> record_failure E (ledger_dict l1) f sg now = Inr l2 \<Longrightarrow> life E l n l2"

inductive_cases life_SucE: "life E l (Suc n) l2"

lemma budget_decision_state:
  "budget_decision E src q = Inr d \<Longrightarrow> \<exists>l depth. normalize_ledger E src [] [] = Inr l \<and> d = budget_decision_on l q depth"
  by (auto simp: budget_decision_def resE split: if_splits)

lemma allowed_needs:
  assumes "bd_allowed (budget_decision_on l q depth)"
  shows "agents_started l + reserved_jobs l < MAX_TASK_JOBS" "depth < MAX_DEPTH"
    "str_upper (bounded_text (PStr (sq_sensitivity q)) 16) \<noteq> ''RED''"
    "\<not> is_progress_maintenance (PStr (sq_origin q)) (PStr (sq_intent q))"
    "str_lower (bounded_text (PStr (sq_kind q)) 32) = ''advisor'' \<and> advisors_started l < MAX_TASK_ADVISORS
     \<or> str_lower (bounded_text (PStr (sq_kind q)) 32) = ''worker'' \<and> sq_independent q"
  using assms
  by (auto simp: budget_decision_on_def Let_def denied_def split: if_splits)

lemma normalize_now: "normalize_ledger E src sg now = Inr l \<Longrightarrow>
    \<exists>l'. normalize_ledger E src sg' now' = Inr l' \<and> agents_started l' = agents_started l \<and> reserved_jobs l' = reserved_jobs l
      \<and> advisors_started l' = advisors_started l"
  by (auto simp: normalize_ledger_def resE Let_def)

lemma count_spawn_counts:
  "agents_started l < MAX_TASK_JOBS \<Longrightarrow> agents_started (count_spawn k l) = agents_started l + 1"
  by (simp add: count_spawn_def Let_def)

lemma add_counts [simp]:
  "agents_started (add_reason E r l) = agents_started l" "agents_started (add_timestamp t l) = agents_started l"
  by (simp_all add: add_reason_def add_timestamp_def Let_def)

lemma record_spawn_counts:
  assumes "record_spawn E src k rs s r t sg now = Inr l2" "normalize_ledger E src sg' now' = Inr l1"
    "agents_started l1 < MAX_TASK_JOBS"
  shows "agents_started l2 = agents_started l1 + 1"
  using assms normalize_now [OF assms(2), of sg now]
  by (auto simp: record_spawn_def resE Let_def count_spawn_counts)

lemma life_bound:
  assumes "life E l n l'" "ledger_ok l"
  shows "ledger_ok l' \<and> agents_started l + int n \<le> agents_started l'"
  using assms
proof (induction rule: life.induct)
  case (start l)
  then show ?case by simp
next
  case (spawn l n l1 q d rs s r t sg now l2)
  then have ok: "ledger_ok l1" and le: "agents_started l + int n \<le> agents_started l1" by auto
  obtain l' where l': "normalize_ledger E (ledger_dict l1) [] [] = Inr l'" "agents_started l' = agents_started l1"
    using ledger_dict_again [OF ok] by blast
  obtain depth where "d = budget_decision_on l' q depth"
    using budget_decision_state [OF spawn.hyps(2)] l'(1) by auto
  with spawn.hyps(3) allowed_needs(1) have "agents_started l' + reserved_jobs l' < MAX_TASK_JOBS" by blast
  moreover have "0 \<le> reserved_jobs l'" using normalize_ledger_ok [OF l'(1)] by (simp add: ledger_ok_def)
  ultimately have "agents_started l2 = agents_started l' + 1"
    using record_spawn_counts [OF spawn.hyps(4) l'(1)] by simp
  with l'(2) le record_ok(1) [OF spawn.hyps(4)] show ?case by simp
next
  case (result l n l1 r t sg now l2)
  then have ok: "ledger_ok l1" and le: "agents_started l + int n \<le> agents_started l1" by auto
  obtain l' where l': "normalize_ledger E (ledger_dict l1) sg now = Inr l'" "agents_started l' = agents_started l1"
    using ledger_dict_again [OF ok] by blast
  with result.hyps(2) have "agents_started l2 = agents_started l1" by (auto simp: record_result_def resE)
  with le record_ok(2) [OF result.hyps(2)] show ?case by simp
next
  case (failure l n l1 f sg now l2)
  then have ok: "ledger_ok l1" and le: "agents_started l + int n \<le> agents_started l1" by auto
  obtain l' where l': "normalize_ledger E (ledger_dict l1) sg now = Inr l'" "agents_started l' = agents_started l1"
    using ledger_dict_again [OF ok] by blast
  with failure.hyps(2) have "agents_started l2 = agents_started l1" by (auto simp: record_failure_def resE Let_def split: if_splits)
  with le record_ok(3) [OF failure.hyps(2)] show ?case by simp
qed

section \<open>Bound of the packet\<close>

text \<open>A decimal numeral has as many digits as its bound allows; bytes of the packet, field by field.\<close>

lemma nat_str_len: "n < 10 ^ k \<Longrightarrow> k > 0 \<Longrightarrow> length (nat_str n) \<le> k"
proof (induction n arbitrary: k rule: nat_str.induct)
  case (1 n)
  show ?case
  proof (cases "n < 10")
    case True
    with 1(3) show ?thesis by (subst nat_str.simps) simp
  next
    case False
    with 1(2) obtain j where k: "k = Suc j" "j > 0" by (cases k; cases "k - 1") auto
    with 1(2) have "n div 10 < 10 ^ j" by (simp add: less_mult_imp_div_less mult.commute)
    with False 1(1) k show ?thesis by (subst nat_str.simps) simp
  qed
qed

lemma length_utf8: "length (utf8_encode s) \<le> 2 * length s"
  by (induction s) (auto simp: utf8_char_def)
lemma utf8_json_int: "0 \<le> i \<Longrightarrow> i \<le> MAX_PACKET_BYTES \<Longrightarrow> length (utf8_encode (int_str i)) \<le> 8"
proof -
  assume i: "0 \<le> i" "i \<le> MAX_PACKET_BYTES"
  then have "length (int_str i) \<le> 4"
    using nat_str_len [of "nat i" 4] by (simp add: int_str_def MAX_PACKET_BYTES_def nat_less_iff)
  with length_utf8 [of "int_str i"] show ?thesis by simp
qed

definition blank :: "packet \<Rightarrow> bool" where
  "blank p = (pk_question p = [] \<and> pk_context p = [] \<and> pk_constraints p = [] \<and> pk_output_format p = [] \<and> pk_files p = [])"

lemma packet_json: "ascii_json (PDict (packet_dict p)) =
   ''{'' @ ascii_str ''budget_bytes'' @ '':'' @ int_str (pk_budget p) @ '','' @ ascii_str ''constraints'' @ '':'' @
   ascii_str (pk_constraints p) @ '','' @ ascii_str ''context'' @ '':'' @ ascii_str (pk_context p) @ '','' @
   ascii_str ''files'' @ '':['' @ join '','' (map ascii_str (pk_files p)) @ ''],'' @ ascii_str ''output_format'' @ '':'' @
   ascii_str (pk_output_format p) @ '','' @ ascii_str ''question'' @ '':'' @ ascii_str (pk_question p) @ ''}''"
proof -
  have "packet_dict p = [(''budget_bytes'', PInt (pk_budget p)), (''constraints'', PStr (pk_constraints p)),
     (''context'', PStr (pk_context p)), (''files'', PList (map PStr (pk_files p))),
     (''output_format'', PStr (pk_output_format p)), (''question'', PStr (pk_question p))]"
    unfolding packet_dict_def mk_dict_def by code_simp
  then show ?thesis by (simp add: comp_def)
qed

lemma blank_bytes:
  assumes "blank p" "0 \<le> pk_budget p" "pk_budget p \<le> MAX_PACKET_BYTES"
  shows "packet_bytes (packet_dict p) < 256"
proof -
  have "length (utf8_encode (ascii_str ''budget_bytes'')) = 14" "length (utf8_encode (ascii_str ''constraints'')) = 13"
    "length (utf8_encode (ascii_str ''context'')) = 9" "length (utf8_encode (ascii_str ''files'')) = 7"
    "length (utf8_encode (ascii_str ''output_format'')) = 15" "length (utf8_encode (ascii_str ''question'')) = 10"
    "length (utf8_encode (ascii_str '''')) = 2" "length (utf8_encode '','') = 1" "length (utf8_encode '':'') = 1"
    "length (utf8_encode ''],'') = 2" "length (utf8_encode '':['') = 2" "length (utf8_encode ''{'') = 1" "length (utf8_encode ''}'') = 1"
    by code_simp+
  then show ?thesis
    using assms utf8_json_int [of "pk_budget p"] 
    unfolding packet_bytes_def packet_json blank_def
    by (simp only: utf8_encode_simps(3) length_append) simp
qed

lemma pk_budget_steps [simp]: "pk_budget (pk_halve p k) = pk_budget p" "pk_budget (emptied p) = pk_budget p"
  by (simp_all add: pk_halve_def Let_def emptied_def)

lemma shrink_result: "pk_budget (shrink n p) = pk_budget p
   \<and> (packet_bytes (packet_dict (shrink n p)) \<le> n \<or> blank (shrink n p))"
proof (induction n p rule: shrink.induct)
  case (1 n p)
  show ?case
    using 1 by (subst (1 2 3) shrink.simps) (auto simp: Let_def blank_def emptied_def)
qed

lemma packet_budget [simp]:
  "pk_budget (first_packet E q c fs cs out limit) = limit" "pk_budget (cut_packet p) = pk_budget p"
  by (simp_all add: first_packet_def cut_packet_def)

lemma bounded_packet_size:
  assumes "bounded_packet E q c fs cs out b = Inr p"
  shows "packet_bytes (packet_dict p) \<le> nat (pk_budget p) \<and> 256 \<le> pk_budget p \<and> pk_budget p \<le> MAX_PACKET_BYTES"
proof -
  obtain i where i: "ints MAX_PACKET_BYTES MAX_INT b = Inr i"
    using assms by (auto simp: bounded_packet_def resE)
  define limit where "limit = max 256 (min MAX_PACKET_BYTES i)"
  let ?p = "first_packet E q c fs cs out limit"
  have l: "256 \<le> limit" "limit \<le> MAX_PACKET_BYTES" by (simp_all add: limit_def MAX_PACKET_BYTES_def)
  have p: "p = (if packet_bytes (packet_dict ?p) \<le> nat limit then ?p else shrink (nat limit) (cut_packet ?p))"
    using assms i by (auto simp add: bounded_packet_def resE Let_def limit_def)
  then have "pk_budget p = limit" "packet_bytes (packet_dict p) \<le> nat limit \<or> blank p"
    using shrink_result [of "nat limit" "cut_packet ?p"] by auto
  with l blank_bytes [of p] show ?thesis by fastforce
qed

section \<open>What the budget promises\<close>


text \<open>C25: along the life of a task's ledger at most two children start, whatever results and failures are recorded
  between the spawns, as long as each spawn was allowed by \<open>budget_decision\<close> on the stored ledger.\<close>

theorem spawn_bound:
  assumes "life E l n l'" "ledger_ok l"
  shows "int n \<le> MAX_TASK_JOBS - agents_started l \<and> n \<le> 2 \<and> ledger_ok l'"
proof -
  have "ledger_ok l'" "agents_started l + int n \<le> agents_started l'" using life_bound [OF assms] by auto
  moreover have "0 \<le> agents_started l" "agents_started l' \<le> MAX_TASK_JOBS"
    using assms(2) calculation(1) by (auto simp: ledger_ok_def)
  ultimately show ?thesis by (simp add: MAX_TASK_JOBS_def)
qed

definition demo_request :: spawn_request where
  "demo_request = \<lparr>sq_kind = ''worker'', sq_sensitivity = ''GREEN'', sq_executor_model = ''luna'', sq_depth = PInt 0,
     sq_independent = True, sq_critical_review = False, sq_failures = [], sq_origin = [], sq_intent = []\<rparr>"

definition demo_ledger :: ledger where
  "demo_ledger = \<lparr>lg_task_signature = ''t'', agents_started = 0, advisors_started = 0, workers_started = 0,
     worker_reserved_jobs = 0, reserved_jobs = 0, lg_reasons = [], lg_failures = [], bytes_sent = 0,
     bytes_received = 0, lg_timestamps = [], lg_updated_at = ''1.0''\<rparr>"

definition demo_budget_env :: env where
  "demo_budget_env = \<lparr>env_sha = (\<lambda>_. replicate 64 CHR ''0''), env_red = (\<lambda>_. False)\<rparr>"

lemma demo_allowed: "(case budget_decision demo_budget_env (ledger_dict demo_ledger) demo_request of
    Inr d \<Rightarrow> bd_allowed d | Inl e \<Rightarrow> False)"
  by code_simp

lemma demo_spawned: "(case record_spawn demo_budget_env (ledger_dict demo_ledger) (sq_kind demo_request) [] (PInt 10) (PInt 0)
    [] [] ''1.0'' of Inr l \<Rightarrow> agents_started l = 1 | Inl e \<Rightarrow> False)"
  by code_simp

theorem spawn_bound_witness: "\<exists>l. life demo_budget_env demo_ledger 1 l \<and> ledger_ok l"
proof -
  obtain d where d: "budget_decision demo_budget_env (ledger_dict demo_ledger) demo_request = Inr d" "bd_allowed d"
    using demo_allowed by (auto split: sum.splits)
  obtain l where l: "record_spawn demo_budget_env (ledger_dict demo_ledger) (sq_kind demo_request) [] (PInt 10) (PInt 0)
      [] [] ''1.0'' = Inr l"
    using demo_spawned by (auto split: sum.splits)
  have "life demo_budget_env demo_ledger (Suc 0) l" by (rule life.spawn [OF life.start d l])
  moreover have "ledger_ok demo_ledger"
    by (simp add: ledger_ok_def demo_ledger_def budget_limits MAX_TASK_ADVISORS_def)
  ultimately show ?thesis using spawn_bound [of demo_budget_env demo_ledger "Suc 0" l] by auto
qed

text \<open>C26: a child starts only within the job budget, at depth 0, never for RED work, never for progress maintenance,
  and only as an independent worker or as an advisor whose budget is not used up.\<close>

theorem spawn_needs:
  assumes "budget_decision E src q = Inr d" "bd_allowed d"
  shows "\<exists>l. normalize_ledger E src [] [] = Inr l \<and> agents_started l + reserved_jobs l < MAX_TASK_JOBS
    \<and> ints 0 MAX_INT (sq_depth q) = Inr 0
    \<and> str_upper (bounded_text (PStr (sq_sensitivity q)) 16) \<noteq> ''RED''
    \<and> \<not> is_progress_maintenance (PStr (sq_origin q)) (PStr (sq_intent q))
    \<and> (str_lower (bounded_text (PStr (sq_kind q)) 32) = ''advisor'' \<and> advisors_started l < MAX_TASK_ADVISORS
       \<or> str_lower (bounded_text (PStr (sq_kind q)) 32) = ''worker'' \<and> sq_independent q)"
proof -
  obtain l depth where l: "normalize_ledger E src [] [] = Inr l" and d: "d = budget_decision_on l q depth"
    using budget_decision_state [OF assms(1)] by blast
  note a = allowed_needs [OF assms(2) [unfolded d]]
  obtain i where i: "ints 0 MAX_INT (sq_depth q) = Inr i" "d = budget_decision_on l q i"
    using assms(1) l a(3,4) by (auto simp: budget_decision_def resE)
  have "i < MAX_DEPTH" using allowed_needs(2) [of l q i] assms(2) i(2) by simp
  with ints_bounds [OF i(1)] have "i = 0" by (simp add: MAX_DEPTH_def MAX_INT_def)
  with l a(1,3-5) i(1) show ?thesis by blast
qed

theorem spawn_needs_witness:
  "\<exists>d. budget_decision demo_budget_env (ledger_dict demo_ledger) demo_request = Inr d \<and> bd_allowed d
     \<and> ints 0 MAX_INT (sq_depth demo_request) = Inr 0"
proof -
  obtain d where d: "budget_decision demo_budget_env (ledger_dict demo_ledger) demo_request = Inr d" "bd_allowed d"
    using demo_allowed by (auto split: sum.splits)
  from spawn_needs [OF d] d show ?thesis by blast
qed



text \<open>C28: the advisor packet fits its budget whatever texts it was built from, and the budget lies between 256
  and 4096 bytes.\<close>

theorem packet_fits:
  assumes "bounded_packet E q c fs cs out b = Inr p"
  shows "packet_bytes (packet_dict p) \<le> nat (pk_budget p) \<and> 256 \<le> pk_budget p \<and> pk_budget p \<le> MAX_PACKET_BYTES"
  using assms by (rule bounded_packet_size)

lemma demo_packet: "(case bounded_packet demo_budget_env ''why'' (replicate 200 CHR ''x'') [PStr (replicate 170 CHR ''f'')] [] ''verdict'' (PInt 10) of
    Inr p \<Rightarrow> pk_budget p = 256 \<and> pk_files p = [] | Inl e \<Rightarrow> False)"
  by code_simp

theorem packet_fits_witness:
  "\<exists>p. bounded_packet demo_budget_env ''why'' (replicate 200 CHR ''x'') [PStr (replicate 170 CHR ''f'')] [] ''verdict'' (PInt 10) = Inr p
     \<and> packet_bytes (packet_dict p) \<le> 256"
proof -
  obtain p where p: "bounded_packet demo_budget_env ''why'' (replicate 200 CHR ''x'') [PStr (replicate 170 CHR ''f'')] [] ''verdict'' (PInt 10) = Inr p"
      "pk_budget p = 256"
    using demo_packet by (auto split: sum.splits)
  from packet_fits [OF p(1)] p show ?thesis by auto
qed


end
