(* ===== verification/CostPolicy.thy ===== *)
theory CostPolicy
  imports PyConv RuntimeProfile
begin

text \<open>
  \<open>.codex/hooks/shared/cost_policy.py\<close>: how much output a tool call produced,
  measured without keeping it, and the families that tools and routes belong
  to.  \<open>safe_preview\<close> of \<open>redaction.py\<close> is a parameter of \<open>tool_name\<close>.
\<close>

definition MAX_MEASURED_OUTPUT_CHARS :: int where "MAX_MEASURED_OUTPUT_CHARS = 12000"

definition OUTPUT_FIELDS :: "string list" where
  "OUTPUT_FIELDS = [''output'', ''stdout'', ''stderr'', ''result'', ''message'']"

definition estimate_context_units :: "int \<Rightarrow> int" where
  "estimate_context_units characters = max 0 ((max 0 characters + 3) div 4)"

section \<open>Bounded measurement\<close>

lemma size_dict_values: "size_list (size \<circ> snd) (d :: pdict) < Suc (size_list (size_prod (\<lambda>x. 0) size) d)"
  by (induction d) auto

text \<open>\<open>str(value)\<close> of the JSON values that are neither text nor containers.\<close>

definition scalar_text :: "py \<Rightarrow> string" where
  "scalar_text v = (case v of PNone \<Rightarrow> ''None'' | PBool b \<Rightarrow> (if b then ''True'' else ''False'')
     | PInt i \<Rightarrow> int_str i | PFloat s \<Rightarrow> s | _ \<Rightarrow> [])"

function bounded_value_length :: "py \<Rightarrow> int \<Rightarrow> int \<times> bool"
  and bounded_values :: "py list \<Rightarrow> int \<Rightarrow> int \<Rightarrow> bool \<Rightarrow> int \<times> bool" where
  "bounded_value_length v remaining =
     (if remaining \<le> 0 then (0, v \<notin> {PNone, PStr [], PList [], PDict []})
      else case v of
        PStr s \<Rightarrow> (min (int (length s)) remaining, int (length s) > remaining)
      | PDict d \<Rightarrow> bounded_values (map snd d) remaining 0 False
      | PList xs \<Rightarrow> bounded_values xs remaining 0 False
      | _ \<Rightarrow> (min (int (length (scalar_text v))) remaining, int (length (scalar_text v)) > remaining))"
| "bounded_values [] remaining used truncated = (used, truncated)"
| "bounded_values (v # vs) remaining used truncated =
     (let (n, t) = bounded_value_length v (remaining - used); used' = used + n; truncated' = (truncated \<or> t)
      in if used' \<ge> remaining then (used', truncated') else bounded_values vs remaining used' truncated')"
  by pat_completeness auto
termination
  by (relation "measure (case_sum (\<lambda>(v, _). size v) (\<lambda>(vs, _). size_list size vs))")
    (auto simp: size_dict_values)

declare bounded_value_length.simps [simp del]

definition response_values :: "pdict \<Rightarrow> py list" where
  "response_values payload =
     (let own = (\<lambda>d. map (\<lambda>f. dget d f PNone) (filter (\<lambda>f. f \<in> keys d) OUTPUT_FIELDS)) in
      own payload @ concat (map (\<lambda>field. case dget payload field PNone of PDict d \<Rightarrow> own d | _ \<Rightarrow> [])
        [''tool_response'', ''toolResponse'']))"

definition measured_output :: "pdict \<Rightarrow> int \<times> bool" where
  "measured_output payload = bounded_values (response_values payload) MAX_MEASURED_OUTPUT_CHARS 0 False"

section \<open>Families\<close>

definition source_scope :: "environ \<Rightarrow> string" where
  "source_scope env = (if env ''RALPH_HOOK_SCOPE'' = Some ''global'' then ''global'' else ''project'')"

definition tool_name :: "(py \<Rightarrow> nat \<Rightarrow> string) \<Rightarrow> pdict \<Rightarrow> string" where
  "tool_name safe_preview payload =
     safe_preview (py_or (dget payload ''tool_name'' PNone) (py_or (dget payload ''toolName'' PNone)
       (py_or (dget payload ''tool'' PNone) (PStr ''unknown'')))) 120"

definition route_family :: "string \<Rightarrow> string" where
  "route_family tool =
     (let n = str_lower tool; has = contains n in
      if has ''minimax_agentic_fast'' \<or> has ''minimax_coding_tools'' then ''mcp:minimax-fast''
      else if has ''zai_coding_deep'' then ''mcp:zai-deep''
      else if has ''zai_coding_fast'' \<or> has ''zai_'' then ''mcp:zai-fast''
      else if has ''spawn_agent'' \<or> has ''wait_agent'' \<or> has ''send_input'' then ''codex-subagent''
      else ''local'')"

definition tool_family :: "string \<Rightarrow> string" where
  "tool_family tool =
     (let n = str_lower tool; has = list_ex (contains n) in
      if has [''exec'', ''shell'', ''command'', ''terminal''] then ''command''
      else if has [''apply_patch'', ''write'', ''edit''] then ''file_write''
      else if has [''read'', ''rg'', ''search'', ''find''] then ''file_read''
      else if contains n ''agent'' then ''agent''
      else ''other'')"

definition output_contains :: "pdict \<Rightarrow> string \<Rightarrow> bool" where
  "output_contains payload marker =
     list_ex (\<lambda>k. case dget payload k PNone of PStr s \<Rightarrow> contains s marker | _ \<Rightarrow> False) OUTPUT_FIELDS"

section \<open>What is measured\<close>

text \<open>The length of everything below a value, and the bound that makes the measurement of it exact.\<close>

fun total_length :: "py \<Rightarrow> int" where
  "total_length (PStr s) = int (length s)"
| "total_length (PDict d) = sum_list (map (\<lambda>(k, v). total_length v) d)"
| "total_length (PList xs) = sum_list (map total_length xs)"
| "total_length v = int (length (scalar_text v))"

lemma total_length_nonneg: "0 \<le> total_length v"
proof (induction v rule: total_length.induct)
  case (2 d)
  then show ?case by (auto intro!: sum_list_nonneg)
next
  case (3 xs)
  then show ?case by (auto intro!: sum_list_nonneg)
qed simp_all

lemma bounded_value_exact:
  "remaining > 0 \<Longrightarrow> fst (bounded_value_length v remaining) = min (total_length v) remaining
     \<and> (snd (bounded_value_length v remaining) \<longrightarrow> total_length v > remaining)"
  and bounded_values_exact:
  "0 \<le> used \<Longrightarrow> used < remaining \<Longrightarrow>
     fst (bounded_values vs remaining used tr) = min (used + sum_list (map total_length vs)) remaining
     \<and> (snd (bounded_values vs remaining used tr) \<longrightarrow> tr \<or> used + sum_list (map total_length vs) > remaining)"
proof (induction v remaining and vs remaining used tr rule: bounded_value_length_bounded_values.induct)
  case (1 v remaining)
  then show ?case
    by (subst (1 2) bounded_value_length.simps) (auto split: py.splits simp: comp_def case_prod_unfold)
next
  case (2 remaining used tr)
  then show ?case by simp
next
  case (3 v vs remaining used tr)
  define p where "p = bounded_value_length v (remaining - used)"
  have p: "fst p = min (total_length v) (remaining - used)" "snd p \<longrightarrow> total_length v > remaining - used"
    using 3(1) 3(3-) by (auto simp: p_def)
  have n: "0 \<le> sum_list (map total_length vs)" by (intro sum_list_nonneg) (auto simp: total_length_nonneg)
  have b: "bounded_values (v # vs) remaining used tr = (if used + fst p \<ge> remaining then (used + fst p, tr \<or> snd p)
      else bounded_values vs remaining (used + fst p) (tr \<or> snd p))"
    by (simp add: p_def case_prod_beta Let_def)
  show ?case
  proof (cases "used + fst p \<ge> remaining")
    case True
    with p n b total_length_nonneg [of v] show ?thesis by (auto simp: min_def split: if_splits)
  next
    case False
    then have "fst p = total_length v" using p by (auto simp: min_def split: if_splits)
    moreover have "\<not> snd p" using p False by (auto simp: min_def split: if_splits)
    moreover have "(fst p, snd p) = bounded_value_length v (remaining - used)" by (simp add: p_def)
    ultimately show ?thesis
      using 3(2) [of "(fst p, snd p)" "fst p" "snd p" "used + fst p" "tr \<or> snd p"] 3(3-) False
        total_length_nonneg [of v] unfolding b by (simp add: add.assoc)
  qed
qed

text \<open>C39: the measured length of a tool's output is its real length cut off at 12000, and the flag is only ever
  raised when something was cut off.\<close>

theorem measured_output_exact:
  "fst (measured_output payload)
     = min (sum_list (map total_length (response_values payload))) MAX_MEASURED_OUTPUT_CHARS
   \<and> (snd (measured_output payload)
      \<longrightarrow> sum_list (map total_length (response_values payload)) > MAX_MEASURED_OUTPUT_CHARS)"
  using bounded_values_exact [of 0 MAX_MEASURED_OUTPUT_CHARS "response_values payload" False]
  by (simp add: measured_output_def MAX_MEASURED_OUTPUT_CHARS_def)

text \<open>The flag is not exact: output that stops at the limit hides the fields after it.\<close>

lemma two_fields: "response_values [(''output'', PStr s), (''stdout'', PStr t)] = [PStr s, PStr t]"
  by (simp add: response_values_def OUTPUT_FIELDS_def Let_def dget_def)


theorem measured_output_exact_witness:
  "fst (measured_output [(''output'', PStr ''abc''), (''stdout'', PStr ''de'')]) = 5
   \<and> \<not> snd (measured_output [(''output'', PStr ''abc''), (''stdout'', PStr ''de'')])"
  using measured_output_exact [of "[(''output'', PStr ''abc''), (''stdout'', PStr ''de'')]"]
  by (auto simp: two_fields MAX_MEASURED_OUTPUT_CHARS_def)

text \<open>The unit estimate is the ceiling of a quarter of the characters, and 0 for a negative count.\<close>

theorem estimate_is_ceiling:
  "4 * estimate_context_units c \<in> {max 0 c ..< max 0 c + 4} \<and> (estimate_context_units c = 0) = (c \<le> 0)"
  by (simp add: estimate_context_units_def) presburger

end
