(* ===== verification/SubagentRouting.thy ===== *)
theory SubagentRouting
  imports AgentBudget
begin

text \<open>
  \<open>.codex/hooks/shared/subagent_routing.py\<close>: which lane, if any, a new subagent
  gets.  The policy is pure; \<open>resolve_subagent_routing\<close> is cut into its stages
  in the order of the code: normalisation, base route, override, RED, phase
  policy, spawn, fingerprint.  Each stage is one function from the local
  variables it reads to those it assigns.  \<open>ValueError\<close> is the only error.
\<close>

section \<open>The policy's vocabulary\<close>

definition POLICY_VERSION :: string where "POLICY_VERSION = ''subagent-routing-v2''"
definition LUNA_MODEL :: string where "LUNA_MODEL = ''gpt-5.6-luna''"
definition TERRA_MODEL :: string where "TERRA_MODEL = ''gpt-5.6-terra''"
definition SOL_MODEL :: string where "SOL_MODEL = ''gpt-5.6-sol''"
definition LUNA_DEFAULT_EFFORT :: string where "LUNA_DEFAULT_EFFORT = ''max''"
definition TERRA_EFFORT :: string where "TERRA_EFFORT = ''high''"
definition SOL_EFFORTS :: "(int \<times> string) list" where
  "SOL_EFFORTS = [(8, ''high''), (9, ''xhigh''), (10, ''max'')]"
definition EFFORT_RANK :: "(string \<times> nat) list" where
  "EFFORT_RANK = [(''high'', 1), (''xhigh'', 2), (''max'', 3)]"
definition SUPPORTED_ROUTES :: "string list" where
  "SUPPORTED_ROUTES = [''terra-implementation'', ''sol-advisor'', ''sol-active-analysis'']"
definition DEEP_INTENTS :: "string list" where
  "DEEP_INTENTS = [''architecture'', ''claim-adjudication'', ''debugging'', ''migration'', ''security'',
     ''spec-review'', ''high-impact-review'']"
definition PROGRESS_REASON_CODE :: string where
  "PROGRESS_REASON_CODE = ''local-deterministic-progress-maintenance''"

text \<open>\<open>SOL_EFFORTS[n]\<close> and \<open>EFFORT_RANK[s]\<close>, for the keys the code looks up after its own checks.\<close>

definition sol_efforts_at :: "int \<Rightarrow> string" where
  "sol_efforts_at n = the (map_of SOL_EFFORTS n)"
definition effort_rank :: "string \<Rightarrow> nat" where
  "effort_rank s = the (map_of EFFORT_RANK s)"

record executor_defaults =
  ed_model :: string
  ed_effort :: string

record subagent_override =
  ov_model :: "string option"
  ov_effort :: "string option"
  ov_route :: "string option"
  ov_expires_at :: "int option"

record routing_capabilities =
  spawn_model_effort :: bool
  active_analysis :: bool

record routing_budget =
  rb_remaining :: int
  explicit_class :: "string option"

record routing_request =
  rq_raw :: int
  rq_intent :: string
  rq_impact :: string
  rq_sensitivity :: string
  repository_default :: "executor_defaults option"
  global_default :: executor_defaults
  task_override :: "subagent_override option"
  session_override :: "subagent_override option"
  current_epoch :: int
  capabilities :: routing_capabilities
  rq_budget :: routing_budget
  bounded_scope :: bool
  local_verification_available :: bool
  hard_gates_pass :: bool
  independent_block :: bool
  independent_block_count :: int
  critical_review :: bool
  failure_fingerprints :: "string list"
  rq_origin :: py

record routing_decision =
  rd_policy_version :: string
  rd_raw :: int
  rd_effective :: int
  rd_intent :: string
  rd_impact :: string
  rd_sensitivity :: string
  rd_executor_model :: string
  rd_executor_effort :: string
  rd_executor_source :: string
  rd_route :: string
  rd_model :: "string option"
  rd_mode :: string
  rd_effort :: "string option"
  spawn_required :: bool
  rd_spawn_arguments :: pdict
  active_analysis_eligible :: bool
  active_analysis_rejection :: "string option"
  override_scope :: string
  override_requested :: pdict
  override_effective :: pdict
  override_rejection_reason :: "string option"
  override_rejections :: pdict
  override_expiry :: "int option"
  budget_remaining :: int
  decision_fingerprint :: string
  rd_reason :: string
  max_threads :: int
  max_depth :: int
  max_task_jobs :: int
  max_task_advisors :: int
  packet_budget_bytes :: int
  rd_worker_budget :: int
  rd_advisor_budget :: int
  rd_origin :: string

section \<open>Normalisation\<close>

definition dashed :: "string \<Rightarrow> string" where
  "dashed s = replace_char (CHR ''_'') (CHR ''-'') (str_lower (strip s))"

definition complexity :: "int \<Rightarrow> int res" where
  "complexity v = (if 1 \<le> v \<and> v \<le> 10 then Inr v else Inl ValueError)"

definition intent_aliases :: "(string \<times> string) list" where
  "intent_aliases = [(''read-only'', ''routine''), (''review'', ''high-impact-review''),
     (''implementation-support'', ''implementation'')]"

definition intent_of :: "string \<Rightarrow> string" where
  "intent_of s = (case map_of intent_aliases (dashed s) of
     Some a \<Rightarrow> a | None \<Rightarrow> if dashed s = [] then ''routine'' else dashed s)"

definition origin_head :: "char \<Rightarrow> bool" where
  "origin_head c = (ascii_lower c \<or> ascii_digit c)"
definition origin_char :: "char \<Rightarrow> bool" where
  "origin_char c = (origin_head c \<or> c \<in> set ''._:-'')"

definition origin_of :: "py \<Rightarrow> string" where
  "origin_of v = (case v of
     PStr s \<Rightarrow> (case dashed s of [] \<Rightarrow> []
       | c # t \<Rightarrow> if origin_head c \<and> list_all origin_char t \<and> length t \<le> 63 then c # t else [])
   | _ \<Rightarrow> [])"

definition impact_of :: "string \<Rightarrow> string" where
  "impact_of s = (if dashed s \<in> {''material'', ''high'', ''high-impact''} then ''material'' else ''none'')"

definition executor_defaults_of :: "routing_request \<Rightarrow> executor_defaults \<times> string" where
  "executor_defaults_of q = (case repository_default q of
     Some e \<Rightarrow> (e, ''repository'') | None \<Rightarrow> (global_default q, ''global''))"

section \<open>The base route\<close>

record lane =
  ln_route :: string
  ln_model :: "string option"
  ln_mode :: string
  ln_effort :: "string option"
  ln_reason :: string

definition no_lane :: "string \<Rightarrow> lane" where
  "no_lane reason = \<lparr>ln_route = ''none'', ln_model = None, ln_mode = ''none'', ln_effort = None, ln_reason = reason\<rparr>"

definition terra_lane :: "string \<Rightarrow> lane" where
  "terra_lane reason = \<lparr>ln_route = ''terra-implementation'', ln_model = Some TERRA_MODEL,
     ln_mode = ''implementation'', ln_effort = Some TERRA_EFFORT, ln_reason = reason\<rparr>"

definition advisor_lane :: "string \<Rightarrow> string \<Rightarrow> lane" where
  "advisor_lane effort reason = \<lparr>ln_route = ''sol-advisor'', ln_model = Some SOL_MODEL, ln_mode = ''advisor'',
     ln_effort = Some effort, ln_reason = reason\<rparr>"

definition base_route ::
    "int \<Rightarrow> int \<Rightarrow> string \<Rightarrow> string \<Rightarrow> string \<Rightarrow> bool \<Rightarrow> bool \<Rightarrow> string list \<Rightarrow> lane" where
  "base_route raw effective intent sensitivity executor_family independent critical failures =
     (let distinct_failures = remdups (filter (\<lambda>f. f \<noteq> []) failures) in
      if sensitivity = ''RED'' then no_lane ''red-local-only''
      else if raw \<le> 3 then no_lane ''routine-luna-only''
      else if distinct_failures \<noteq> [] \<and> length distinct_failures < 2 then no_lane ''inspect-first-failure-locally''
      else if 4 \<le> effective \<and> effective < 7 then
        if independent \<and> intent = ''implementation'' then terra_lane ''independent-worker-4-6''
        else no_lane ''direct-4-6''
      else if 7 \<le> effective \<and> effective < 9 then
        if independent \<and> intent = ''implementation'' then terra_lane ''independent-worker-7-8''
        else if executor_family = ''sol'' \<and> \<not> critical then no_lane ''sol-self-supervision-suppressed''
        else if intent \<in> set DEEP_INTENTS then advisor_lane (sol_efforts_at 8) ''sol-advisor-7-8''
        else no_lane ''direct-7-8''
      else if effective \<ge> 9 \<and> independent then terra_lane ''independent-worker-9-10''
      else if effective \<ge> 9 \<and> intent \<in> set DEEP_INTENTS then
        if executor_family = ''sol'' \<and> \<not> critical then no_lane ''sol-self-supervision-suppressed''
        else advisor_lane (sol_efforts_at (min effective 10)) (''sol-advisor-'' @ int_str effective)
      else no_lane ''intent-does-not-qualify-for-automatic-subagent'')"

section \<open>Overrides\<close>

definition opt_str :: "string option \<Rightarrow> py" where
  "opt_str v = (case v of None \<Rightarrow> PNone | Some s \<Rightarrow> PStr s)"
definition opt_int :: "int option \<Rightarrow> py" where
  "opt_int v = (case v of None \<Rightarrow> PNone | Some i \<Rightarrow> PInt i)"

definition record_override_rejection ::
    "pdict \<Rightarrow> string \<Rightarrow> pdict \<Rightarrow> int option \<Rightarrow> string \<Rightarrow> pdict" where
  "record_override_rejection existing scope requested expiry reason =
     dset scope (PDict (mk_dict [(''requested'', PDict requested), (''expires_at'', opt_int expiry),
       (''reason'', PStr reason)])) existing"

definition requested_values :: "subagent_override \<Rightarrow> pdict" where
  "requested_values c = mk_dict (filter (\<lambda>(k, v). v \<noteq> PNone)
     [(''model'', opt_str (ov_model c)), (''reasoning_effort'', opt_str (ov_effort c)),
      (''route'', opt_str (ov_route c))])"

definition expired :: "subagent_override \<Rightarrow> int \<Rightarrow> bool" where
  "expired c epoch = (case ov_expires_at c of None \<Rightarrow> False | Some t \<Rightarrow> t \<le> epoch)"

record selection =
  sel_override :: "subagent_override option"
  sel_scope :: string
  sel_requested :: pdict
  sel_expiry :: "int option"
  sel_error :: "string option"
  sel_rejections :: pdict

definition chosen_override :: "subagent_override \<Rightarrow> string \<Rightarrow> pdict \<Rightarrow> selection" where
  "chosen_override c scope rejected = \<lparr>sel_override = Some c, sel_scope = scope, sel_requested = requested_values c,
     sel_expiry = ov_expires_at c, sel_error = None, sel_rejections = rejected\<rparr>"

definition expired_override :: "subagent_override \<Rightarrow> string \<Rightarrow> pdict \<Rightarrow> selection" where
  "expired_override c scope rejected = \<lparr>sel_override = None, sel_scope = scope, sel_requested = requested_values c,
     sel_expiry = ov_expires_at c, sel_error = Some ''override-expired'', sel_rejections = rejected\<rparr>"

definition reject_expired :: "pdict \<Rightarrow> string \<Rightarrow> subagent_override \<Rightarrow> pdict" where
  "reject_expired existing scope c =
     record_override_rejection existing scope (requested_values c) (ov_expires_at c) ''override-expired''"

definition selected_override :: "routing_request \<Rightarrow> selection" where
  "selected_override q = (case task_override q of
     Some task \<Rightarrow>
       if \<not> expired task (current_epoch q) then chosen_override task ''task'' []
       else (let rejected = reject_expired [] ''task'' task in
         case session_override q of
           Some session \<Rightarrow>
             if \<not> expired session (current_epoch q) then chosen_override session ''session'' rejected
             else expired_override task ''task'' (reject_expired rejected ''session'' session)
         | None \<Rightarrow> expired_override task ''task'' rejected)
   | None \<Rightarrow> (case session_override q of
       None \<Rightarrow> \<lparr>sel_override = None, sel_scope = ''none'', sel_requested = [], sel_expiry = None,
                 sel_error = None, sel_rejections = []\<rparr>
     | Some session \<Rightarrow>
         if expired session (current_epoch q)
         then expired_override session ''session'' (reject_expired [] ''session'' session)
         else chosen_override session ''session'' []))"

definition truthy_text :: "string option \<Rightarrow> bool" where
  "truthy_text v = (case v of None \<Rightarrow> False | Some s \<Rightarrow> s \<noteq> [])"

definition active_analysis_status :: "routing_request \<Rightarrow> int \<Rightarrow> string \<Rightarrow> bool \<times> string option" where
  "active_analysis_status q effective sensitivity =
     (if sensitivity = ''RED'' then (False, Some ''red-local-only'')
      else if effective < 9 then (False, Some ''active-analysis-requires-effective-complexity-9'')
      else if \<not> active_analysis (capabilities q) then (False, Some ''active-analysis-capability-disabled'')
      else if \<not> bounded_scope q then (False, Some ''active-analysis-requires-bounded-scope'')
      else if \<not> local_verification_available q then (False, Some ''active-analysis-requires-local-verification'')
      else if \<not> hard_gates_pass q then (False, Some ''active-analysis-requires-hard-gates'')
      else if \<not> truthy_text (explicit_class (rq_budget q)) then (False, Some ''active-analysis-requires-explicit-budget'')
      else if rb_remaining (rq_budget q) \<le> 0 then (False, Some ''budget-exhausted'')
      else (True, None))"

definition route_for_model :: "string option \<Rightarrow> string option" where
  "route_for_model m = (if m = Some TERRA_MODEL then Some ''terra-implementation''
     else if m = Some SOL_MODEL then Some ''sol-advisor'' else None)"

text \<open>\<open>_sol_effort\<close> returns a pair of an effort and an error; the error is \<open>Inl\<close> here.\<close>

definition sol_ceiling :: "int \<Rightarrow> string" where
  "sol_ceiling effective = sol_efforts_at (max 8 (min effective 10))"

definition sol_effort :: "string option \<Rightarrow> int \<Rightarrow> bool \<Rightarrow> string + string" where
  "sol_effort requested effective gates =
     (let ceiling = sol_ceiling effective;
          effort = (if truthy_text requested then the requested else ceiling)
      in if effort \<notin> set (map fst EFFORT_RANK) then Inl ''unsupported-sol-effort''
         else if effort_rank effort > effort_rank ceiling then Inl ''sol-effort-exceeds-effective-complexity''
         else if effort_rank effort < effort_rank ceiling \<and> \<not> gates
           then Inl ''sol-effort-downgrade-requires-hard-gates''
         else Inr effort)"

definition apply_override :: "subagent_override \<Rightarrow> int \<Rightarrow> string \<Rightarrow> bool \<Rightarrow> bool \<Rightarrow> string + lane" where
  "apply_override c effective sensitivity active_ok gates =
     (let route = (if truthy_text (ov_route c) then ov_route c else route_for_model (ov_model c)) in
      case route of None \<Rightarrow> Inl ''unsupported-subagent-override''
      | Some r \<Rightarrow>
        (let expected = (if r = ''terra-implementation'' then TERRA_MODEL else SOL_MODEL);
             mode = (if r = ''sol-active-analysis'' then ''active-analysis'' else ''advisor'') in
         if r \<notin> set SUPPORTED_ROUTES then Inl ''unsupported-subagent-override''
         else if ov_model c \<notin> {None, Some expected} then Inl ''override-model-route-mismatch''
         else if sensitivity = ''RED'' then Inl ''red-local-only''
         else if r = ''terra-implementation'' then
           if ov_effort c \<notin> {None, Some TERRA_EFFORT} then Inl ''terra-effort-must-be-high''
           else Inr (terra_lane ''explicit-terra-override'')
         else if r = ''sol-active-analysis'' \<and> \<not> active_ok then Inl ''active-analysis-gates-not-met''
         else (case sol_effort (ov_effort c) effective gates of
             Inl e \<Rightarrow> Inl e
           | Inr effort \<Rightarrow> Inr \<lparr>ln_route = r, ln_model = Some SOL_MODEL, ln_mode = mode, ln_effort = Some effort,
                 ln_reason = ''explicit-'' @ mode @ ''-override''\<rparr>)))"

section \<open>The stages of a resolution\<close>

record routing_state =
  rs_lane :: lane
  rs_active :: "bool \<times> string option"
  rs_effective :: pdict
  rs_error :: "string option"
  rs_rejections :: pdict

text \<open>\<open>e or s\<close> for an optional text\<close>

definition or_else :: "string option \<Rightarrow> string \<Rightarrow> string option" where
  "or_else e s = (if truthy_text e then e else Some s)"

definition override_map :: "lane \<Rightarrow> pdict" where
  "override_map l = mk_dict [(''model'', opt_str (ln_model l)), (''reasoning_effort'', opt_str (ln_effort l)),
     (''route'', PStr (ln_route l))]"

definition override_stage ::
    "routing_request \<Rightarrow> int \<Rightarrow> string \<Rightarrow> bool \<Rightarrow> bool \<times> string option \<Rightarrow> selection \<Rightarrow> lane \<Rightarrow> routing_state" where
  "override_stage q effective sensitivity progress active sel base =
     (if progress then
        (let reason = (if sensitivity = ''RED'' then ''red-local-only'' else PROGRESS_REASON_CODE) in
         \<lparr>rs_lane = no_lane reason, rs_active = (False, Some reason), rs_effective = [],
          rs_error = (if sel_requested sel \<noteq> [] then Some PROGRESS_REASON_CODE else None),
          rs_rejections = (if sel_requested sel \<noteq> []
             then record_override_rejection (sel_rejections sel) (sel_scope sel) (sel_requested sel) (sel_expiry sel)
                    PROGRESS_REASON_CODE
             else [])\<rparr>)
      else
        (let s0 = \<lparr>rs_lane = base, rs_active = active, rs_effective = [], rs_error = sel_error sel,
             rs_rejections = sel_rejections sel\<rparr> in
         case sel_override sel of
           None \<Rightarrow> s0
         | Some c \<Rightarrow>
             if sel_error sel \<noteq> None then s0
             else (case apply_override c effective sensitivity (fst active) (hard_gates_pass q) of
                 Inl e \<Rightarrow> s0\<lparr>rs_error := Some e, rs_rejections := record_override_rejection (sel_rejections sel)
                     (sel_scope sel) (sel_requested sel) (ov_expires_at c) e\<rparr>
               | Inr l \<Rightarrow> s0\<lparr>rs_lane := l, rs_effective := override_map l\<rparr>)))"

definition red_stage :: "string \<Rightarrow> bool \<Rightarrow> selection \<Rightarrow> routing_state \<Rightarrow> routing_state" where
  "red_stage sensitivity progress sel s =
     (if sensitivity = ''RED'' \<and> \<not> progress then
        (let s1 = s\<lparr>rs_lane := no_lane ''red-local-only'', rs_effective := []\<rparr> in
         if sel_requested sel = [] then s1
         else (let s2 = s1\<lparr>rs_error := Some ''red-local-only''\<rparr> in
           case sel_override sel of None \<Rightarrow> s2
           | Some c \<Rightarrow> s2\<lparr>rs_rejections := record_override_rejection (rs_rejections s2) (sel_scope sel)
                 (sel_requested sel) (ov_expires_at c) ''red-local-only''\<rparr>))
      else s)"

definition sol_routes :: "string list" where
  "sol_routes = [''sol-advisor'', ''sol-active-analysis'']"

definition suppress :: "routing_state \<Rightarrow> string \<Rightarrow> string \<Rightarrow> routing_state" where
  "suppress s reason error_code = s\<lparr>rs_lane := no_lane reason, rs_effective := [],
     rs_error := or_else (rs_error s) error_code\<rparr>"

definition phase_stage :: "routing_request \<Rightarrow> int \<Rightarrow> string \<Rightarrow> routing_state \<Rightarrow> routing_state" where
  "phase_stage q raw executor_family s =
     (let route = ln_route (rs_lane s) in
      if route \<noteq> ''none'' \<and> raw \<le> 3 then suppress s ''direct-1-3'' ''complexity-band-does-not-delegate''
      else if route = ''terra-implementation'' \<and> \<not> independent_block q
        then suppress s ''independent-block-required'' ''independent-block-required''
      else if route \<in> set sol_routes \<and> executor_family = ''sol'' \<and> \<not> critical_review q
        then suppress s ''sol-self-supervision-suppressed'' ''sol-self-supervision-suppressed''
      else s)"

definition spawn_arguments_of :: "lane \<Rightarrow> pdict" where
  "spawn_arguments_of l = (case (ln_model l, ln_effort l) of
     (Some m, Some e) \<Rightarrow> if ln_route l = ''none'' then []
        else mk_dict [(''agent_type'', PStr ''default''), (''fork_context'', PBool False), (''model'', PStr m),
               (''reasoning_effort'', PStr e)]
   | _ \<Rightarrow> [])"

record spawn_plan =
  sp_state :: routing_state
  sp_required :: bool
  sp_arguments :: pdict
  sp_worker :: int
  sp_advisor :: int
  sp_remaining :: int

definition unsupported_spawn :: "selection \<Rightarrow> routing_state \<Rightarrow> routing_state" where
  "unsupported_spawn sel s =
     (let code = ''platform-spawn-model-effort-unavailable''; s1 = suppress s code code in
      case sel_override sel of
        Some c \<Rightarrow> if truthy_text (rs_error s1)
          then s1\<lparr>rs_rejections := record_override_rejection (rs_rejections s1) (sel_scope sel) (sel_requested sel)
                 (ov_expires_at c) (the (rs_error s1))\<rparr>
          else s1
      | None \<Rightarrow> s1)"

definition spawn_stage :: "routing_request \<Rightarrow> bool \<Rightarrow> selection \<Rightarrow> routing_state \<Rightarrow> spawn_plan" where
  "spawn_stage q progress sel s =
     (let route = ln_route (rs_lane s); remaining = rb_remaining (rq_budget q) in
      if progress then \<lparr>sp_state = s, sp_required = False, sp_arguments = [], sp_worker = 0, sp_advisor = 0,
        sp_remaining = 0\<rparr>
      else if route \<noteq> ''none'' \<and> \<not> spawn_model_effort (capabilities q) then
        \<lparr>sp_state = unsupported_spawn sel s, sp_required = False, sp_arguments = [], sp_worker = 0, sp_advisor = 0,
         sp_remaining = max 0 remaining\<rparr>
      else
        (let required = (route \<noteq> ''none'' \<and> (route = ''terra-implementation'' \<or> remaining > 0));
             l = (if route \<noteq> ''none'' \<and> remaining \<le> 0 then (rs_lane s)\<lparr>ln_reason := ''budget-exhausted''\<rparr> else rs_lane s)
         in \<lparr>sp_state = s\<lparr>rs_lane := l\<rparr>, sp_required = required, sp_arguments = spawn_arguments_of l,
             sp_worker = (if route = ''terra-implementation'' \<and> required then MAX_TASK_JOBS else 0),
             sp_advisor = (if route \<in> set sol_routes \<and> required then MAX_TASK_ADVISORS else 0),
             sp_remaining = max 0 remaining\<rparr>))"

section \<open>The fingerprint\<close>

text \<open>
  \<open>json.dumps(..., default=str)\<close> writes the two dataclass instances as the text
  of their \<open>repr\<close>.  \<open>repr_str\<close> is Python's \<open>repr\<close> of a string.
\<close>

definition repr_char :: "char \<Rightarrow> char \<Rightarrow> string" where
  "repr_char q c = (let n = ordc c in
     if c = bslash \<or> c = q then [bslash, c]
     else if n = 9 then [bslash, CHR ''t''] else if n = 10 then [bslash, CHR ''n'']
     else if n = 13 then [bslash, CHR ''r'']
     else if n < 32 \<or> (127 \<le> n \<and> n \<le> 160) \<or> n = 173
       then [bslash, CHR ''x'', hex_digit (n div 16), hex_digit (n mod 16)]
     else [c])"

definition apostrophe :: char where "apostrophe = CHR 39"

definition repr_str :: "string \<Rightarrow> string" where
  "repr_str s = (let q = (if apostrophe \<in> set s \<and> quote \<notin> set s then quote else apostrophe) in
     q # concat (map (repr_char q) s) @ [q])"

definition repr_bool :: "bool \<Rightarrow> string" where
  "repr_bool b = (if b then ''True'' else ''False'')"

definition repr_defaults :: "executor_defaults \<Rightarrow> string" where
  "repr_defaults e = ''ExecutorDefaults(model='' @ repr_str (ed_model e) @ '', reasoning_effort=''
     @ repr_str (ed_effort e) @ '')''"

definition repr_capabilities :: "routing_capabilities \<Rightarrow> string" where
  "repr_capabilities c = ''RoutingCapabilities(spawn_model_effort='' @ repr_bool (spawn_model_effort c)
     @ '', active_analysis='' @ repr_bool (active_analysis c) @ '')''"

definition fingerprint :: "env \<Rightarrow> pdict \<Rightarrow> string" where
  "fingerprint E fs = take 16 (env_sha E (utf8_encode (ascii_json (PDict fs))))"

definition fingerprint_fields ::
    "routing_request \<Rightarrow> int \<Rightarrow> int \<Rightarrow> string \<Rightarrow> string \<Rightarrow> string \<Rightarrow> string \<Rightarrow> bool \<Rightarrow> selection \<Rightarrow> routing_state \<Rightarrow> pdict" where
  "fingerprint_fields q raw effective origin intent impact sensitivity progress sel s = mk_dict [
     (''raw'', PInt raw), (''effective'', PInt effective), (''origin'', PStr origin), (''intent'', PStr intent),
     (''impact'', PStr impact), (''sensitivity'', PStr sensitivity),
     (''executor'', PStr (repr_defaults (fst (executor_defaults_of q)))),
     (''route'', PStr (ln_route (rs_lane s))), (''model'', opt_str (ln_model (rs_lane s))),
     (''mode'', PStr (ln_mode (rs_lane s))), (''effort'', opt_str (ln_effort (rs_lane s))),
     (''scope'', PStr (sel_scope sel)), (''requested'', PDict (sel_requested sel)),
     (''effective_override'', PDict (rs_effective s)), (''active_ok'', PBool (fst (rs_active s))),
     (''override_error'', opt_str (rs_error s)), (''override_rejections'', PDict (rs_rejections s)),
     (''override_expiry'', opt_int (sel_expiry sel)),
     (''capabilities'', PStr (repr_capabilities (capabilities q))),
     (''explicit_budget'', opt_str (explicit_class (rq_budget q))),
     (''independent_block'', PBool (independent_block q)),
     (''independent_block_count'', PInt (independent_block_count q)),
     (''critical_review'', PBool (critical_review q)),
     (''failure_fingerprints'', PList (map PStr (failure_fingerprints q))),
     (''progress_maintenance'', PBool progress)]"

section \<open>The resolution\<close>

definition resolve_subagent_routing :: "env \<Rightarrow> routing_request \<Rightarrow> routing_decision res" where
  "resolve_subagent_routing E q = bindE (complexity (rq_raw q)) (\<lambda>raw.
     let origin = origin_of (rq_origin q);
         intent = intent_of (rq_intent q);
         impact = impact_of (rq_impact q);
         sensitivity = str_upper (strip (rq_sensitivity q));
         (executor, executor_source) = executor_defaults_of q;
         effective = (if raw \<le> 3 \<and> impact = ''material'' then 4 else raw);
         active = active_analysis_status q effective sensitivity;
         sel = selected_override q;
         executor_family = classify_model (ed_model executor);
         progress = is_progress_maintenance (PStr origin) (PStr intent);
         base = base_route raw effective intent sensitivity executor_family (independent_block q)
                  (critical_review q) (failure_fingerprints q);
         s1 = override_stage q effective sensitivity progress active sel base;
         s2 = red_stage sensitivity progress sel s1;
         s3 = phase_stage q raw executor_family s2;
         plan = spawn_stage q progress sel s3;
         s = sp_state plan;
         lane = rs_lane s
     in Inr \<lparr>
       rd_policy_version = POLICY_VERSION, rd_raw = raw, rd_effective = effective, rd_intent = intent,
       rd_impact = impact, rd_sensitivity = sensitivity, rd_executor_model = ed_model executor,
       rd_executor_effort = ed_effort executor, rd_executor_source = executor_source,
       rd_route = ln_route lane, rd_model = ln_model lane, rd_mode = ln_mode lane, rd_effort = ln_effort lane,
       spawn_required = sp_required plan, rd_spawn_arguments = sp_arguments plan,
       active_analysis_eligible = fst (rs_active s), active_analysis_rejection = snd (rs_active s),
       override_scope = sel_scope sel, override_requested = sel_requested sel,
       override_effective = rs_effective s, override_rejection_reason = rs_error s,
       override_rejections = rs_rejections s, override_expiry = sel_expiry sel,
       budget_remaining = sp_remaining plan,
       decision_fingerprint = fingerprint E
         (fingerprint_fields q raw effective origin intent impact sensitivity progress sel s),
       rd_reason = ln_reason lane,
       max_threads = MAX_THREADS, max_depth = MAX_DEPTH, max_task_jobs = MAX_TASK_JOBS,
       max_task_advisors = MAX_TASK_ADVISORS, packet_budget_bytes = MAX_PACKET_BYTES,
       rd_worker_budget = sp_worker plan, rd_advisor_budget = sp_advisor plan, rd_origin = origin\<rparr>)"

definition session_routing_context :: string where
  "session_routing_context =
     ''Model routing policy '' @ POLICY_VERSION @ '' (non-authoritative reminder): configured executor remains ''
     @ LUNA_MODEL @ ''/'' @ LUNA_DEFAULT_EFFORT @ ''. max_threads='' @ int_str MAX_THREADS @ '', max_depth=''
     @ int_str MAX_DEPTH
     @ ''; complexity 1-3 stays direct; 4-6 stays direct unless an independent measurable block is proven; ''
     @ ''7-8 uses at most one bounded '' @ SOL_MODEL @ ''/'' @ sol_efforts_at 8
     @ '' advisor only for high-value intents; 9 '' @ SOL_MODEL @ ''/'' @ sol_efforts_at 9 @ '' advisor; 10 ''
     @ SOL_MODEL @ ''/'' @ sol_efforts_at 10 @ '' advisor. At most '' @ int_str MAX_TASK_JOBS
     @ '' independent jobs per task and no automatic fan-out. SOL never self-supervises outside an explicitly ''
     @ ''critical independent review; RED stays local. Codex main owns decisions; this reminder never switches ''
     @ ''the current model or carries history.''"


section \<open>Which lanes there are\<close>

lemmas lane_defs = no_lane_def terra_lane_def advisor_lane_def

definition lane_ok :: "bool \<Rightarrow> int \<Rightarrow> lane \<Rightarrow> bool" where
  "lane_ok active_ok effective l =
     (if ln_route l = ''none'' then ln_model l = None \<and> ln_effort l = None
      else if ln_route l = ''terra-implementation'' then ln_model l = Some TERRA_MODEL \<and> ln_effort l = Some TERRA_EFFORT
      else ln_route l \<in> set sol_routes \<and> ln_model l = Some SOL_MODEL
        \<and> (case ln_effort l of None \<Rightarrow> False
            | Some e \<Rightarrow> e \<in> set (map fst EFFORT_RANK) \<and> effort_rank e \<le> effort_rank (sol_ceiling effective))
        \<and> (ln_route l = ''sol-active-analysis'' \<longrightarrow> active_ok))"

lemma lane_ok_no [simp]: "lane_ok a e (no_lane r)"
  by (simp add: lane_ok_def no_lane_def)

lemma lane_ok_terra [simp]: "lane_ok a e (terra_lane r)"
  by (simp add: lane_ok_def terra_lane_def)

lemma ln_route_lanes [simp]:
  "ln_route (no_lane r) = ''none''" "ln_route (terra_lane r) = ''terra-implementation''"
  "ln_route (advisor_lane f r) = ''sol-advisor''"
  by (simp_all add: lane_defs)

lemma sol_ceiling_effort: "sol_ceiling n \<in> set (map fst EFFORT_RANK)"
proof -
  have "max 8 (min n 10) = 8 \<or> max 8 (min n 10) = 9 \<or> max 8 (min n 10) = (10 :: int)" by arith
  then show ?thesis by (auto simp: sol_ceiling_def sol_efforts_at_def SOL_EFFORTS_def EFFORT_RANK_def)
qed

lemma lane_ok_advisor: "lane_ok a e (advisor_lane (sol_ceiling e) r)"
  using sol_ceiling_effort by (simp add: lane_ok_def advisor_lane_def sol_routes_def)

lemma lane_ok_base: "lane_ok a e (base_route raw e i s f ind crit fails)"
proof -
  have "advisor_lane (sol_efforts_at 8) r = advisor_lane (sol_ceiling e) r" if "e < 9" for r
  proof -
    from that have "max 8 (min e 10) = 8" by arith
    then show ?thesis by (simp add: sol_ceiling_def)
  qed
  moreover have "advisor_lane (sol_efforts_at (min e 10)) r = advisor_lane (sol_ceiling e) r" if "\<not> e < 9" for r
    using that by (simp add: sol_ceiling_def max_def)
  ultimately show ?thesis by (simp add: base_route_def Let_def lane_ok_advisor)
qed

lemma sol_effort_ok:
  assumes "sol_effort r e g = Inr f"
  shows "f \<in> set (map fst EFFORT_RANK) \<and> effort_rank f \<le> effort_rank (sol_ceiling e)"
  using assms by (auto simp: sol_effort_def Let_def split: if_splits)

lemma lane_ok_override: "apply_override c e s a g = Inr l \<Longrightarrow> lane_ok a e l"
  using sol_effort_ok
  by (auto simp: apply_override_def Let_def SUPPORTED_ROUTES_def lane_ok_def terra_lane_def sol_routes_def
      split: option.splits if_splits sum.splits)

lemma override_red: "apply_override c e ''RED'' a g \<noteq> Inr l"
  by (auto simp: apply_override_def Let_def split: option.splits if_splits)

section \<open>What the stages keep\<close>

lemma override_stage_ok:
  assumes "lane_ok (fst active) e base"
  shows "lane_ok (fst active) e (rs_lane (override_stage q e s p active sel base))"
  using assms lane_ok_override [of _ e s "fst active" "hard_gates_pass q"]
  by (auto simp: override_stage_def Let_def split: option.splits sum.splits)

lemma override_stage_active:
  "rs_active (override_stage q e s p active sel base)
     = (if p then (False, Some (if s = ''RED'' then ''red-local-only'' else PROGRESS_REASON_CODE)) else active)"
  by (auto simp: override_stage_def Let_def split: option.splits sum.splits)

lemma override_stage_progress: "ln_route (rs_lane (override_stage q e s True active sel base)) = ''none''"
  by (simp add: override_stage_def Let_def)

lemma red_stage_active [simp]: "rs_active (red_stage s p sel st) = rs_active st"
  by (simp add: red_stage_def Let_def split: option.splits)

lemma red_stage_lane: "rs_lane (red_stage s p sel st) = (if s = ''RED'' \<and> \<not> p then no_lane ''red-local-only'' else rs_lane st)"
  by (simp add: red_stage_def Let_def split: option.splits)

lemma phase_stage_active [simp]: "rs_active (phase_stage q raw f st) = rs_active st"
  by (simp add: phase_stage_def suppress_def Let_def)

lemma phase_stage_lane:
  "rs_lane (phase_stage q raw f st) = rs_lane st \<and>
     (ln_route (rs_lane st) = ''none'' \<or> 4 \<le> raw
       \<and> (ln_route (rs_lane st) = ''terra-implementation'' \<longrightarrow> independent_block q)
       \<and> (ln_route (rs_lane st) \<in> set sol_routes \<and> f = ''sol'' \<longrightarrow> critical_review q))
   \<or> (\<exists>r. rs_lane (phase_stage q raw f st) = no_lane r)"
  by (auto simp: phase_stage_def suppress_def Let_def)

lemma unsupported_spawn_lane [simp]:
  "rs_lane (unsupported_spawn sel s) = no_lane ''platform-spawn-model-effort-unavailable''"
  by (simp add: unsupported_spawn_def suppress_def Let_def split: option.splits)

lemma spawn_arguments_none [simp]: "ln_route l = ''none'' \<Longrightarrow> spawn_arguments_of l = []"
  by (simp add: spawn_arguments_of_def split: option.splits)

text \<open>The stages of one request, as \<open>resolve_subagent_routing\<close> strings them together.\<close>

definition effective_of :: "routing_request \<Rightarrow> int" where
  "effective_of q = (if rq_raw q \<le> 3 \<and> impact_of (rq_impact q) = ''material'' then 4 else rq_raw q)"

definition sensitivity_of :: "routing_request \<Rightarrow> string" where
  "sensitivity_of q = str_upper (strip (rq_sensitivity q))"

definition family_of :: "routing_request \<Rightarrow> string" where
  "family_of q = classify_model (ed_model (fst (executor_defaults_of q)))"

definition progress_of :: "routing_request \<Rightarrow> bool" where
  "progress_of q = is_progress_maintenance (PStr (origin_of (rq_origin q))) (PStr (intent_of (rq_intent q)))"

definition active_of :: "routing_request \<Rightarrow> bool \<times> string option" where
  "active_of q = active_analysis_status q (effective_of q) (sensitivity_of q)"

definition before_phase :: "routing_request \<Rightarrow> routing_state" where
  "before_phase q = red_stage (sensitivity_of q) (progress_of q) (selected_override q)
     (override_stage q (effective_of q) (sensitivity_of q) (progress_of q) (active_of q) (selected_override q)
       (base_route (rq_raw q) (effective_of q) (intent_of (rq_intent q)) (sensitivity_of q) (family_of q)
         (independent_block q) (critical_review q) (failure_fingerprints q)))"

definition before_spawn :: "routing_request \<Rightarrow> routing_state" where
  "before_spawn q = phase_stage q (rq_raw q) (family_of q) (before_phase q)"

definition plan_of :: "routing_request \<Rightarrow> spawn_plan" where
  "plan_of q = spawn_stage q (progress_of q) (selected_override q) (before_spawn q)"

lemmas stage_defs = effective_of_def sensitivity_of_def family_of_def progress_of_def active_of_def
  before_phase_def before_spawn_def plan_of_def


lemma resolve_eq:
  "resolve_subagent_routing E q = (if 1 \<le> rq_raw q \<and> rq_raw q \<le> 10 then Inr \<lparr>
       rd_policy_version = POLICY_VERSION, rd_raw = rq_raw q, rd_effective = effective_of q,
       rd_intent = intent_of (rq_intent q), rd_impact = impact_of (rq_impact q),
       rd_sensitivity = sensitivity_of q, rd_executor_model = ed_model (fst (executor_defaults_of q)),
       rd_executor_effort = ed_effort (fst (executor_defaults_of q)),
       rd_executor_source = snd (executor_defaults_of q),
       rd_route = ln_route (rs_lane (sp_state (plan_of q))), rd_model = ln_model (rs_lane (sp_state (plan_of q))),
       rd_mode = ln_mode (rs_lane (sp_state (plan_of q))), rd_effort = ln_effort (rs_lane (sp_state (plan_of q))),
       spawn_required = sp_required (plan_of q), rd_spawn_arguments = sp_arguments (plan_of q),
       active_analysis_eligible = fst (rs_active (sp_state (plan_of q))),
       active_analysis_rejection = snd (rs_active (sp_state (plan_of q))),
       override_scope = sel_scope (selected_override q), override_requested = sel_requested (selected_override q),
       override_effective = rs_effective (sp_state (plan_of q)),
       override_rejection_reason = rs_error (sp_state (plan_of q)),
       override_rejections = rs_rejections (sp_state (plan_of q)),
       override_expiry = sel_expiry (selected_override q), budget_remaining = sp_remaining (plan_of q),
       decision_fingerprint = fingerprint E (fingerprint_fields q (rq_raw q) (effective_of q)
         (origin_of (rq_origin q)) (intent_of (rq_intent q)) (impact_of (rq_impact q)) (sensitivity_of q)
         (progress_of q) (selected_override q) (sp_state (plan_of q))),
       rd_reason = ln_reason (rs_lane (sp_state (plan_of q))),
       max_threads = MAX_THREADS, max_depth = MAX_DEPTH, max_task_jobs = MAX_TASK_JOBS,
       max_task_advisors = MAX_TASK_ADVISORS, packet_budget_bytes = MAX_PACKET_BYTES,
       rd_worker_budget = sp_worker (plan_of q), rd_advisor_budget = sp_advisor (plan_of q),
       rd_origin = origin_of (rq_origin q)\<rparr>
     else Inl ValueError)"
  by (simp add: resolve_subagent_routing_def complexity_def stage_defs Let_def split_beta bindE_def)

lemma before_phase_ok: "lane_ok (fst (active_of q)) (effective_of q) (rs_lane (before_phase q))"
  using override_stage_ok [OF lane_ok_base] by (simp add: before_phase_def red_stage_lane)

lemma before_phase_none:
  "sensitivity_of q = ''RED'' \<or> progress_of q \<Longrightarrow> ln_route (rs_lane (before_phase q)) = ''none''"
  by (cases "progress_of q") (simp_all add: before_phase_def red_stage_lane override_stage_progress)

lemma before_spawn_cases:
  "(\<exists>r. rs_lane (before_spawn q) = no_lane r) \<or> ln_route (rs_lane (before_spawn q)) = ''none'' \<and> rs_lane (before_spawn q) = rs_lane (before_phase q)
   \<or> rs_lane (before_spawn q) = rs_lane (before_phase q) \<and> 4 \<le> rq_raw q \<and> sensitivity_of q \<noteq> ''RED'' \<and> \<not> progress_of q
     \<and> (ln_route (rs_lane (before_phase q)) = ''terra-implementation'' \<longrightarrow> independent_block q)
     \<and> (ln_route (rs_lane (before_phase q)) \<in> set sol_routes \<and> family_of q = ''sol'' \<longrightarrow> critical_review q)"
  unfolding before_spawn_def
  using phase_stage_lane [of q "rq_raw q" "family_of q" "before_phase q"] before_phase_none [of q] by metis

lemma before_spawn_ok: "lane_ok (fst (active_of q)) (effective_of q) (rs_lane (before_spawn q))"
  using before_spawn_cases [of q] before_phase_ok [of q] by (elim disjE exE) simp_all

lemma before_spawn_active: "\<not> progress_of q \<Longrightarrow> rs_active (before_spawn q) = active_of q"
  by (simp add: before_spawn_def before_phase_def override_stage_active)

definition route_of :: "routing_request \<Rightarrow> string" where
  "route_of q = ln_route (rs_lane (before_spawn q))"

lemma plan_required:
  "sp_required (plan_of q) \<longleftrightarrow> \<not> progress_of q \<and> route_of q \<noteq> ''none'' \<and> spawn_model_effort (capabilities q)
     \<and> (route_of q = ''terra-implementation'' \<or> rb_remaining (rq_budget q) > 0)"
  by (simp add: plan_of_def spawn_stage_def Let_def route_of_def)

lemma plan_lane:
  "rs_lane (sp_state (plan_of q)) =
     (if progress_of q then rs_lane (before_spawn q)
      else if route_of q \<noteq> ''none'' \<and> \<not> spawn_model_effort (capabilities q)
        then no_lane ''platform-spawn-model-effort-unavailable''
      else if route_of q \<noteq> ''none'' \<and> rb_remaining (rq_budget q) \<le> 0
        then (rs_lane (before_spawn q))\<lparr>ln_reason := ''budget-exhausted''\<rparr>
      else rs_lane (before_spawn q))"
  by (simp add: plan_of_def spawn_stage_def Let_def route_of_def)

lemma plan_lane_ok: "lane_ok (fst (active_of q)) (effective_of q) (rs_lane (sp_state (plan_of q)))"
proof -
  have "lane_ok a e (l\<lparr>ln_reason := r\<rparr>) = lane_ok a e l" for a e l r by (simp add: lane_ok_def)
  then show ?thesis using before_spawn_ok [of q] by (simp add: plan_lane)
qed

lemma plan_required_route:
  "sp_required (plan_of q) \<Longrightarrow> ln_route (rs_lane (sp_state (plan_of q))) = route_of q
     \<and> ln_model (rs_lane (sp_state (plan_of q))) = ln_model (rs_lane (before_spawn q))
     \<and> ln_effort (rs_lane (sp_state (plan_of q))) = ln_effort (rs_lane (before_spawn q))"
  unfolding plan_required by (simp add: plan_lane) (simp add: route_of_def)

lemma plan_arguments: "sp_arguments (plan_of q) = spawn_arguments_of (rs_lane (sp_state (plan_of q)))"
proof (cases "progress_of q")
  case True
  then have "ln_route (rs_lane (before_spawn q)) = ''none''"
    using before_spawn_cases [of q] by auto
  then show ?thesis using True by (simp add: plan_lane) (simp add: plan_of_def spawn_stage_def)
next
  case False
  then show ?thesis by (simp add: plan_of_def spawn_stage_def Let_def)
qed

lemma plan_budgets:
  "sp_worker (plan_of q) = (if sp_required (plan_of q) \<and> route_of q = ''terra-implementation'' then MAX_TASK_JOBS else 0)"
  "sp_advisor (plan_of q) = (if sp_required (plan_of q) \<and> route_of q \<in> set sol_routes then MAX_TASK_ADVISORS else 0)"
  by (auto simp: plan_of_def spawn_stage_def Let_def route_of_def sol_routes_def)


section \<open>Properties\<close>

lemma active_granted:
  "fst (active_analysis_status q e s) \<longleftrightarrow> s \<noteq> ''RED'' \<and> 9 \<le> e \<and> active_analysis (capabilities q) \<and> bounded_scope q
     \<and> local_verification_available q \<and> hard_gates_pass q \<and> truthy_text (explicit_class (rq_budget q))
     \<and> rb_remaining (rq_budget q) > 0"
  by (auto simp: active_analysis_status_def)

definition explicit_spawn :: "string \<Rightarrow> string \<Rightarrow> pdict" where
  "explicit_spawn model effort = mk_dict [(''agent_type'', PStr ''default''), (''fork_context'', PBool False),
     (''model'', PStr model), (''reasoning_effort'', PStr effort)]"

definition worker_spawn :: "routing_request \<Rightarrow> routing_decision \<Rightarrow> bool" where
  "worker_spawn q d = (rd_route d = ''terra-implementation'' \<and> independent_block q
     \<and> rd_spawn_arguments d = explicit_spawn TERRA_MODEL TERRA_EFFORT \<and> rd_worker_budget d = 2 \<and> rd_advisor_budget d = 0)"

definition advisor_spawn :: "routing_request \<Rightarrow> routing_decision \<Rightarrow> bool" where
  "advisor_spawn q d = (rd_route d \<in> set sol_routes \<and> rb_remaining (rq_budget q) > 0
     \<and> (rd_route d = ''sol-active-analysis'' \<longrightarrow> 9 \<le> rq_raw q \<and> active_analysis (capabilities q) \<and> bounded_scope q
          \<and> local_verification_available q \<and> hard_gates_pass q)
     \<and> (classify_model (rd_executor_model d) = ''sol'' \<longrightarrow> critical_review q)
     \<and> (\<exists>e. rd_effort d = Some e \<and> rd_spawn_arguments d = explicit_spawn SOL_MODEL e
          \<and> effort_rank e \<le> effort_rank (sol_ceiling (rq_raw q)))
     \<and> rd_worker_budget d = 0 \<and> rd_advisor_budget d = 1)"

lemma resolved:
  assumes "resolve_subagent_routing E q = Inr d"
  shows "1 \<le> rq_raw q" "rq_raw q \<le> 10" "rd_sensitivity d = sensitivity_of q"
    "rd_route d = ln_route (rs_lane (sp_state (plan_of q)))" "rd_effort d = ln_effort (rs_lane (sp_state (plan_of q)))"
    "spawn_required d = sp_required (plan_of q)" "rd_spawn_arguments d = sp_arguments (plan_of q)"
    "rd_worker_budget d = sp_worker (plan_of q)" "rd_advisor_budget d = sp_advisor (plan_of q)"
    "rd_executor_model d = ed_model (fst (executor_defaults_of q))"
    "rd_model d = ln_model (rs_lane (sp_state (plan_of q)))" "rd_reason d = ln_reason (rs_lane (sp_state (plan_of q)))"
  using assms unfolding resolve_eq by (auto split: if_splits)

lemma required_facts:
  assumes "sp_required (plan_of q)"
  shows "sensitivity_of q \<noteq> ''RED'' \<and> \<not> progress_of q \<and> 4 \<le> rq_raw q \<and> effective_of q = rq_raw q
    \<and> (route_of q = ''terra-implementation'' \<longrightarrow> independent_block q)
    \<and> (route_of q \<in> set sol_routes \<and> family_of q = ''sol'' \<longrightarrow> critical_review q)"
proof -
  from assms have "route_of q \<noteq> ''none''" by (simp add: plan_required)
  with before_spawn_cases [of q] show ?thesis by (auto simp: route_of_def effective_of_def)
qed

lemma lane_arguments:
  assumes "ln_route l \<noteq> ''none''" "ln_model l = Some m" "ln_effort l = Some e"
  shows "spawn_arguments_of l = explicit_spawn m e"
  using assms by (simp add: spawn_arguments_of_def explicit_spawn_def)


definition example_request :: "int \<Rightarrow> string \<Rightarrow> routing_request" where
  "example_request raw intent = \<lparr>rq_raw = raw, rq_intent = intent, rq_impact = ''none'', rq_sensitivity = ''GREEN'',
     repository_default = None, global_default = \<lparr>ed_model = LUNA_MODEL, ed_effort = LUNA_DEFAULT_EFFORT\<rparr>,
     task_override = None, session_override = None, current_epoch = 0,
     capabilities = \<lparr>spawn_model_effort = True, active_analysis = True\<rparr>,
     rq_budget = \<lparr>rb_remaining = 2, explicit_class = Some ''high''\<rparr>, bounded_scope = True,
     local_verification_available = True, hard_gates_pass = True, independent_block = False,
     independent_block_count = 0, critical_review = False, failure_fingerprints = [], rq_origin = PStr []\<rparr>"

definition plain_env :: env where
  "plain_env = \<lparr>env_sha = (\<lambda>s. s), env_red = (\<lambda>s. False)\<rparr>"

lemma resolve_returns: "1 \<le> rq_raw q \<and> rq_raw q \<le> 10 \<Longrightarrow> \<exists>d. resolve_subagent_routing E q = Inr d"
  by (simp add: resolve_eq)

lemma example_advisor:
  "sp_required (plan_of (example_request 9 ''security''))
   \<and> ln_route (rs_lane (sp_state (plan_of (example_request 9 ''security'')))) = ''sol-advisor''"
  by code_simp


text \<open>The only error is a complexity out of range, and a decision without a lane spawns nothing.\<close>

lemma resolution_total:
  "case resolve_subagent_routing E q of
     Inl e \<Rightarrow> e = ValueError \<and> (rq_raw q < 1 \<or> 10 < rq_raw q)
   | Inr d \<Rightarrow> (rd_route d = ''none'') = (rd_spawn_arguments d = []) \<and> (if rd_route d = ''none'' then \<not> spawn_required d else True)
       \<and> 0 \<le> rd_worker_budget d \<and> rd_worker_budget d \<le> max_task_jobs d
       \<and> 0 \<le> rd_advisor_budget d \<and> rd_advisor_budget d \<le> max_task_advisors d"
proof (cases "resolve_subagent_routing E q")
  case (Inl e)
  then show ?thesis by (auto simp: resolve_eq split: if_splits)
next
  case (Inr d)
  note r = resolved [OF Inr]
  have "mk_dict [(''agent_type'', x), y, z, w] \<noteq> []" for x y z w
    by (metis keys_mk_dict image_is_empty insert_not_empty list.set(1) list.simps(15))
  then have a: "(ln_route l = ''none'') = (spawn_arguments_of l = [])" if "lane_ok b e l" for l b e
    using that by (auto simp: lane_ok_def spawn_arguments_of_def split: if_splits option.splits)
  have "max_task_jobs d = MAX_TASK_JOBS" "max_task_advisors d = MAX_TASK_ADVISORS"
    using Inr by (auto simp: resolve_eq split: if_splits)
  then show ?thesis
    using Inr r a [OF plan_lane_ok [of q]] plan_budgets [of q] plan_required [of q] plan_required_route [of q]
    by (auto simp: plan_arguments MAX_TASK_JOBS_def MAX_TASK_ADVISORS_def)
qed

text \<open>
  C32: an exhausted consultation budget does not stop a Terra worker, but the decision that asks for it gives
  \<open>budget-exhausted\<close> as its reason.
\<close>

theorem worker_reports_exhausted:
  assumes "resolve_subagent_routing E q = Inr d" "spawn_required d" "rd_route d = ''terra-implementation''"
    "rb_remaining (rq_budget q) \<le> 0"
  shows "rd_reason d = ''budget-exhausted'' \<and> rd_worker_budget d = 2 \<and> rd_spawn_arguments d = explicit_spawn TERRA_MODEL TERRA_EFFORT"
proof -
  note d = resolved [OF assms(1)]
  from assms(2) d have r: "sp_required (plan_of q)" by simp
  with plan_required_route [OF r] d assms(3) have "route_of q = ''terra-implementation''" by simp
  with r assms d plan_lane_ok [of q] plan_budgets [of q] show ?thesis
    by (auto simp: plan_lane plan_required plan_arguments lane_arguments lane_ok_def MAX_TASK_JOBS_def)
qed

definition exhausted :: "routing_request \<Rightarrow> routing_request" where
  "exhausted q = q\<lparr>rq_budget := (rq_budget q)\<lparr>rb_remaining := 0\<rparr>\<rparr>"

definition worker_request :: routing_request where
  "worker_request = exhausted ((example_request 5 ''implementation'')\<lparr>independent_block := True\<rparr>)"

lemma example_worker:
  "sp_required (plan_of worker_request)
   \<and> ln_route (rs_lane (sp_state (plan_of worker_request))) = ''terra-implementation''"
  by code_simp

theorem worker_reports_exhausted_witness:
  "\<exists>d. resolve_subagent_routing plain_env worker_request = Inr d \<and> spawn_required d \<and> rd_reason d = ''budget-exhausted''"
proof -
  obtain d where d: "resolve_subagent_routing plain_env worker_request = Inr d"
    using resolve_returns [of worker_request] by (auto simp: worker_request_def exhausted_def example_request_def)
  with example_worker have "spawn_required d" "rd_route d = ''terra-implementation''" by (simp_all add: resolved)
  with worker_reports_exhausted [OF d] d show ?thesis by (auto simp: worker_request_def exhausted_def)
qed

section \<open>The identity of a decision\<close>

definition identity_fields :: "routing_request \<Rightarrow> pdict" where
  "identity_fields q = fingerprint_fields q (rq_raw q) (effective_of q) (origin_of (rq_origin q))
     (intent_of (rq_intent q)) (impact_of (rq_impact q)) (sensitivity_of q) (progress_of q) (selected_override q)
     (sp_state (plan_of q))"

lemma decision_identity:
  "resolve_subagent_routing E q = Inr d \<Longrightarrow> decision_fingerprint d = fingerprint E (identity_fields q)"
  by (auto simp: resolve_eq identity_fields_def split: if_splits)

lemma override_stage_switch:
  "fst a = fst b \<Longrightarrow> \<not> p \<Longrightarrow>
     override_stage q e s p b sel base = (override_stage q e s p a sel base)\<lparr>rs_active := b\<rparr>"
  by (simp add: override_stage_def Let_def split: option.splits sum.splits)

lemma red_stage_switch: "red_stage s p sel (t\<lparr>rs_active := b\<rparr>) = (red_stage s p sel t)\<lparr>rs_active := b\<rparr>"
  by (simp add: red_stage_def Let_def split: option.splits)

lemma phase_stage_switch: "phase_stage q raw f (t\<lparr>rs_active := b\<rparr>) = (phase_stage q raw f t)\<lparr>rs_active := b\<rparr>"
  by (simp add: phase_stage_def suppress_def Let_def)

lemma unsupported_spawn_switch:
  "unsupported_spawn sel (t\<lparr>rs_active := b\<rparr>) = (unsupported_spawn sel t)\<lparr>rs_active := b\<rparr>"
  by (simp add: unsupported_spawn_def suppress_def Let_def split: option.splits)

lemma unsupported_active [simp]: "rs_active (unsupported_spawn sel t) = rs_active t"
  by (simp add: unsupported_spawn_def suppress_def Let_def split: option.splits)

lemma spawn_state:
  "sp_state (spawn_stage q False sel s) =
     (if ln_route (rs_lane s) = ''none'' then s
      else if \<not> spawn_model_effort (capabilities q) then unsupported_spawn sel s
      else if rb_remaining (rq_budget q) \<le> 0 then s\<lparr>rs_lane := (rs_lane s)\<lparr>ln_reason := ''budget-exhausted''\<rparr>\<rparr>
      else s)"
  by (simp add: spawn_stage_def Let_def)

lemma exhausted_simps [simp]:
  "rq_raw (exhausted q) = rq_raw q" "effective_of (exhausted q) = effective_of q"
  "sensitivity_of (exhausted q) = sensitivity_of q" "family_of (exhausted q) = family_of q"
  "progress_of (exhausted q) = progress_of q" "selected_override (exhausted q) = selected_override q"
  "capabilities (exhausted q) = capabilities q" "rb_remaining (rq_budget (exhausted q)) = 0"
  "phase_stage (exhausted q) raw f st = phase_stage q raw f st"
  "override_stage (exhausted q) e s p a sel base = override_stage q e s p a sel base"
  by (simp_all add: exhausted_def effective_of_def sensitivity_of_def family_of_def progress_of_def
      executor_defaults_of_def selected_override_def phase_stage_def override_stage_def Let_def cong: option.case_cong if_cong)

lemma exhausted_inactive: "\<not> fst (active_of (exhausted q))"
  by (simp add: active_of_def active_granted)

lemma before_spawn_exhausted:
  assumes "\<not> progress_of q" "\<not> fst (active_of q)"
  shows "before_spawn (exhausted q) = (before_spawn q)\<lparr>rs_active := active_of (exhausted q)\<rparr>"
proof -
  have e: "fst (active_of q) = fst (active_of (exhausted q))" using assms exhausted_inactive by simp
  have i: "intent_of (rq_intent (exhausted q)) = intent_of (rq_intent q)" "independent_block (exhausted q) = independent_block q"
    "critical_review (exhausted q) = critical_review q" "failure_fingerprints (exhausted q) = failure_fingerprints q"
    by (simp_all add: exhausted_def)
  show ?thesis
    unfolding before_spawn_def before_phase_def exhausted_simps i
    by (simp only: override_stage_switch [OF e assms(1)] red_stage_switch phase_stage_switch)
qed


text \<open>
  C33: the comment on the fingerprint says that consuming a consultation must not manufacture a new task identity.
  It holds exactly where active analysis was not eligible: then the hashed fields are the same with the budget
  exhausted.  Where it was eligible, the field \<open>active_ok\<close> flips.
\<close>

theorem identity_under_budget:
  "if fst (active_of q) \<and> \<not> progress_of q
   then map_of (identity_fields q) ''active_ok'' = Some (PBool True)
      \<and> map_of (identity_fields (exhausted q)) ''active_ok'' = Some (PBool False)
   else identity_fields (exhausted q) = identity_fields q"
proof -
  have active: "map_of (identity_fields q) ''active_ok'' = Some (PBool (fst (rs_active (sp_state (plan_of q)))))" for q
    by (simp add: identity_fields_def fingerprint_fields_def map_of_mk_dict)
  have kept: "rs_active (sp_state (plan_of q)) = rs_active (before_spawn q)" for q
    by (simp add: plan_of_def spawn_stage_def unsupported_spawn_def suppress_def Let_def split: option.splits)
  have fields: "fingerprint_fields (exhausted q) raw e or i im s p sel t = fingerprint_fields q raw e or i im s p sel t" for raw e "or" i im s p sel t
    by (simp add: fingerprint_fields_def exhausted_def executor_defaults_of_def cong: option.case_cong)
  show ?thesis
  proof (cases "progress_of q")
    case True
    then have p: "before_spawn (exhausted q) = before_spawn q"
      by (simp add: before_spawn_def before_phase_def override_stage_def)
    with True have "sp_state (plan_of (exhausted q)) = sp_state (plan_of q)" by (simp add: plan_of_def spawn_stage_def)
    with True show ?thesis by (simp add: identity_fields_def fields, simp add: exhausted_def)
  next
    case False
    show ?thesis
    proof (cases "fst (active_of q)")
      case True
      with False show ?thesis
        using before_spawn_active [of q] before_spawn_active [of "exhausted q"] exhausted_inactive [of q]
        by (simp add: active kept)
    next
      case inactive: False
      have b: "before_spawn (exhausted q) = (before_spawn q)\<lparr>rs_active := active_of (exhausted q)\<rparr>"
        using False inactive by (rule before_spawn_exhausted)
      have f: "fst (rs_active (before_spawn q)) = fst (active_of (exhausted q))"
        using False inactive exhausted_inactive before_spawn_active by simp
      have "fingerprint_fields q raw e or i im s p sel (sp_state (plan_of (exhausted q)))
          = fingerprint_fields q raw e or i im s p sel (sp_state (plan_of q))" for raw e "or" i im s p sel
        using False f by (simp add: plan_of_def spawn_state b unsupported_spawn_switch fingerprint_fields_def unsupported_active)
      with False inactive show ?thesis by (simp add: identity_fields_def fields, simp add: exhausted_def)
    qed
  qed
qed

end
