(* ===== verification/ShellLex.thy ===== *)
theory ShellLex
  imports PyConv
begin

text \<open>
  Shell words: \<open>shlex.shlex(text, posix=True, punctuation_chars=P)\<close> of the standard
  library with \<open>whitespace_split = True\<close>, as \<open>cloud_operation_gate.py\<close> and
  \<open>script_operation_inspector.py\<close> use it, and \<open>shlex.split\<close>.  The states are those of
  \<open>shlex.read_token\<close>; \<open>InComment\<close> is its \<open>readline\<close>.  A text that ends inside quotes or
  after a backslash raises \<open>ValueError\<close>.
\<close>

section \<open>Paths as names\<close>

text \<open>\<open>Path(s).name\<close>\<close>

definition path_name :: "string \<Rightarrow> string" where
  "path_name s = (case rev (filter (\<lambda>p. p \<noteq> [] \<and> p \<noteq> ''.'') (split_on (CHR ''/'') s)) of [] \<Rightarrow> [] | p # _ \<Rightarrow> p)"

text \<open>\<open>s.split("=", 1)[0]\<close> and, where there is an equals sign, \<open>s.split("=", 1)[1]\<close>\<close>

definition before_eq :: "string \<Rightarrow> string" where
  "before_eq s = takeWhile (\<lambda>c. c \<noteq> CHR ''='') s"
definition after_eq :: "string \<Rightarrow> string" where
  "after_eq s = drop 1 (dropWhile (\<lambda>c. c \<noteq> CHR ''='') s)"
definition has_eq :: "string \<Rightarrow> bool" where
  "has_eq s = (CHR ''='' \<in> set s)"

text \<open>\<open>str.isalpha\<close> on code points below 256\<close>

definition alpha_char :: "char \<Rightarrow> bool" where
  "alpha_char c = (let n = ordc c in
     (65 \<le> n \<and> n \<le> 90) \<or> (97 \<le> n \<and> n \<le> 122) \<or> n = 170 \<or> n = 181 \<or> n = 186
     \<or> (192 \<le> n \<and> n \<noteq> 215 \<and> n \<noteq> 247))"
definition is_alpha :: "string \<Rightarrow> bool" where
  "is_alpha s = (s \<noteq> [] \<and> list_all alpha_char s)"

section \<open>The lexer\<close>

datatype lex_state = Blank | InComment | InWord | InPunct | InQuote char | Escaped | EscapedQuote

definition lex_space :: "char \<Rightarrow> bool" where
  "lex_space c = (ordc c \<in> {32, 9, 13, 10 :: nat})"
definition lex_quotes :: "char list" where
  "lex_quotes = [CHR 39, quote]"
definition newline :: char where "newline = CHR 10"

text \<open>One character in the state between tokens.\<close>

definition enter :: "string \<Rightarrow> string \<Rightarrow> char \<Rightarrow> lex_state \<times> string" where
  "enter P C c =
     (if lex_space c then (Blank, [])
      else if c \<in> set C then (InComment, [])
      else if c = bslash then (Escaped, [])
      else if c \<in> set P then (InPunct, [c])
      else if c \<in> set lex_quotes then (InQuote c, [])
      else (InWord, [c]))"

definition emit :: "string \<Rightarrow> bool \<Rightarrow> string list" where
  "emit tok quoted = (if tok \<noteq> [] \<or> quoted then [tok] else [])"

definition emit_before :: "string \<Rightarrow> bool \<Rightarrow> string list res \<Rightarrow> string list res" where
  "emit_before tok quoted r = bindE r (\<lambda>ts. Inr (emit tok quoted @ ts))"

fun lex :: "string \<Rightarrow> string \<Rightarrow> lex_state \<Rightarrow> string \<Rightarrow> bool \<Rightarrow> string \<Rightarrow> string list res" where
  "lex P C st tok quoted [] =
     (case st of InQuote _ \<Rightarrow> Inl ValueError | Escaped \<Rightarrow> Inl ValueError | EscapedQuote \<Rightarrow> Inl ValueError
      | _ \<Rightarrow> Inr (emit tok quoted))"
| "lex P C st tok quoted (c # s) =
     (case st of
        Blank \<Rightarrow> (let (st', tok') = enter P C c in lex P C st' tok' False s)
      | InComment \<Rightarrow> lex P C (if c = newline then Blank else InComment) [] False s
      | InWord \<Rightarrow>
          if lex_space c \<or> c \<in> set C \<or> c \<in> set P
          then emit_before tok quoted (let (st', tok') = enter P C c in lex P C st' tok' False s)
          else if c \<in> set lex_quotes then lex P C (InQuote c) tok quoted s
          else if c = bslash then lex P C Escaped tok quoted s
          else lex P C InWord (tok @ [c]) quoted s
      | InPunct \<Rightarrow>
          if c \<in> set P \<and> \<not> lex_space c \<and> c \<notin> set C then lex P C InPunct (tok @ [c]) quoted s
          else emit_before tok quoted (let (st', tok') = enter P C c in lex P C st' tok' False s)
      | InQuote k \<Rightarrow>
          if c = k then lex P C InWord tok True s
          else if c = bslash \<and> k = quote then lex P C EscapedQuote tok True s
          else lex P C (InQuote k) (tok @ [c]) True s
      | Escaped \<Rightarrow> lex P C InWord (tok @ [c]) quoted s
      | EscapedQuote \<Rightarrow>
          lex P C (InQuote quote) (tok @ (if c = bslash \<or> c = quote then [c] else [bslash, c])) quoted s)"

definition shlex_tokens :: "string \<Rightarrow> string \<Rightarrow> string list res" where
  "shlex_tokens punctuation text0 = lex punctuation ''#'' Blank [] False text0"

definition shlex_split :: "string \<Rightarrow> string list res" where
  "shlex_split text0 = lex [] [] Blank [] False text0"

text \<open>Tokens grouped at the pieces that consist of punctuation only.\<close>

fun group_segments :: "string \<Rightarrow> string list \<Rightarrow> string list \<Rightarrow> string list list" where
  "group_segments P current [] = (if current = [] then [] else [current])"
| "group_segments P current (t # ts) =
     (if t \<noteq> [] \<and> list_all (\<lambda>c. c \<in> set P) t
      then (if current = [] then [] else [current]) @ group_segments P [] ts
      else group_segments P (current @ [t]) ts)"

section \<open>Tokens are no longer than the text\<close>

definition width :: "string list \<Rightarrow> nat" where
  "width ts = sum_list (map length ts)"

lemma width_simps [simp]: "width [] = 0" "width (t # ts) = length t + width ts" "width (ts @ us) = width ts + width us"
  by (simp_all add: width_def)

lemma emit_width: "width (emit tok q) \<le> length tok"
  by (simp add: emit_def)

definition pending :: "lex_state \<Rightarrow> nat" where
  "pending st = (if st = EscapedQuote then 1 else 0)"

lemma enter_width: "enter P C c = (st, tok) \<Longrightarrow> length tok \<le> 1 \<and> pending st = 0"
  by (auto simp: enter_def pending_def split: if_splits)

lemma lex_width: "lex P C st tok q s = Inr ts \<Longrightarrow> width ts \<le> length tok + length s + pending st"
proof (induction P C st tok q s arbitrary: ts rule: lex.induct)
  case (1 P C st tok q)
  then show ?case using emit_width [of tok q] by (auto split: lex_state.splits simp: pending_def)
next
  case (2 P C st tok q c s)
  obtain st' tok' where e: "enter P C c = (st', tok')" by fastforce
  note ew = enter_width [OF e]
  have emitted: "width ts \<le> length tok + Suc (length s)"
    if "emit_before tok q (lex P C st' tok' False s) = Inr ts"
      and "\<And>us. lex P C st' tok' False s = Inr us \<Longrightarrow> width us \<le> length tok' + length s + pending st'"
    using that ew emit_width [of tok q] by (fastforce simp: emit_before_def bindE_def split: sum.splits)
  show ?case
  proof (cases st)
    case Blank
    with 2 e ew show ?thesis by (fastforce simp: pending_def)
  next
    case InComment
    with "2.prems" "2.IH"(2) [OF InComment] show ?thesis by (fastforce simp: pending_def split: if_splits)
  next
    case InWord
    show ?thesis
    proof (cases "lex_space c \<or> c \<in> set C \<or> c \<in> set P")
      case True
      with InWord "2.prems" e "2.IH"(3) [OF InWord True e [symmetric] refl] emitted show ?thesis by simp
    next
      case False
      with InWord "2.prems" "2.IH"(4-6) [OF InWord False] show ?thesis
        by (fastforce simp: pending_def split: if_splits)
    qed
  next
    case InPunct
    show ?thesis
    proof (cases "c \<in> set P \<and> \<not> lex_space c \<and> c \<notin> set C")
      case True
      with InPunct "2.prems" "2.IH"(7) [OF InPunct True] show ?thesis by (fastforce simp: pending_def)
    next
      case False
      with InPunct "2.prems" e "2.IH"(8) [OF InPunct False e [symmetric] refl] emitted show ?thesis
        by (simp only: lex.simps lex_state.simps if_False Let_def prod.case) simp
    qed
  next
    case (InQuote k)
    with "2.prems" "2.IH"(9-11) [OF InQuote] show ?thesis by (fastforce simp: pending_def split: if_splits)
  next
    case Escaped
    with "2.prems" "2.IH"(12) [OF Escaped] show ?thesis by (fastforce simp: pending_def)
  next
    case EscapedQuote
    with "2.prems" "2.IH"(13) [OF EscapedQuote] show ?thesis by (fastforce simp: pending_def split: if_splits)
  qed
qed

lemma shlex_split_width: "shlex_split s = Inr ts \<Longrightarrow> width ts \<le> length s"
  using lex_width [of "[]" "[]" Blank "[]" False s ts] by (simp add: shlex_split_def pending_def)

end
