(* ===== verification/CloudGate.thy ===== *)
theory CloudGate
  imports ShellLex
begin

text \<open>
  \<open>.codex/hooks/shared/cloud_operation_gate.py\<close>: whether a shell command that
  reaches a cloud tool is allowed, needs approval or is blocked.  What the code
  asks of other programs and of the file system is a record of functions,
  \<open>inspector\<close>: the context verifier the code itself takes as an argument, path
  resolution, and the readers of \<open>script_operation_inspector.py\<close> that open files.
  The nested functions \<open>assess_parts\<close> and \<open>assess_sequence\<close>, which append to lists of the
  enclosing call, take and return those lists in \<open>gate_state\<close>.
\<close>

section \<open>Vocabulary\<close>

definition CLOUD_TOOLS :: "string list" where
  "CLOUD_TOOLS = [''aws'', ''gcloud'', ''helm'', ''kubectl'', ''minikube'', ''terraform'']"
definition READ_ACTIONS :: "string list" where
  "READ_ACTIONS = [''api-resources'', ''api-versions'', ''can-i'', ''cluster-info'', ''describe'', ''diff'', ''explain'',
     ''get'', ''get-contexts'', ''head'', ''history'', ''info'', ''list'', ''logs'', ''ls'', ''output'', ''plan'',
     ''providers'', ''search'', ''show'', ''status'', ''template'', ''top'', ''validate'', ''version'', ''view'', ''whoami'']"
definition DESTRUCTIVE_ACTIONS :: "string list" where
  "DESTRUCTIVE_ACTIONS = [''delete'', ''destroy'', ''drain'', ''drop'', ''purge'', ''remove'', ''rm'', ''terminate'',
     ''uninstall'', ''wipe'']"
definition MUTATING_ACTIONS :: "string list" where
  "MUTATING_ACTIONS = [''add'', ''annotate'', ''apply'', ''attach'', ''autoscale'', ''cordon'', ''cp'', ''create'',
     ''deploy'', ''detach'', ''edit'', ''expose'', ''import'', ''install'', ''label'', ''move'', ''mv'', ''patch'', ''put'',
     ''replace'', ''restart'', ''restore'', ''resume'', ''rollback'', ''rollout'', ''scale'', ''set'', ''start'', ''stop'',
     ''submit'', ''suspend'', ''taint'', ''uncordon'', ''update'', ''upgrade'', ''use-context'']"
definition COMPLETE_KUBERNETES_RESOURCES :: "string list" where
  "COMPLETE_KUBERNETES_RESOURCES = [''cluster'', ''clusters'', ''crd'', ''customresourcedefinition'',
     ''customresourcedefinitions'', ''namespace'', ''namespaces'', ''node'', ''nodes'', ''ns'']"
definition COMMAND_WRAPPERS :: "string list" where
  "COMMAND_WRAPPERS = [''builtin'', ''command'', ''exec'', ''nohup'', ''sudo'']"
definition SUDO_VALUE_OPTIONS :: "string list" where
  "SUDO_VALUE_OPTIONS = [''-C'', ''-D'', ''-R'', ''-T'', ''-U'', ''-g'', ''-h'', ''-p'', ''-r'', ''-t'', ''-u'']"
definition SHELL_INTERPRETERS :: "string list" where
  "SHELL_INTERPRETERS = [''bash'', ''sh'', ''zsh'']"
definition SHELL_VALUE_OPTIONS :: "string list" where
  "SHELL_VALUE_OPTIONS = [''-O'', ''+O'', ''-o'', ''+o'', ''--init-file'', ''--rcfile'']"

datatype gate_action = Allow | Approval | Block

record assessment =
  as_action :: gate_action
  as_reason_code :: string
  as_reason :: string
  as_risk :: string
  as_tool :: string
  as_consequence :: string
  as_context :: string
  as_profile :: string
  as_warning :: string
  as_subject :: string

definition plain_assessment :: "gate_action \<Rightarrow> string \<Rightarrow> assessment" where
  "plain_assessment action tool_name = \<lparr>as_action = action, as_reason_code = [], as_reason = [], as_risk = [],
     as_tool = tool_name, as_consequence = [], as_context = [], as_profile = [], as_warning = [], as_subject = []\<rparr>"

record context_verification =
  cv_valid :: bool
  cv_minikube :: bool
  cv_profile :: string

text \<open>
  \<open>verifier\<close> is the argument of the same name; \<open>expanded\<close> is \<open>str(Path(s).expanduser())\<close>,
  \<open>resolved_in\<close> is \<open>str((cwd / p).resolve(strict=False))\<close>; the last four are
  \<open>script_path\<close>, \<open>wrapper_script_path\<close>, \<open>script_cloud_commands\<close> and
  \<open>inline_shell_cloud_commands\<close> of \<open>script_operation_inspector.py\<close>.
\<close>

record inspector =
  verifier :: "string \<Rightarrow> string \<Rightarrow> context_verification"
  expanded :: "string \<Rightarrow> string"
  resolved_in :: "string \<Rightarrow> string \<Rightarrow> string"
  home_wrapper :: string
  script_path :: "string list \<Rightarrow> string \<Rightarrow> string option"
  wrapper_script_path :: "string list \<Rightarrow> string \<Rightarrow> string option"
  script_cloud_commands :: "string \<Rightarrow> bool \<Rightarrow> string list \<times> string \<times> string"
  inline_shell_cloud_commands :: "string \<Rightarrow> string list \<times> string"

section \<open>Segments\<close>

definition tool_of :: "string \<Rightarrow> string" where
  "tool_of s = str_lower (path_name s)"

text \<open>Unquoted line ends become semicolons.\<close>

fun normalize_lines :: "char option \<Rightarrow> bool \<Rightarrow> string \<Rightarrow> string" where
  "normalize_lines q escaped [] = []"
| "normalize_lines q escaped (c # s) =
     (if escaped then c # normalize_lines q False s
      else if c = bslash \<and> q \<noteq> Some (CHR 39) then c # normalize_lines q True s
      else
        (let q' = (if c \<in> set lex_quotes then (if q = Some c then None else if q = None then Some c else q) else q)
         in (if c = newline \<and> q' = None then CHR '';'' else c) # normalize_lines q' False s))"

definition segments :: "string \<Rightarrow> string list list res" where
  "segments command = bindE (shlex_tokens '';&|'' (normalize_lines None False command))
     (\<lambda>ts. Inr (group_segments '';&|'' [] ts))"

definition env_value_options :: "string list" where
  "env_value_options = [''-u'', ''--unset'', ''-C'', ''--chdir'', ''-S'', ''--split-string'', ''-a'', ''--argv0'']"

fun skip_env :: "string list \<Rightarrow> string list" where
  "skip_env [] = []"
| "skip_env [p] = (if before_eq p \<in> set env_value_options \<or> starts_with p ''-'' \<or> has_eq p then [] else [p])"
| "skip_env (p # p2 # ps) =
     (if before_eq p \<in> set env_value_options then (if has_eq p then skip_env (p2 # ps) else skip_env ps)
      else if starts_with p ''-'' then skip_env (p2 # ps)
      else if \<not> has_eq p then p # p2 # ps
      else skip_env (p2 # ps))"

definition without_environment :: "string list \<Rightarrow> string list" where
  "without_environment parts = (case parts of [] \<Rightarrow> []
     | p # ps \<Rightarrow> dropWhile (\<lambda>p. has_eq p \<and> \<not> starts_with p ''-'') (if tool_of p = ''env'' then skip_env ps else p # ps))"

fun environment_value :: "string list \<Rightarrow> string \<Rightarrow> string" where
  "environment_value [] name = []"
| "environment_value (p # ps) name =
     (if starts_with p (name @ ''='') then after_eq p
      else if tool_of p \<in> set CLOUD_TOOLS then [] else environment_value ps name)"

fun option_value :: "string list \<Rightarrow> string \<Rightarrow> string" where
  "option_value [] name = []"
| "option_value (p # ps) name =
     (if p = name \<and> ps \<noteq> [] then hd ps
      else if starts_with p (name @ ''='') then after_eq p else option_value ps name)"

definition context_of :: "string list \<Rightarrow> string" where
  "context_of parts = option_value parts ''--context''"

definition dashes :: "string \<Rightarrow> string" where
  "dashes s = replace_char (CHR ''_'') (CHR ''-'') (str_lower s)"

definition words_of :: "string list \<Rightarrow> string list" where
  "words_of parts = map (\<lambda>p. dashes (path_name p)) (filter (\<lambda>p. p \<noteq> [] \<and> \<not> starts_with p ''-'') (drop 1 parts))"

definition kubectl_complete_deletion :: "string list \<Rightarrow> bool" where
  "kubectl_complete_deletion parts =
     (let operands = map dashes (filter (\<lambda>p. p \<noteq> [] \<and> \<not> starts_with p ''-'') (drop 1 parts)) in
      if ''delete'' \<notin> set operands then False
      else ''--all'' \<in> set parts \<or> ''--all-namespaces'' \<in> set parts \<or> ''-A'' \<in> set parts
        \<or> list_ex (\<lambda>r. takeWhile (\<lambda>c. c \<noteq> CHR ''/'') r \<in> set COMPLETE_KUBERNETES_RESOURCES)
             (drop 1 (dropWhile (\<lambda>p. p \<noteq> ''delete'') operands))
        \<or> list_ex (\<lambda>p. p \<in> {''-f'', ''--filename'', ''-k'', ''--kustomize''}
             \<or> starts_with p ''--filename='' \<or> starts_with p ''--kustomize='') parts)"

definition names_action :: "string list \<Rightarrow> string \<Rightarrow> bool" where
  "names_action actions word = list_ex (\<lambda>a. word = a \<or> starts_with word (a @ ''-'')) actions"

fun adjacent :: "string \<Rightarrow> string \<Rightarrow> string list \<Rightarrow> bool" where
  "adjacent a b (x # y # ws) = (x = a \<and> y = b \<or> adjacent a b (y # ws))"
| "adjacent a b _ = False"

definition classify_words :: "string list \<Rightarrow> string \<times> string" where
  "classify_words parts =
     (let words = words_of parts in
      if adjacent ''rollout'' ''status'' words then (''read'', [])
      else case find (names_action DESTRUCTIVE_ACTIONS) words of
        Some w \<Rightarrow> (''destructive'', w)
      | None \<Rightarrow> (case find (names_action MUTATING_ACTIONS) words of
          Some w \<Rightarrow> (''mutating'', w)
        | None \<Rightarrow>
            if list_ex (\<lambda>w. w \<in> set READ_ACTIONS \<or> starts_with w ''describe-'' \<or> starts_with w ''get-''
                 \<or> starts_with w ''list-'' \<or> starts_with w ''head-'') words
            then (''read'', []) else (''mutating'', ''unclassified'')))"

fun command_option :: "string list \<Rightarrow> string" where
  "command_option [] = []"
| "command_option (p # ps) =
     (if starts_with p ''-'' \<and> \<not> starts_with p ''--'' \<and> is_alpha (drop 1 p) \<and> CHR ''c'' \<in> set (drop 1 p)
      then (case ps of [] \<Rightarrow> [] | v # _ \<Rightarrow> v) else command_option ps)"

definition shell_command :: "string list \<Rightarrow> string" where
  "shell_command parts = command_option (drop 1 parts)"

text \<open>\<open>_env_split_parts\<close>: the words of the split string, none without that option, \<open>Inl\<close> when it is invalid.\<close>

fun env_split :: "string list \<Rightarrow> string list option res" where
  "env_split [] = Inr None"
| "env_split (p # ps) =
     (if p = ''-S'' \<or> p = ''--split-string'' then
        (case ps of [] \<Rightarrow> Inl ValueError | v # _ \<Rightarrow> bindE (shlex_split v) (\<lambda>ts. Inr (Some ts)))
      else if starts_with p ''--split-string='' then bindE (shlex_split (after_eq p)) (\<lambda>ts. Inr (Some ts))
      else if starts_with p ''-S'' then bindE (shlex_split (drop 2 p)) (\<lambda>ts. Inr (Some ts))
      else env_split ps)"

definition env_split_parts :: "string list \<Rightarrow> string list option res" where
  "env_split_parts parts = env_split (drop 1 parts)"

fun skip_options :: "bool \<Rightarrow> string list \<Rightarrow> string list" where
  "skip_options sudo [] = []"
| "skip_options sudo [p] =
     (if sudo \<and> before_eq p \<in> set SUDO_VALUE_OPTIONS then []
      else if p = ''--'' then [] else if starts_with p ''-'' then [] else [p])"
| "skip_options sudo (p # p2 # ps) =
     (if sudo \<and> before_eq p \<in> set SUDO_VALUE_OPTIONS
        then (if has_eq p then skip_options sudo (p2 # ps) else skip_options sudo ps)
      else if p = ''--'' then p2 # ps
      else if starts_with p ''-'' then skip_options sudo (p2 # ps)
      else p # p2 # ps)"

definition wrapped_command_parts :: "string list \<Rightarrow> string list" where
  "wrapped_command_parts parts = (case parts of [] \<Rightarrow> []
     | p # ps \<Rightarrow> skip_options (tool_of p = ''sudo'') ps)"

text \<open>\<open>shell_noexec\<close> of \<open>script_operation_inspector.py\<close>\<close>

fun noexec_after :: "bool \<Rightarrow> string list \<Rightarrow> bool" where
  "noexec_after noexec [] = noexec"
| "noexec_after noexec (p # ps) =
     (if p = ''--'' then noexec
      else if before_eq p = ''-o'' \<or> before_eq p = ''+o'' then
        (let v = (if has_eq p then after_eq p else (case ps of [] \<Rightarrow> [] | w # _ \<Rightarrow> w));
             noexec' = (if v = ''noexec'' then before_eq p = ''-o'' else noexec)
         in if has_eq p then noexec_after noexec' ps else noexec_after noexec' (drop 1 ps))
      else if before_eq p \<in> set SHELL_VALUE_OPTIONS then
        (if has_eq p then noexec_after noexec ps else noexec_after noexec (drop 1 ps))
      else if starts_with p ''--'' then noexec_after noexec ps
      else if length p > 1 \<and> hd p \<in> {CHR ''-'', CHR ''+''} \<and> is_alpha (tl p) then
        (let noexec' = (if CHR ''n'' \<in> set (tl p) then hd p = CHR ''-'' else noexec)
         in if CHR ''c'' \<in> set (tl p) then noexec' else noexec_after noexec' ps)
      else noexec)"

definition shell_noexec :: "string list \<Rightarrow> bool" where
  "shell_noexec parts = (case parts of [] \<Rightarrow> False
     | p # ps \<Rightarrow> tool_of p \<in> set SHELL_INTERPRETERS \<and> noexec_after False ps)"

section \<open>One cloud command\<close>

definition approval_of :: "string \<Rightarrow> string \<Rightarrow> string \<Rightarrow> assessment" where
  "approval_of tool_name risk consequence = (plain_assessment Approval tool_name)
     \<lparr>as_reason_code := ''cloud_command_approval_required'', as_risk := risk, as_consequence := consequence\<rparr>"

definition destructive_block :: "string \<Rightarrow> string \<Rightarrow> assessment" where
  "destructive_block tool_name consequence = (plain_assessment Block tool_name)
     \<lparr>as_reason_code := ''cloud_destructive_command_blocked'',
      as_reason := ''Blocked a proven destructive '' @ tool_name @ '' operation: '' @ consequence @ ''.'',
      as_risk := ''destructive'', as_consequence := consequence\<rparr>"

definition context_required :: assessment where
  "context_required = (plain_assessment Block ''kubectl'')\<lparr>as_reason_code := ''kubectl_context_required'',
     as_reason := ''Every kubectl command must declare --context explicitly.''\<rparr>"

definition context_not_static :: assessment where
  "context_not_static = (plain_assessment Block ''kubectl'')\<lparr>as_reason_code := ''kubectl_context_not_static'',
     as_reason := ''kubectl --context must be a static context name.''\<rparr>"

definition context_invalid :: "string \<Rightarrow> assessment" where
  "context_invalid ctx = (plain_assessment Block ''kubectl'')\<lparr>as_reason_code := ''kubectl_context_invalid'',
     as_reason := ''The declared kubectl context does not resolve to a configured cluster.'', as_context := ctx\<rparr>"

definition dynamic_text :: "string \<Rightarrow> bool" where
  "dynamic_text s = list_ex (\<lambda>c. c \<in> set ''$`{}'') s"

definition effective_kubeconfig :: "inspector \<Rightarrow> string list \<Rightarrow> string \<Rightarrow> string \<Rightarrow> string" where
  "effective_kubeconfig G parts kubeconfig cwd =
     (let k = (if option_value parts ''--kubeconfig'' \<noteq> [] then option_value parts ''--kubeconfig'' else kubeconfig) in
      if k = [] then []
      else if starts_with (expanded G k) ''/'' then expanded G k
      else resolved_in G cwd (expanded G k))"

definition assess_kubectl :: "inspector \<Rightarrow> string list \<Rightarrow> string \<Rightarrow> string \<Rightarrow> assessment" where
  "assess_kubectl G parts kubeconfig cwd =
     (let (risk, operation) = classify_words parts; ctx = context_of parts in
      if ctx = [] then context_required
      else if dynamic_text ctx then context_not_static
      else
        (let verification = verifier G ctx (effective_kubeconfig G parts kubeconfig cwd);
             complete = kubectl_complete_deletion parts;
             consequence = (if complete then ''delete a complete Kubernetes scope''
                            else operation @ '' non-minikube cluster state'')
         in if \<not> cv_valid verification then context_invalid ctx
            else if cv_minikube verification \<and> \<not> complete then
              (plain_assessment Allow ''kubectl'')\<lparr>as_context := ctx, as_profile := cv_profile verification,
                 as_warning := (if risk = ''read'' then []
                   else ''verified minikube '' @ ctx @ '': '' @ operation @ '' local resources'')\<rparr>
            else if risk = ''read'' then (plain_assessment Allow ''kubectl'')\<lparr>as_context := ctx\<rparr>
            else if risk = ''destructive'' \<or> complete
              then (destructive_block ''kubectl'' consequence)\<lparr>as_context := ctx\<rparr>
            else (approval_of ''kubectl'' (if complete then ''destructive'' else risk) consequence)\<lparr>as_context := ctx\<rparr>))"

definition assess_cloud_parts :: "inspector \<Rightarrow> string list \<Rightarrow> string \<Rightarrow> string \<Rightarrow> assessment" where
  "assess_cloud_parts G parts kubeconfig cwd =
     (let tool_name = tool_of (hd parts); (risk, operation) = classify_words parts in
      if tool_name \<noteq> ''kubectl'' then
        if risk = ''read'' then plain_assessment Allow tool_name
        else if risk = ''destructive'' then destructive_block tool_name (operation @ '' cluster or cloud state'')
        else approval_of tool_name risk (operation @ '' cluster or cloud state'')
      else assess_kubectl G parts kubeconfig cwd)"

definition choose_assessment :: "assessment list \<Rightarrow> assessment" where
  "choose_assessment assessments =
     (case find (\<lambda>a. as_action a = Block) assessments of Some a \<Rightarrow> a
      | None \<Rightarrow>
        (case filter (\<lambda>a. as_action a = Approval) assessments of
           a # approvals \<Rightarrow> (case find (\<lambda>b. as_risk b = ''destructive'') (a # approvals) of Some b \<Rightarrow> b | None \<Rightarrow> a)
         | [] \<Rightarrow> (case find (\<lambda>a. as_warning a \<noteq> []) assessments of Some a \<Rightarrow> a
             | None \<Rightarrow> (case find (\<lambda>a. as_tool a \<noteq> []) assessments of Some a \<Rightarrow> a
                 | None \<Rightarrow> plain_assessment Allow []))))"

section \<open>A whole command\<close>

record gate_state =
  gs_assessments :: "assessment list"
  gs_scripts :: "string list"
  gs_hashes :: "string list"

definition add_assessment :: "assessment \<Rightarrow> gate_state \<Rightarrow> gate_state" where
  "add_assessment a st = st\<lparr>gs_assessments := gs_assessments st @ [a]\<rparr>"

definition local_approval :: "string \<Rightarrow> assessment" where
  "local_approval consequence = approval_of ''local-script'' ''mutating'' consequence"

definition env_cwd :: "inspector \<Rightarrow> string list \<Rightarrow> string \<Rightarrow> string" where
  "env_cwd G raw cwd =
     (let e = (if option_value raw ''--chdir'' \<noteq> [] then option_value raw ''--chdir'' else option_value raw ''-C'') in
      if e = [] then cwd else resolved_in G cwd (expanded G e))"

definition is_env :: "string list \<Rightarrow> bool" where
  "is_env raw = (case raw of [] \<Rightarrow> False | p # _ \<Rightarrow> tool_of p = ''env'')"

fun xargs_command :: "inspector \<Rightarrow> string \<Rightarrow> string list \<Rightarrow> string list" where
  "xargs_command G cwd [] = []"
| "xargs_command G cwd (p # ps) =
     (if tool_of p \<in> set CLOUD_TOOLS \<or> tool_of p \<in> set SHELL_INTERPRETERS \<or> script_path G (p # ps) cwd \<noteq> None
      then p # ps else xargs_command G cwd ps)"

definition wrapper_tools :: "string list" where
  "wrapper_tools = [''run-local-minikube-script'', ''run-local-minikube-script.py'']"

text \<open>The branch of the minikube runner: what it refuses, or the assessment and the script it allows.\<close>

definition minikube_wrapper :: "inspector \<Rightarrow> string list \<Rightarrow> string \<Rightarrow> assessment + assessment \<times> string" where
  "minikube_wrapper G parts cwd =
     (let ctx = context_of parts;
          verification = (if ctx \<noteq> [] then verifier G ctx []
                          else \<lparr>cv_valid = False, cv_minikube = False, cv_profile = []\<rparr>)
      in if expanded G (hd parts) \<noteq> home_wrapper G then Inl (local_approval ''execute an unverified minikube wrapper'')
         else if ctx = [] \<or> \<not> cv_valid verification \<or> \<not> cv_minikube verification
              \<or> option_value parts ''--profile'' \<noteq> cv_profile verification
           then Inl ((plain_assessment Block ''local-script'')\<lparr>as_reason_code := ''minikube_wrapper_context_invalid'',
             as_reason := ''The minikube runner requires matching --profile and --context values that resolve to the same running minikube API endpoint.'',
             as_context := ctx\<rparr>)
         else (case wrapper_script_path G parts cwd of
             None \<Rightarrow> Inl ((plain_assessment Block ''local-script'')\<lparr>as_reason_code := ''local_script_invalid'',
               as_reason := ''The minikube runner requires a readable regular script file.''\<rparr>)
           | Some script \<Rightarrow> Inr ((plain_assessment Allow ''local-script'')\<lparr>as_context := ctx,
               as_profile := cv_profile verification\<rparr>, script)))"

text \<open>Inspection of a script: \<open>None\<close> stands for a command in it that cannot be parsed.\<close>

definition script_items :: "string list \<Rightarrow> string list option list" where
  "script_items commands = concat (map (\<lambda>c. case segments c of Inl _ \<Rightarrow> [None] | Inr ss \<Rightarrow> map Some ss) commands)"

definition inspect_script :: "inspector \<Rightarrow> string \<Rightarrow> string \<Rightarrow> gate_state \<Rightarrow> gate_state \<times> string list option list" where
  "inspect_script G tool_name script st =
     (let (commands, error_text, script_hash) = script_cloud_commands G script (tool_name \<in> set SHELL_INTERPRETERS);
          st1 = st\<lparr>gs_scripts := gs_scripts st @ [script],
                   gs_hashes := gs_hashes st @ (if script_hash \<noteq> [] then [script @ '':'' @ script_hash] else [])\<rparr>
      in if error_text \<noteq> [] then (add_assessment (local_approval error_text) st1, [])
         else (st1, script_items commands))"

text \<open>What is left of \<open>assess_parts\<close> after the wrappers: the minikube runner and scripts.\<close>

definition script_step :: "inspector \<Rightarrow> string list \<Rightarrow> string \<Rightarrow> gate_state \<Rightarrow> gate_state \<times> string list option list" where
  "script_step G parts cwd st =
     (let tool_name = tool_of (hd parts) in
      if tool_name \<in> set wrapper_tools then
        (case minikube_wrapper G parts cwd of
           Inl a \<Rightarrow> (add_assessment a st, [])
         | Inr (a, script) \<Rightarrow> inspect_script G tool_name script (add_assessment a st))
      else (case script_path G parts cwd of
           None \<Rightarrow> (st, [])
         | Some script \<Rightarrow> inspect_script G tool_name script st))"

text \<open>\<open>cd\<close> inside a sequence: the new directory, or \<open>None\<close> when it is dynamic.\<close>

definition is_cd :: "string list \<Rightarrow> bool" where
  "is_cd parts = (case parts of [] \<Rightarrow> False | p # _ \<Rightarrow> tool_of p = ''cd'')"

definition cd_target :: "inspector \<Rightarrow> string list \<Rightarrow> string \<Rightarrow> string option" where
  "cd_target G parts cwd = (case parts of
     [_, d] \<Rightarrow> if d = ''-'' \<or> dynamic_text d then None else Some (resolved_in G cwd (expanded G d))
   | _ \<Rightarrow> None)"

definition rank :: "nat \<Rightarrow> nat" where "rank d = 5 - d"
definition breadth :: "string list list \<Rightarrow> nat" where "breadth segs = sum_list (map width segs) + length segs"
definition item_breadth :: "string list option list \<Rightarrow> nat" where
  "item_breadth items = sum_list (map (\<lambda>i. case i of None \<Rightarrow> 0 | Some s \<Rightarrow> width s) items) + length items"

lemma breadth_Cons [simp]: "breadth (s # ss) = Suc (width s + breadth ss)" by (simp add: breadth_def)
lemma item_breadth_Cons [simp]:
  "item_breadth (i # is) = Suc ((case i of None \<Rightarrow> 0 | Some s \<Rightarrow> width s) + item_breadth is)"
  by (simp add: item_breadth_def)

lemma env_split_width: "env_split ps = Inr (Some ts) \<Longrightarrow> width ts \<le> width ps"
proof (induction ps rule: env_split.induct)
  case (2 p ps)
  have "length (after_eq p) \<le> length p" by (simp add: after_eq_def) (meson diff_le_self le_trans length_dropWhile_le)
  then show ?case
    using 2 shlex_split_width
    by (fastforce simp: bindE_def split: if_splits sum.splits list.splits)
qed simp

lemma tool_of_env: "is_env raw \<Longrightarrow> env_split_parts raw = Inr (Some ts) \<Longrightarrow> width ts < width raw"
proof (cases raw)
  case (Cons p ps)
  assume a: "is_env raw" and e: "env_split_parts raw = Inr (Some ts)"
  from a Cons have "p \<noteq> []" by (auto simp: is_env_def tool_of_def path_name_def str_lower_def)
  moreover from e Cons env_split_width [of ps ts] have "width ts \<le> width ps" by (simp add: env_split_parts_def)
  ultimately show ?thesis using Cons by (cases p) auto
qed (simp add: is_env_def)

text \<open>
  One activation of \<open>assess_parts\<close>: what it appends when it returns, or the
  call it ends with, one level deeper.
\<close>

datatype gate_step =
    Done gate_state
  | Descend string "string list"
  | Sequence string "string list list"
  | Items string gate_state "string list option list"

definition shell_step :: "string \<Rightarrow> string \<Rightarrow> string \<Rightarrow> gate_state \<Rightarrow> gate_step" where
  "shell_step cwd command failure st = (case segments command of
     Inl _ \<Rightarrow> Done (add_assessment (local_approval failure) st)
   | Inr segs \<Rightarrow> Sequence cwd segs)"

definition command_step :: "inspector \<Rightarrow> string \<Rightarrow> string list \<Rightarrow> string list \<Rightarrow> gate_state \<Rightarrow> gate_step" where
  "command_step G cwd raw parts st =
     (let tool_name = tool_of (hd parts) in
      if tool_name \<in> set CLOUD_TOOLS
        then Done (add_assessment (assess_cloud_parts G parts (environment_value raw ''KUBECONFIG'') cwd) st)
      else if tool_name \<in> set SHELL_INTERPRETERS \<and> shell_noexec parts
        then Done (add_assessment (plain_assessment Allow ''local-script'') st)
      else if tool_name \<in> set SHELL_INTERPRETERS \<and> shell_command parts \<noteq> []
        then shell_step cwd (shell_command parts) ''execute dynamic shell content'' st
      else if tool_name \<in> set COMMAND_WRAPPERS
        then (if wrapped_command_parts parts = [] then Done st else Descend cwd (wrapped_command_parts parts))
      else if tool_name = ''eval'' then shell_step cwd (join '' '' (tl parts)) ''execute dynamic eval content'' st
      else if tool_name = ''xargs''
        then (if xargs_command G cwd (tl parts) = [] then Done st else Descend cwd (xargs_command G cwd (tl parts)))
      else (let (st', items) = script_step G parts cwd st in Items cwd st' items))"

definition parts_step :: "inspector \<Rightarrow> nat \<Rightarrow> string \<Rightarrow> string list \<Rightarrow> gate_state \<Rightarrow> gate_step" where
  "parts_step G d cwd0 raw st =
     (let cwd = (if is_env raw then env_cwd G raw cwd0 else cwd0) in
      case (if is_env raw then env_split_parts raw else Inr None) of
        Inl _ \<Rightarrow> Done (add_assessment (local_approval ''execute an invalid env split-string command'') st)
      | Inr (Some sp) \<Rightarrow> if sp = [] then Done st else Descend cwd sp
      | Inr None \<Rightarrow>
          (let parts = without_environment raw in
           if parts = [] then Done st
           else if d > 3
             then Done (add_assessment (local_approval ''execute nested script logic beyond inspection depth'') st)
           else command_step G cwd raw parts st))"

text \<open>
  The recursion: \<open>assess_parts\<close> and \<open>assess_sequence\<close> of the code, and \<open>assess_items\<close>, its
  loop over the commands of a script.  Past the environment split, a depth above
  3 ends the descent; a split shortens the text.
\<close>

lemma parts_step_small:
  "parts_step G d cwd raw st = Descend c sp \<Longrightarrow> rank (Suc d) < rank d \<or> rank (Suc d) = rank d \<and> width sp < width raw"
  by (auto simp: parts_step_def command_step_def shell_step_def rank_def tool_of_env Let_def
      split: if_splits sum.splits option.splits prod.splits)

lemma parts_step_depth:
  "parts_step G d cwd raw st = Sequence c segs \<Longrightarrow> rank (Suc d) < rank d"
  "parts_step G d cwd raw st = Items c st' items \<Longrightarrow> rank (Suc d) < rank d"
  by (auto simp: parts_step_def command_step_def shell_step_def rank_def Let_def
      split: if_splits sum.splits option.splits prod.splits)

function assess_parts :: "inspector \<Rightarrow> nat \<Rightarrow> string \<Rightarrow> string list \<Rightarrow> gate_state \<Rightarrow> gate_state"
  and assess_sequence :: "inspector \<Rightarrow> nat \<Rightarrow> string \<Rightarrow> string list list \<Rightarrow> gate_state \<Rightarrow> gate_state"
  and assess_items :: "inspector \<Rightarrow> nat \<Rightarrow> string \<Rightarrow> string list option list \<Rightarrow> gate_state \<Rightarrow> gate_state"
where
  "assess_parts G d cwd raw st =
     (case parts_step G d cwd raw st of
        Done st' \<Rightarrow> st'
      | Descend cwd' parts \<Rightarrow> assess_parts G (Suc d) cwd' parts st
      | Sequence cwd' segs \<Rightarrow> assess_sequence G (Suc d) cwd' segs st
      | Items cwd' st' items \<Rightarrow> assess_items G (Suc d) cwd' items st')"
| "assess_sequence G d cwd [] st = st"
| "assess_sequence G d cwd (seg # segs) st =
     (let parts = without_environment seg in
      if is_cd parts then
        (case cd_target G parts cwd of
           None \<Rightarrow> assess_sequence G d cwd segs
             (add_assessment (local_approval ''execute a relative script after dynamic cd'') st)
         | Some cwd' \<Rightarrow> assess_sequence G d cwd' segs st)
      else assess_sequence G d cwd segs (assess_parts G d cwd seg st))"
| "assess_items G d cwd [] st = st"
| "assess_items G d cwd (i # items) st =
     (case i of
        None \<Rightarrow> assess_items G d cwd items
          (add_assessment (local_approval ''execute a cloud command that cannot be parsed statically'') st)
      | Some seg \<Rightarrow> assess_items G d cwd items (assess_parts G d cwd seg st))"
  by pat_completeness auto
termination
  by (relation "measures [
       \<lambda>x. case x of Inl (G, d, _) \<Rightarrow> rank d | Inr (Inl (G, d, _)) \<Rightarrow> rank d | Inr (Inr (G, d, _)) \<Rightarrow> rank d,
       \<lambda>x. case x of Inl (G, d, c, p, _) \<Rightarrow> width p | Inr (Inl (G, d, c, s, _)) \<Rightarrow> breadth s
         | Inr (Inr (G, d, c, i, _)) \<Rightarrow> item_breadth i]")
    (auto simp: breadth_def item_breadth_def dest: parts_step_small parts_step_depth)

declare assess_parts.simps [simp del]

text \<open>\<open>_rewrites_inspected_script\<close>: the words after \<open>>\<close> or \<open>>>\<close>.\<close>

definition target_char :: "char \<Rightarrow> bool" where
  "target_char c = (\<not> is_space c \<and> c \<notin> set '';&|'')"

definition redirect_at :: "string \<Rightarrow> string option" where
  "redirect_at s = (case takeWhile target_char (dropWhile is_space s) of [] \<Rightarrow> None | t \<Rightarrow> Some t)"

fun redirect_targets :: "nat \<Rightarrow> string \<Rightarrow> string list" where
  "redirect_targets skip [] = []"
| "redirect_targets (Suc skip) (c # s) = redirect_targets skip s"
| "redirect_targets 0 (c # s) =
     (if c \<noteq> CHR ''>'' then redirect_targets 0 s
      else
        (let two = (case s of d # t \<Rightarrow> if d = CHR ''>'' then redirect_at t else None | [] \<Rightarrow> None);
             gap = (\<lambda>u. length (takeWhile is_space u)) in
         case two of
           Some t \<Rightarrow> t # redirect_targets (1 + gap (tl s) + length t) s
         | None \<Rightarrow> (case redirect_at s of
             Some t \<Rightarrow> t # redirect_targets (gap s + length t) s
           | None \<Rightarrow> redirect_targets 0 s)))"

definition strip_quotes :: "string \<Rightarrow> string" where
  "strip_quotes s = rev (dropWhile (\<lambda>c. c \<in> set lex_quotes) (rev (dropWhile (\<lambda>c. c \<in> set lex_quotes) s)))"

definition rewrites_inspected_script :: "inspector \<Rightarrow> string \<Rightarrow> string list \<Rightarrow> string \<Rightarrow> bool" where
  "rewrites_inspected_script G command scripts cwd =
     list_ex (\<lambda>t. resolved_in G cwd (expanded G (strip_quotes t)) \<in> set scripts) (redirect_targets 0 command)"

definition inline_step :: "inspector \<Rightarrow> string \<Rightarrow> gate_state \<Rightarrow> string \<Rightarrow> gate_state" where
  "inline_step G cwd st c = (case segments c of
     Inl _ \<Rightarrow> add_assessment (local_approval ''execute nested cloud content that cannot be parsed safely'') st
   | Inr segs \<Rightarrow> assess_sequence G 1 cwd segs st)"

definition assess_inline :: "inspector \<Rightarrow> string \<Rightarrow> string list \<Rightarrow> gate_state \<Rightarrow> gate_state" where
  "assess_inline G cwd commands st = foldl (inline_step G cwd) st commands"

definition collected :: "inspector \<Rightarrow> string \<Rightarrow> string \<Rightarrow> string list list \<Rightarrow> gate_state" where
  "collected G command cwd segs =
     (let st0 = \<lparr>gs_assessments = [], gs_scripts = [], gs_hashes = []\<rparr>;
          st1 = assess_sequence G 0 cwd segs st0;
          (inline_commands, inline_error) = inline_shell_cloud_commands G command;
          st2 = (if inline_error \<noteq> [] then add_assessment (local_approval inline_error) st1 else st1)
      in assess_inline G cwd inline_commands st2)"

definition assess_command :: "inspector \<Rightarrow> string \<Rightarrow> string \<Rightarrow> assessment" where
  "assess_command G command cwd =
     (case segments command of
        Inl _ \<Rightarrow> (approval_of ''command'' ''mutating'' ''execute a command that cannot be parsed safely'')
                  \<lparr>as_subject := command\<rparr>
      | Inr segs \<Rightarrow>
          (let st = collected G command cwd segs;
               chosen0 = choose_assessment (gs_assessments st);
               chosen = (if gs_scripts st \<noteq> [] \<and> rewrites_inspected_script G command (gs_scripts st) cwd
                            \<and> as_action chosen0 = Allow
                         then local_approval ''rewrite an inspected script before execution'' else chosen0);
               subject = resolved_in G cwd [] @ [newline] @ command;
               hashes = sorted_list_of_set (set (gs_hashes st))
           in chosen\<lparr>as_subject := (if hashes = [] then subject
                else subject @ [newline] @ join [newline] hashes)\<rparr>))"

section \<open>Nothing that was collected is lost\<close>

definition extends :: "gate_state \<Rightarrow> gate_state \<Rightarrow> bool" where
  "extends st st' = (\<exists>xs. gs_assessments st' = gs_assessments st @ xs)"

lemma extends_refl [simp, intro]: "extends st st" by (simp add: extends_def)

lemma extends_trans [trans]: "extends a b \<Longrightarrow> extends b c \<Longrightarrow> extends a c"
  by (auto simp: extends_def)

lemma extends_add [simp, intro]: "extends st (add_assessment a st)"
  by (simp add: extends_def add_assessment_def)

lemma extends_set: "extends st st' \<Longrightarrow> a \<in> set (gs_assessments st) \<Longrightarrow> a \<in> set (gs_assessments st')"
  by (auto simp: extends_def)

lemma extends_inspect: "extends st (fst (inspect_script G t s st))"
  by (auto simp: inspect_script_def extends_def add_assessment_def Let_def split: prod.splits)

lemma extends_script: "extends st (fst (script_step G parts cwd st))"
  using extends_inspect extends_trans [OF extends_add extends_inspect]
  by (auto simp: script_step_def Let_def split: sum.splits option.splits prod.splits)

lemma extends_scriptD: "script_step G parts cwd st = (st', items) \<Longrightarrow> extends st st'"
  using extends_script [of st G parts cwd] by simp

lemma extends_step:
  "parts_step G d cwd raw st = Done st' \<Longrightarrow> extends st st'"
  "parts_step G d cwd raw st = Items c st' items \<Longrightarrow> extends st st'"
  by (auto simp: parts_step_def command_step_def shell_step_def Let_def dest: extends_scriptD
      split: if_splits sum.splits option.splits prod.splits)

lemma assess_extends:
  "extends st (assess_parts G d cwd raw st)"
  "extends st (assess_sequence G d cwd segs st)"
  "extends st (assess_items G d cwd items st)"
proof (induction G d cwd raw st and G d cwd segs st and G d cwd items st
    rule: assess_parts_assess_sequence_assess_items.induct)
  case (1 G d cwd raw st)
  then show ?case
    by (cases "parts_step G d cwd raw st")
      (auto simp: assess_parts.simps [of G d cwd raw] intro: extends_step extends_trans)
next
  case (3 G d cwd seg segs st)
  then show ?case
    by (auto simp: Let_def split: option.splits intro: extends_trans [OF extends_add] extends_trans)
next
  case (5 G d cwd i items st)
  then show ?case
    by (auto split: option.splits intro: extends_trans [OF extends_add] extends_trans)
qed simp_all

lemma foldl_extends: "(\<And>st c. extends st (f st c)) \<Longrightarrow> extends st (foldl f st cs)"
proof (induction cs arbitrary: st)
  case (Cons c cs)
  from Cons.prems [of st c] Cons.IH [OF Cons.prems, of "f st c"] show ?case by (simp add: extends_trans)
qed simp

lemma inline_extends: "extends st (assess_inline G cwd commands st)"
  unfolding assess_inline_def
  by (rule foldl_extends) (auto simp: inline_step_def assess_extends split: sum.splits)

lemma collected_extends:
  "extends (assess_sequence G 0 cwd segs \<lparr>gs_assessments = [], gs_scripts = [], gs_hashes = []\<rparr>) (collected G command cwd segs)"
  using inline_extends extends_trans [OF extends_add inline_extends]
  by (auto simp: collected_def Let_def split: prod.splits)

section \<open>What is allowed\<close>

lemma find_None_set: "find P xs = None \<longleftrightarrow> (\<forall>x\<in>set xs. \<not> P x)"
  by (auto simp: find_None_iff)

lemma find_in: "find P xs = Some x \<Longrightarrow> x \<in> set xs \<and> P x"
  by (auto simp: find_Some_iff)

lemma choose_approvals:
  assumes "find (\<lambda>a. as_action a = Block) xs = None" "filter (\<lambda>a. as_action a = Approval) xs = c # cs"
  shows "as_action (choose_assessment xs) = Approval"
proof -
  have m: "as_action d = Approval" if "d \<in> set (c # cs)" for d
    using that unfolding assms(2) [symmetric] by simp
  have "as_action (case find (\<lambda>b. as_risk b = ''destructive'') (c # cs) of Some b \<Rightarrow> b | None \<Rightarrow> c) = Approval"
  proof (cases "find (\<lambda>b. as_risk b = ''destructive'') (c # cs)")
    case None
    with m [of c] show ?thesis by (simp only: option.case) simp
  next
    case (Some b)
    with m [of b] find_in [OF Some] show ?thesis by (simp only: option.case)
  qed
  with assms show ?thesis by (simp only: choose_assessment_def option.case list.case)
qed

lemma choose_allow:
  assumes "as_action (choose_assessment xs) = Allow" "a \<in> set xs"
  shows "as_action a = Allow"
proof -
  have b: "find (\<lambda>a. as_action a = Block) xs = None"
  proof (rule ccontr)
    assume "find (\<lambda>a. as_action a = Block) xs \<noteq> None"
    then obtain c where c: "find (\<lambda>a. as_action a = Block) xs = Some c" by blast
    with find_in [OF c] assms(1) show False by (simp add: choose_assessment_def)
  qed
  have "filter (\<lambda>a. as_action a = Approval) xs = []"
    using choose_approvals [OF b] assms(1) by (cases "filter (\<lambda>a. as_action a = Approval) xs") auto
  with b assms(2) show ?thesis by (cases "as_action a") (auto simp: find_None_set filter_empty_conv)
qed

lemma assess_kubectl_allow:
  "as_action (assess_kubectl G parts k cwd) = Allow \<longleftrightarrow>
     context_of parts \<noteq> [] \<and> \<not> dynamic_text (context_of parts)
     \<and> (let v = verifier G (context_of parts) (effective_kubeconfig G parts k cwd) in
          cv_valid v \<and> (cv_minikube v \<and> \<not> kubectl_complete_deletion parts \<or> fst (classify_words parts) = ''read''))"
  by (auto simp: assess_kubectl_def Let_def context_required_def context_not_static_def context_invalid_def
      plain_assessment_def destructive_block_def approval_of_def split: prod.splits)

lemma assess_cloud_allow:
  "as_action (assess_cloud_parts G parts k cwd) = Allow \<longleftrightarrow>
     (if tool_of (hd parts) \<noteq> ''kubectl'' then fst (classify_words parts) = ''read''
      else as_action (assess_kubectl G parts k cwd) = Allow)"
  by (cases "classify_words parts")
    (simp add: assess_cloud_parts_def Let_def plain_assessment_def destructive_block_def approval_of_def)

text \<open>A segment whose command, after its environment, is a cloud tool.\<close>

definition direct_cloud :: "string list \<Rightarrow> bool" where
  "direct_cloud seg = (without_environment seg \<noteq> [] \<and> tool_of (hd (without_environment seg)) \<in> set CLOUD_TOOLS
     \<and> (\<not> is_env seg \<or> env_split_parts seg = Inr None))"

lemma direct_assessed:
  assumes "direct_cloud seg"
  shows "\<exists>cwd'. assess_parts G 0 cwd seg st = add_assessment
     (assess_cloud_parts G (without_environment seg) (environment_value seg ''KUBECONFIG'') cwd') st"
proof -
  have "\<exists>cwd'. parts_step G 0 cwd seg st = Done (add_assessment
     (assess_cloud_parts G (without_environment seg) (environment_value seg ''KUBECONFIG'') cwd') st)"
    using assms by (auto simp: direct_cloud_def parts_step_def command_step_def Let_def)
  then show ?thesis by (auto simp: assess_parts.simps [of G 0 cwd seg])
qed

lemma direct_not_cd: "direct_cloud seg \<Longrightarrow> \<not> is_cd (without_environment seg)"
  by (auto simp: direct_cloud_def is_cd_def CLOUD_TOOLS_def split: list.splits)

lemma sequence_covers:
  assumes "seg \<in> set segs" "direct_cloud seg"
  shows "\<exists>cwd'. assess_cloud_parts G (without_environment seg) (environment_value seg ''KUBECONFIG'') cwd'
     \<in> set (gs_assessments (assess_sequence G 0 cwd segs st))"
  using assms(1)
proof (induction segs arbitrary: cwd st)
  case (Cons s segs)
  show ?case
  proof (cases "s = seg")
    case True
    let ?a = "assess_cloud_parts G (without_environment seg) (environment_value seg ''KUBECONFIG'')"
    from direct_assessed [OF assms(2), of G cwd st] obtain cwd' where
      "assess_parts G 0 cwd seg st = add_assessment (?a cwd') st" by blast
    with True direct_not_cd [OF assms(2)]
    have e: "assess_sequence G 0 cwd (s # segs) st = assess_sequence G 0 cwd segs (add_assessment (?a cwd') st)"
      by simp
    have "?a cwd' \<in> set (gs_assessments (add_assessment (?a cwd') st))" by (simp add: add_assessment_def)
    from extends_set [OF assess_extends(2) this] show ?thesis unfolding e by blast
  next
    case False
    with Cons show ?thesis by (auto simp: Let_def split: option.splits)
  qed
qed simp

text \<open>
  C34: when a command is allowed, every segment of it that calls a cloud tool directly is one the policy allows:
  reading only, or \<open>kubectl\<close> with an explicit, static and verified context that either belongs to minikube and does
  not delete a complete scope, or is only read from.
\<close>

theorem allowed_segments:
  assumes "as_action (assess_command G command cwd) = Allow" "segments command = Inr segs"
    "seg \<in> set segs" "direct_cloud seg"
  defines "parts \<equiv> without_environment seg"
  shows "if tool_of (hd parts) \<noteq> ''kubectl'' then fst (classify_words parts) = ''read''
    else context_of parts \<noteq> [] \<and> \<not> dynamic_text (context_of parts)
      \<and> (\<exists>kubeconfig. let v = verifier G (context_of parts) kubeconfig in
           cv_valid v \<and> (cv_minikube v \<and> \<not> kubectl_complete_deletion parts \<or> fst (classify_words parts) = ''read''))"
proof -
  have "as_action (choose_assessment (gs_assessments (collected G command cwd segs))) = Allow"
    using assms(1,2) by (auto simp: assess_command_def Let_def local_approval_def approval_of_def split: if_splits)
  moreover obtain cwd' where "assess_cloud_parts G parts (environment_value seg ''KUBECONFIG'') cwd'
      \<in> set (gs_assessments (collected G command cwd segs))"
    using sequence_covers [OF assms(3,4)] extends_set [OF collected_extends] unfolding parts_def by blast
  ultimately have "as_action (assess_cloud_parts G parts (environment_value seg ''KUBECONFIG'') cwd') = Allow"
    by (rule choose_allow)
  then show ?thesis
    unfolding assess_cloud_allow assess_kubectl_allow by (auto simp: Let_def split: if_splits)
qed

text \<open>A command that only reads is allowed as soon as its context is verified, so the hypothesis can hold.\<close>

definition sample_inspector :: "bool \<Rightarrow> inspector" where
  "sample_inspector local_cluster = \<lparr>
     verifier = (\<lambda>ctx k. \<lparr>cv_valid = True, cv_minikube = local_cluster, cv_profile = ''p''\<rparr>),
     expanded = (\<lambda>s. s), resolved_in = (\<lambda>cwd p. if starts_with p ''/'' then p else cwd @ ''/'' @ p),
     home_wrapper = ''/home/u/.ralph-codex/bin/run-local-minikube-script'',
     script_path = (\<lambda>ps cwd. None), wrapper_script_path = (\<lambda>ps cwd. None),
     script_cloud_commands = (\<lambda>s b. ([], [], [])), inline_shell_cloud_commands = (\<lambda>c. ([], []))\<rparr>"

lemma sample_read:
  "as_action (assess_command (sample_inspector False) ''cd x && kubectl --context=prod get pods'' ''/r'') = Allow
   \<and> segments ''cd x && kubectl --context=prod get pods'' = Inr [[''cd'', ''x''], [''kubectl'', ''--context=prod'', ''get'', ''pods'']]
   \<and> direct_cloud [''kubectl'', ''--context=prod'', ''get'', ''pods'']"
  by code_simp

lemma sample_parts:
  "tool_of (hd (without_environment [''kubectl'', ''--context=prod'', ''get'', ''pods''])) = ''kubectl''"
  by code_simp

theorem allowed_segments_witness:
  "context_of (without_environment [''kubectl'', ''--context=prod'', ''get'', ''pods'']) \<noteq> []"
  using allowed_segments [of "sample_inspector False" "''cd x && kubectl --context=prod get pods''" "''/r''" _
      "[''kubectl'', ''--context=prod'', ''get'', ''pods'']"] sample_read sample_parts
  by (auto split: if_splits)

section \<open>What slips through\<close>

lemma status_words_read: "adjacent ''rollout'' ''status'' (words_of parts) \<Longrightarrow> classify_words parts = (''read'', [])"
  by (simp add: classify_words_def)

text \<open>
  C35: \<open>kubectl\<close> is allowed on any verified cluster as soon as the words \<open>rollout status\<close> stand next to each other
  anywhere among its arguments, whatever else the command does.
\<close>

theorem status_words_allow:
  assumes "tool_of (hd parts) = ''kubectl''" "adjacent ''rollout'' ''status'' (words_of parts)"
    "context_of parts \<noteq> []" "\<not> dynamic_text (context_of parts)"
    "cv_valid (verifier G (context_of parts) (effective_kubeconfig G parts kubeconfig cwd))"
  shows "as_action (assess_cloud_parts G parts kubeconfig cwd) = Allow"
  using assms by (simp add: assess_cloud_allow assess_kubectl_allow status_words_read Let_def)

definition sample_deletion :: "string list" where
  "sample_deletion = [''kubectl'', ''--context=prod'', ''delete'', ''namespace'', ''rollout'', ''status'']"

theorem status_words_allow_witness:
  "as_action (assess_cloud_parts (sample_inspector False) sample_deletion [] ''/r'') = Allow
   \<and> kubectl_complete_deletion sample_deletion"
proof
  have "tool_of (hd sample_deletion) = ''kubectl'' \<and> adjacent ''rollout'' ''status'' (words_of sample_deletion)
      \<and> context_of sample_deletion \<noteq> [] \<and> \<not> dynamic_text (context_of sample_deletion)
      \<and> cv_valid (verifier (sample_inspector False) (context_of sample_deletion)
          (effective_kubeconfig (sample_inspector False) sample_deletion [] ''/r''))"
    by code_simp
  then show "as_action (assess_cloud_parts (sample_inspector False) sample_deletion [] ''/r'') = Allow"
    by (intro status_words_allow) simp_all
  show "kubectl_complete_deletion sample_deletion" by code_simp
qed

lemma lex_comment: "newline \<notin> set s \<Longrightarrow> lex P C InComment [] False s = Inr []"
  by (induction s) (auto simp: emit_def)

lemma normalize_plain:
  "list_all (\<lambda>c. c \<notin> set lex_quotes \<and> c \<noteq> bslash) s \<Longrightarrow>
     normalize_lines None False s = map (\<lambda>c. if c = newline then CHR '';'' else c) s"
  by (induction s) auto

lemma lex_echo: "newline \<notin> set s \<Longrightarrow> lex '';&|'' ''#'' Blank [] False (''echo #'' @ s) = Inr [''echo'']"
  by (simp add: lex_comment enter_def lex_space_def lex_quotes_def emit_before_def emit_def bindE_def)

lemma segments_echo:
  assumes "list_all (\<lambda>c. c \<notin> set lex_quotes \<and> c \<noteq> bslash) rest"
  shows "segments (''echo #'' @ rest) = Inr [[''echo'']]"
proof -
  let ?s = "map (\<lambda>c. if c = newline then CHR '';'' else c) rest"
  have n: "normalize_lines None False (''echo #'' @ rest) = ''echo #'' @ ?s"
    using normalize_plain [OF assms] by (simp add: lex_quotes_def newline_def)
  have "newline \<notin> set ?s" by (auto simp: newline_def)
  from lex_echo [OF this] show ?thesis by (simp only: segments_def shlex_tokens_def n) (simp add: bindE_def)
qed

lemma echo_words:
  "without_environment [''echo''] = [''echo''] \<and> \<not> is_env [''echo''] \<and> \<not> is_cd [''echo''] \<and> tool_of ''echo'' = ''echo''
   \<and> ''echo'' \<notin> set CLOUD_TOOLS \<and> ''echo'' \<notin> set SHELL_INTERPRETERS \<and> ''echo'' \<notin> set COMMAND_WRAPPERS
   \<and> ''echo'' \<notin> set wrapper_tools"
  by code_simp

lemma echo_assessed:
  assumes "script_path G [''echo''] cwd = None"
  shows "assess_sequence G 0 cwd [[''echo'']] st = st"
proof -
  have "parts_step G 0 cwd [''echo''] st = Items cwd st []"
    using assms echo_words by (simp add: parts_step_def command_step_def script_step_def)
  then show ?thesis using echo_words by (simp add: assess_parts.simps [of G 0 cwd "[''echo'']"])
qed

text \<open>
  C36: a comment hides every line after it.  The line ends are turned into semicolons before the lexer drops the
  comment up to the end of its line, so the whole rest of the command is dropped: whatever text without quotes and
  backslashes follows, the command is allowed when its inline inspection reports nothing.
\<close>

theorem comment_hides_lines:
  assumes "list_all (\<lambda>c. c \<notin> set lex_quotes \<and> c \<noteq> bslash) rest"
    "script_path G [''echo''] cwd = None" "inline_shell_cloud_commands G (''echo #'' @ rest) = ([], [])"
  shows "as_action (assess_command G (''echo #'' @ rest) cwd) = Allow"
proof -
  have "collected G (''echo #'' @ rest) cwd [[''echo'']] = \<lparr>gs_assessments = [], gs_scripts = [], gs_hashes = []\<rparr>"
    using assms(3) by (simp only: collected_def echo_assessed [OF assms(2)] Let_def) (simp add: assess_inline_def)
  then show ?thesis
    by (simp only: assess_command_def segments_echo [OF assms(1)])
      (simp add: choose_assessment_def plain_assessment_def Let_def)
qed

theorem comment_hides_lines_witness:
  "as_action (assess_command (sample_inspector False)
     (''echo #'' @ newline # ''kubectl --context=prod delete namespace x'') ''/r'') = Allow"
proof (rule comment_hides_lines)
  show "list_all (\<lambda>c. c \<notin> set lex_quotes \<and> c \<noteq> bslash) (newline # ''kubectl --context=prod delete namespace x'')"
    by code_simp
qed (simp_all add: sample_inspector_def)

end
