(* ===== verification/Spec2Isabelle.thy ===== *)
theory Spec2Isabelle
  imports Demo RuntimeBudget AgentBudget CostPolicy SubagentRouting CloudGate
begin

text \<open>
  Verification of the deterministic core of Codex Ralph Vault Loop, the layer of
  hooks and stores that Codex sessions of the repository run under.  All sources
  named here are under \<open>src/.codex/hooks/shared/\<close>.

  \<^bold>\<open>The parts and how they meet.\<close>
  The implementation store (\<open>implementation_store/\<close>: \<open>schema.py\<close>, \<open>paths.py\<close>, \<open>io.py\<close>,
  \<open>store.py\<close>) keeps the progress of implementation plans as files of a repository:
  per plan a hash-chained journal of events (the truth) and a state file (its
  projection), one manifest of pointers, a journal of commits outside any plan,
  and a ledger of the context texts already shown.  \<open>store.py\<close> calls \<open>paths.py\<close> for the
  only places it writes to, \<open>io.py\<close> for atomic publication and appending, and
  \<open>schema.py\<close> for every record on its way in and out.  The hooks around it are bounded:
  \<open>runtime_budget.py\<close> holds their time-outs, \<open>runtime_profile.py\<close> says which safety
  profile the active model gets, \<open>agent_budget.py\<close> and \<open>subagent_routing.py\<close> decide
  whether a child agent may start and on which model, \<open>cost_policy.py\<close> measures tool
  output, and \<open>cloud_operation_gate.py\<close> decides about shell commands that reach a cloud.

  \<^bold>\<open>Theories and sources.\<close>
  \<^item> \<open>Prelude\<close>: exceptions as a datatype, \<open>'a res = error + 'a\<close> with \<open>bindE\<close>, list lemmas.
  \<^item> \<open>PyStr\<close>, \<open>PyValue\<close>, \<open>PyJson\<close>, \<open>PyConv\<close>, \<open>ShellLex\<close>: what the sources use of Python and
    its library: strings and UTF-8, dynamically typed values, \<open>json\<close>, \<open>int()\<close>, \<open>shlex\<close>.
  \<^item> \<open>Sha256\<close>: the hash on 32-bit words, and \<open>digest_fn\<close>, the contract the schema relies on.
  \<^item> \<open>Schema\<close>, \<open>SchemaRecords\<close>, \<open>SchemaWf\<close>: \<open>schema.py\<close>; every field validator, then the
    records (state, event, manifest, ledger record) and their well-formedness.  The locale
    \<open>record_schema\<close> is what a validator promises to the files; \<open>store_env\<close> interprets it
    for the four kinds of record.
  \<^item> \<open>World\<close>: the file tree and the system calls, each of which may fail or be where the
    process dies, as explicit state.  \<open>StorePaths\<close>: \<open>paths.py\<close>.  \<open>StoreIO\<close>: \<open>io.py\<close>.
    \<open>Journal\<close>: the line format of the journals.
  \<^item> \<open>StoreData\<close> (the pure helpers of \<open>store.py\<close>), \<open>Store\<close> (the operations of
    \<open>ImplementationStore\<close>: \<open>register_plan\<close>, \<open>record_event\<close>, \<open>update_state\<close>, \<open>replay_plan\<close>,
    \<open>append_unplanned_commit\<close>, \<open>claim_context_emission\<close>, the readers).
  \<^item> \<open>StoreLog\<close> (locale \<open>event_log\<close>), \<open>StoreChain\<close>, \<open>StoreEvents\<close>, \<open>StoreManifest\<close>, \<open>StoreSafety\<close>,
    \<open>StoreEffects\<close> (locale \<open>journal\<close>), \<open>StoreRecord\<close>, \<open>StoreHistory\<close>: the lemmas about them.
  \<^item> \<open>Running\<close>, \<open>Demo\<close>: code equations and concrete inputs for evaluation in the kernel.
  \<^item> \<open>RuntimeBudget\<close>, \<open>RuntimeProfile\<close>, \<open>AgentBudget\<close>, \<open>SubagentRouting\<close>, \<open>CostPolicy\<close>,
    \<open>CloudGate\<close>: the modules of the same names.

  \<^bold>\<open>How the code is rendered.\<close>
  A function that may raise returns \<open>error + 'a\<close>; a method that touches files takes and
  returns a \<open>world\<close>.  A dictionary is a key-sorted association list, because the code compares
  dictionaries by content and serialises them with sorted keys.  A string is a list of code
  points below 256.  A float is its \<open>repr\<close>.  The hash of the schema and the detector of sensitive
  text are fields of \<open>env\<close>; \<open>Sha256\<close> instantiates the former.  Whether a system call fails is
  read off the list \<open>w_faults\<close> of the world, so a theorem over all worlds is one over
  all failures and crashes.

  \<^bold>\<open>What the lemmas show.\<close>
  C1--C6: the operations of the store: journals only grow, a call that returns has recorded its
  event once and left the projection at the end of the journal, along any history of calls and
  crashes nothing is recorded or emitted twice.  C7--C11: the hash chain, replay, manifest
  pointers, derived keys and retries.  C12--C15, C20--C23: files: append-only journals, atomic
  publication, reading back, private reads, the write boundary.  C16--C19, C24: records and texts:
  validators return well-formed records that pass again, JSON prints and parses back, digests are hashes.
  C25--C30: the budget of child agents over the life of a ledger.  C31--C33: routing.
  C34--C36: the cloud gate.  C37--C40: profiles and the measurement of output.
  C21, C30, C32, C33, C35, C36 and C40 state behaviour the code's own comments or checks do not intend.

  \<^bold>\<open>Bounds and fuel.\<close>
  Link resolution follows at most 40 links, as Linux does.  The JSON reader runs on fuel
  \<open>2 * length + 2\<close>, shown to be enough by its round trip with the printer.  All other recursions
  terminate by a proved measure: the shrinking of an advisor packet by its weight, the descent of
  the cloud gate by the depth limit 3 and the shrinking text of a split string.

  \<^bold>\<open>Not modelled.\<close>
  The lock files (\<open>flock\<close>): calls on one store are taken one after the other, which is what the
  lock is for.  The detector of sensitive text (\<open>scripts/security/sensitive_content.py\<close>) is a
  parameter.  \<open>publish_derived_view\<close> is modelled in \<open>Store\<close> but is not a step of \<open>history\<close>: it writes
  no journal.  Characters beyond Latin-1.  The readers of \<open>script_operation_inspector.py\<close>
  (Python's \<open>ast\<close>, file contents) and the context verifier are parameters of \<open>CloudGate\<close>.
  The remaining hooks are processes around these modules (they read an event on standard
  input, call them, and print a decision); \<open>sol_advisor.py\<close>, \<open>context_budget.py\<close>,
  \<open>checkpoint_io.py\<close> and \<open>maintenance_queue.py\<close> keep caches of their own in the user's
  runtime directory; \<open>scripts/\<close> holds command-line tools, evaluations and migrations.  They are
  listed in the manifest with their reasons.
\<close>

section \<open>One store, any history\<close>

text \<open>
  C1: a call of \<open>record_event\<close>, whatever fails during it, only lets journals grow.  When it returns, the journal it
  found decodes and its chain holds, and either nothing was added and the returned state is the state at the end
  of that journal, or exactly one event of the operation was added, which was not there before, the state file
  holds the returned state, that state is at the end of the longer journal and its generation is one higher.
\<close>

theorem record_event_correct:
  "(case record_event E (layout r) pid kind op0 summary reason next refs codes upd now prov w of
      (Inl e, w') \<Rightarrow> prefix (bytes_at w (d @ [''events.jsonl''])) (bytes_at w' (d @ [''events.jsonl'']))
    | (Inr res, w') \<Rightarrow> \<exists>plan evs st. for_plan w (layout r) pid = Inr plan
        \<and> journal_decodes E plan (bytes_at w (pp_events plan)) evs \<and> checked_journal E evs \<and> at_journal E st evs
        \<and> (if sr_changed res
            then \<exists>ev st'. sr_state res = Some st' \<and> recorded E plan (sr_operation_id res) w w' evs st ev st'
            else sr_state res = Some st \<and> bytes_at w' (pp_events plan) = bytes_at w (pp_events plan)))"
proof (cases "record_event E (layout r) pid kind op0 summary reason next refs codes upd now prov w")
  case (Pair x w')
  show ?thesis
  proof (cases x)
    case (Inl e)
    have "is_journal (d @ [''events.jsonl''])" by (simp add: is_journal_def name_of_def)
    from keepsD [OF grows_record [OF this] Pair] Inl Pair show ?thesis by (simp add: grows_def)
  next
    case (Inr res)
    with Pair record_event_effect [of E r pid kind op0 summary reason "next" refs codes upd now prov w res w'] show ?thesis by simp
  qed
qed






text \<open>
  C5: a loose commit is recorded at the end of the unplanned journal, whose chain stays intact, unless its operation
  is already there; then nothing is written.
\<close>

theorem unplanned_correct:
  assumes "append_unplanned_commit E (layout r) op0 summary refs codes now prov w = (Inr res, w')"
  shows "\<exists>events. decodes (validate_event E None True 0 False) UNPLANNED_JOURNAL_MAX_RECORDS
        (bytes_at w (unplanned_events (layout r))) events
    \<and> chained E 1 (PStr []) events
    \<and> (if sr_changed res
        then \<not> has_operation (sr_operation_id res) events
          \<and> (\<exists>ev. dget ev ''operation_id'' PNone = PStr (sr_operation_id res) \<and> dget ev ''summary'' PNone = PStr summary
               \<and> bytes_at w' (unplanned_events (layout r)) = bytes_at w (unplanned_events (layout r)) @ json_line ev
               \<and> chained E 1 (PStr []) (events @ [ev])
               \<and> decodes (validate_event E None True 0 False) UNPLANNED_JOURNAL_MAX_RECORDS
                   (bytes_at w' (unplanned_events (layout r))) (events @ [ev]))
        else has_operation (sr_operation_id res) events
          \<and> bytes_at w' (unplanned_events (layout r)) = bytes_at w (unplanned_events (layout r)))"
  using assms by (rule append_unplanned_effect)

theorem unplanned_correct_witness:
  "\<exists>res w' events. demo_unplanned demo_world = (Inr res, w') \<and> \<not> has_operation (sr_operation_id res) events"
proof -
  obtain res w' where run: "demo_unplanned demo_world = (Inr res, w')" "sr_changed res"
    using demo_unplanned_run by (auto split: prod.splits sum.splits)
  from unplanned_correct [OF run(1) [unfolded demo_unplanned_def demo_store_def]] run show ?thesis by auto
qed



section \<open>The journal and its states\<close>









text \<open>
  C11: retrying an operation is accepted exactly when its payload is the same: an event built for another payload is
  rejected with \<open>IdempotencyError\<close>, unless the hash maps both payload texts to the same digest.  The states, times
  and positions the two events were built with play no part.
\<close>

theorem retry_needs_same_payload:
  assumes "build_event E plan st op kind summary reason next refs codes ts sq prev patch p = Inr a"
    and "build_event E plan' st' op' kind' summary' reason' next' refs' codes' ts' sq' prev' patch' q = Inr b"
    and "wf_py (PDict p)" "wf_py (PDict q)"
  shows "assert_same_operation a kd sm (Some b) =
    (if p = q \<or> collision E (PDict p) (PDict q) then Inr () else Inl IdempotencyError)"
proof (cases "p = q")
  case True
  with retry_accepted [of E plan st op kind summary reason "next" refs codes ts sq prev patch p a] assms(1,2)
  show ?thesis by simp
next
  case False
  have "digest E (PDict p) = digest E (PDict q) \<longleftrightarrow> collision E (PDict p) (PDict q)"
    using digest_collision [OF _ assms(3,4)] False by (auto simp: digest_def collision_def simp del: canonical_json.simps)
  with False show ?thesis by (simp add: built_same_operation [OF assms(1,2)] guardE_def)
qed

theorem retry_needs_same_payload_witness:
  "\<exists>a b. demo_build [(''kind'', PStr ''a'')] = Inr a \<and> demo_build [(''kind'', PStr ''ab'')] = Inr b
     \<and> assert_same_operation a None PNone (Some b) = Inl IdempotencyError"
proof -
  obtain a b where ab: "demo_build [(''kind'', PStr ''a'')] = Inr a" "demo_build [(''kind'', PStr ''ab'')] = Inr b"
    using demo_built by (auto split: sum.splits)
  have wf: "wf_py (PDict [(''kind'', PStr ''a'')])" "wf_py (PDict [(''kind'', PStr ''ab'')])" by code_simp+
  have "\<not> collision demo_env (PDict [(''kind'', PStr ''a'')]) (PDict [(''kind'', PStr ''ab'')])" by code_simp
  with retry_needs_same_payload [OF ab(1) [unfolded demo_build_def] ab(2) [unfolded demo_build_def] wf] ab
  show ?thesis by auto
qed

section \<open>Files\<close>

text \<open>
  C12: \<open>append_jsonl\<close> is append-only: whichever system call fails or the process dies at, the file keeps its
  bytes and gains an initial part of the new line, and no other file changes; when it returns, the whole line is there.
\<close>

theorem append_only:
  assumes "append_jsonl p d hl lim mx ex w = (r, w')" "p \<noteq> []"
  shows "\<exists>k \<le> length (json_line d). bytes_at w' p = bytes_at w p @ take k (json_line d)
    \<and> (\<forall>q. q \<noteq> p \<longrightarrow> w_node w' q = w_node w q)
    \<and> (\<forall>md. r = Inr md \<longrightarrow> k = length (json_line d))"
  using append_jsonl_result [OF assms] by blast

theorem append_only_witness:
  "\<exists>md w'. append_jsonl [''s'', ''j''] [] 4096 None None None demo_world = (Inr md, w')
    \<and> bytes_at w' [''s'', ''j''] = bytes_at demo_world [''s'', ''j''] @ json_line []"
proof -
  obtain md w' where run: "append_jsonl [''s'', ''j''] [] 4096 None None None demo_world = (Inr md, w')"
    using demo_append by (auto split: prod.splits sum.splits)
  from append_only [OF run] show ?thesis using run by auto
qed



text \<open>C14: a record that was published is what the next read of the file returns, through the same validator.\<close>

theorem published_state_read:
  assumes "publish_json p st hl w = (Inr md, w')" "\<not> is_temp p" "p \<noteq> []" "no_links w p" "\<not> w_noread w p"
    and "validate_state E ex hl (PDict st) = Inr st"
  shows "read_json w' (validate_state E ex hl) hl p = Inr (Some st)"
proof (rule read_json_present)
  show "readable w' p (json_bytes st)" by (rule publish_readable [OF assms(1-5)])
  show "length (json_bytes st) \<le> hl" using publish_json_result [OF assms(1-3)] by blast
  have "wf_py (PDict st)" by (rule state_wf_json, rule validate_state_wf, rule assms(6))
  then show "decode_record (validate_state E ex hl) (json_bytes st) = Inr st"
    by (simp only: decode_json_bytes assms(6))
qed

theorem published_state_read_witness:
  "\<exists>md w'. publish_json [''s'', ''j''] demo_state STATE_HARD_LIMIT_BYTES demo_world = (Inr md, w')
     \<and> read_json w' (validate_state demo_env (Some ''plan-a'') STATE_HARD_LIMIT_BYTES) STATE_HARD_LIMIT_BYTES [''s'', ''j'']
       = Inr (Some demo_state)"
proof -
  obtain md w' where run: "publish_json [''s'', ''j''] demo_state STATE_HARD_LIMIT_BYTES demo_world = (Inr md, w')"
    using demo_publish by (auto split: prod.splits sum.splits)
  have "\<not> is_temp [''s'', ''j'']" by (simp add: is_temp_def name_of_def)
  moreover have "reject_symlink_components demo_world True [''s'', ''j''] = Inr ()" by code_simp
  then have "no_links demo_world [''s'', ''j'']" by (simp add: reject_missing_ok)
  ultimately show ?thesis
    using published_state_read [OF run _ _ _ _ demo_state_valid] run by (simp add: demo_world_def world_of_def)
qed

text \<open>C15: a record appended to the context ledger is read back as its last record, after all earlier ones.\<close>

theorem appended_record_read:
  assumes "append_jsonl p rec CONTEXT_LEDGER_HARD_LIMIT_BYTES (Some CONTEXT_LEDGER_MAX_BYTES)
      (Some CONTEXT_LEDGER_MAX_RECORDS) (Some (length recs)) w = (Inr md, w')"
    and "p \<noteq> []"
    and "read_jsonl w (validate_context_ledger_record E CONTEXT_LEDGER_HARD_LIMIT_BYTES) CONTEXT_LEDGER_MAX_BYTES
      CONTEXT_LEDGER_MAX_RECORDS p = Inr (recs, False)"
    and "validate_context_ledger_record E CONTEXT_LEDGER_HARD_LIMIT_BYTES v = Inr rec" "\<not> w_noread w' p"
  shows "read_jsonl w' (validate_context_ledger_record E CONTEXT_LEDGER_HARD_LIMIT_BYTES) CONTEXT_LEDGER_MAX_BYTES
      CONTEXT_LEDGER_MAX_RECORDS p = Inr (recs @ [rec], False)"
  using assms by (rule ledger_journal.append_read)

theorem appended_record_read_witness:
  "\<exists>w'. read_jsonl w' (validate_context_ledger_record demo_env CONTEXT_LEDGER_HARD_LIMIT_BYTES) CONTEXT_LEDGER_MAX_BYTES
      CONTEXT_LEDGER_MAX_RECORDS [''s'', ''l''] = Inr ([demo_ledger_record], False)"
proof -
  obtain md w' where run: "append_jsonl [''s'', ''l''] demo_ledger_record CONTEXT_LEDGER_HARD_LIMIT_BYTES
      (Some CONTEXT_LEDGER_MAX_BYTES) (Some CONTEXT_LEDGER_MAX_RECORDS) (Some 0) demo_world = (Inr md, w')"
      "\<not> w_noread w' [''s'', ''l'']"
    using demo_append_record by (auto split: prod.splits sum.splits)
  have rd: "read_jsonl demo_world (validate_context_ledger_record demo_env CONTEXT_LEDGER_HARD_LIMIT_BYTES)
      CONTEXT_LEDGER_MAX_BYTES CONTEXT_LEDGER_MAX_RECORDS [''s'', ''l''] = Inr ([], False)"
    using demo_read_none by (auto split: sum.splits prod.splits)
  have run0: "append_jsonl [''s'', ''l''] demo_ledger_record CONTEXT_LEDGER_HARD_LIMIT_BYTES
      (Some CONTEXT_LEDGER_MAX_BYTES) (Some CONTEXT_LEDGER_MAX_RECORDS) (Some (length ([] :: pdict list))) demo_world = (Inr md, w')"
    using run(1) by simp
  show ?thesis using appended_record_read [OF run0 _ rd demo_record_valid run(2)] by auto
qed

section \<open>Records, texts and paths\<close>

text \<open>
  C16: a state the validator returns is well-formed (its keys, field types, size and semantic hash), passes again
  unchanged, and its JSON text parses back to it.
\<close>

theorem validated_state:
  assumes "validate_state E ex hl v = Inr n" "digest_fn (env_sha E)"
  shows "state_wf E hl n \<and> validate_state E ex hl (PDict n) = Inr n
    \<and> json_loads (canonical_json (PDict n)) = Some (PDict n)"
  using validate_state_wf [OF assms(1)] validate_state_accepts [OF assms(2)]
    json_roundtrip [OF state_wf_json [OF validate_state_wf(1) [OF assms(1)]]] by blast

theorem validated_state_witness:
  "state_wf demo_env STATE_HARD_LIMIT_BYTES demo_state
   \<and> json_loads (canonical_json (PDict demo_state)) = Some (PDict demo_state)"
proof -
  have "digest_fn (env_sha demo_env)"
  proof unfold_locales
    fix s
    have "hex_lower CHR ''0''" by code_simp
    then show "length (env_sha demo_env s) = 64" "list_all hex_lower (env_sha demo_env s)"
      using demo_hex [of "length s"] by (simp_all add: demo_env_def list_all_iff)
  qed
  from validated_state [OF demo_state_valid this] show ?thesis by blast
qed

text \<open>C17: the same for an event, planned or unplanned, with or without its record hash.\<close>

theorem validated_event:
  assumes "validate_event E ex u hl a v = Inr n"
  shows "event_wf E u hl a n \<and> validate_event E ex u hl a (PDict n) = Inr n
    \<and> json_loads (canonical_json (PDict n)) = Some (PDict n)"
  using validate_event_wf [OF assms] validate_event_accepts
    json_roundtrip [OF event_wf_json [OF validate_event_wf(1) [OF assms]]] by blast

theorem validated_event_witness: "json_loads (canonical_json (PDict demo_event)) = Some (PDict demo_event)"
proof -
  have "validate_event demo_env (Some ''plan-a'') False 0 False (PDict demo_event) = Inr demo_event"
    by (rule validate_event_accepts [OF demo_event_wf]) code_simp
  from validated_event [OF this] show ?thesis by blast
qed

text \<open>C18: the same for a manifest: no two pointers name one plan, and there are at most 64.\<close>

theorem validated_manifest:
  assumes "validate_manifest E hl v = Inr n"
  shows "manifest_wf E hl n \<and> distinct (map pointer_id (plans_of n)) \<and> length (plans_of n) \<le> 64
    \<and> validate_manifest E hl (PDict n) = Inr n \<and> json_loads (canonical_json (PDict n)) = Some (PDict n)"
  using validate_manifest_wf [OF assms] validate_manifest_accepts manifest_wf_plans [OF validate_manifest_wf [OF assms]]
    json_roundtrip [OF manifest_wf_json [OF validate_manifest_wf [OF assms]]] by blast

theorem validated_manifest_witness:
  "manifest_wf demo_env MANIFEST_HARD_LIMIT_BYTES demo_manifest \<and> length (plans_of demo_manifest) \<le> 64"
  using validated_manifest [OF demo_manifest_valid] by blast



text \<open>
  C20: a plan's files lie inside the store, below no symbolic link, and different plan identifiers have different
  directories.
\<close>

theorem plan_files_apart:
  assumes "for_plan w (layout r) a = Inr pa" "for_plan w (layout r) b = Inr pb"
  shows "in_boundary w r (pp_root pa) \<and> pp_plan_id pa = a
    \<and> pp_state pa = pp_root pa @ [''state.json''] \<and> pp_events pa = pp_root pa @ [''events.jsonl'']
    \<and> (pp_root pa = pp_root pb) = (a = b)"
  using for_plan_ok [OF assms(1)] for_plan_ok(2) [OF assms(2)] for_plan_inj [OF assms] by auto

theorem plan_files_apart_witness:
  "\<exists>pa pb. for_plan demo_world demo_store ''plan-a'' = Inr pa \<and> for_plan demo_world demo_store ''plan-b'' = Inr pb
     \<and> pp_root pa \<noteq> pp_root pb"
proof -
  obtain pa pb where run: "for_plan demo_world demo_store ''plan-a'' = Inr pa" "for_plan demo_world demo_store ''plan-b'' = Inr pb"
    using demo_plans by (auto split: sum.splits)
  from plan_files_apart [OF run [unfolded demo_store_def]] run show ?thesis by auto
qed


text \<open>
  C22: a private read succeeds exactly on a regular file of one name and owner-only mode, without symbolic links on
  its path, that is readable and within the limit, and then gives its bytes.
\<close>

theorem private_read:
  "(read_bytes w (Some n) True p = Inr b) =
     (p \<noteq> [] \<and> no_links w p \<and> all_present w p \<and> \<not> w_noread w p
      \<and> (\<exists>m. w_node w p = Some (RegFile b m 1) \<and> m AND 63 = 0) \<and> length b \<le> n)"
  by (simp add: read_bytes_ok readable_def conj_assoc)



text \<open>C24: SHA-256 gives 64 lowercase hexadecimal digits, so a digest always passes the schema's hash check.\<close>

theorem sha256_is_hash:
  "length (sha256_hex s) = 64 \<and> list_all hex_lower (sha256_hex s)
   \<and> s_hash b (PStr (digest (sha_env red) v)) = Inr (PStr (digest (sha_env red) v))"
  using sha256.sha_length sha256.sha_hex s_hash_digest [of "sha_env red"] sha256.digest_fn_axioms by simp

end
